theory Spec2Isabelle
  imports Complex_Main "HOL-Library.Sublist"
begin

section \<open>make-self-extracting-bin: the command-line front end\<close>

text \<open>
  The program is one TypeScript script. It parses its command line with
  \<^verbatim>\<open>command-line-args\<close>, prints the usage text and exits when \<^verbatim>\<open>--help\<close> is given,
  and otherwise validates the options, reads the pre/post-extraction script files,
  maps every input path to an archive entry, rejects duplicate entry names, opens the
  output stream and hands everything to \<^verbatim>\<open>makeSelfExtractingScript\<close> of the
  \<^verbatim>\<open>make-self-extracting\<close> package.

  The embedding follows the script top to bottom. \<^verbatim>\<open>process.exit(n)\<close> ends the run, so
  the run is a function from the parsed options and the world (working directory and
  file system) to an outcome: exit status, console lines, files read, the output
  stream that was created, the call made to the assembler and what it answered. The
  assembler, the usage text and the working directory are parameters: they are not
  code of this program. Option values have the types the script declares for them
  (\<^verbatim>\<open>OptionsType\<close>): an option that takes a value is given with its value.
\<close>

subsection \<open>JavaScript values\<close>

text \<open>
  A JavaScript \<^verbatim>\<open>number\<close>. The script only compares a number with the literals
  \<^verbatim>\<open>0\<close> to \<^verbatim>\<open>9\<close> by \<^verbatim>\<open>===\<close>, so a finite number is its exact (rational)
  value; \<^verbatim>\<open>-0\<close> is the value \<^verbatim>\<open>0\<close>, as \<^verbatim>\<open>===\<close> sees it.
\<close>

datatype number = NaN | PosInfinity | NegInfinity | Finite rat

text \<open>\<^verbatim>\<open>a === b\<close> on numbers: \<^verbatim>\<open>NaN\<close> equals nothing, itself included.\<close>

fun strictEq :: "number \<Rightarrow> number \<Rightarrow> bool" where
  "strictEq NaN b = False"
| "strictEq a NaN = False"
| "strictEq a b = (a = b)"

text \<open>\<^verbatim>\<open>String(n)\<close> for a non-negative integer, as a template literal prints a length.\<close>

fun showNat :: "nat \<Rightarrow> string" where
  "showNat n =
     (if n < 10 then [''0123456789'' ! n]
      else showNat (n div 10) @ [''0123456789'' ! (n mod 10)])"

declare showNat.simps [simp del]

subsection \<open>Node's \<^verbatim>\<open>path\<close> module (POSIX flavour)\<close>

text \<open>
  \<^verbatim>\<open>path.resolve\<close>, \<^verbatim>\<open>path.relative\<close> and \<^verbatim>\<open>path.parse\<close> belong to the platform. They
  are modelled as Node documents and implements them for POSIX paths: the separator is
  \<^verbatim>\<open>/\<close>, a path is cut into the segments between separators, and normalisation drops
  empty and \<^verbatim>\<open>.\<close> segments and lets \<^verbatim>\<open>..\<close> remove the segment before it.
\<close>

fun splitOn :: "char \<Rightarrow> string \<Rightarrow> string list" where
  "splitOn c [] = [[]]"
| "splitOn c (x # xs) =
     (if x = c then [] # splitOn c xs
      else (case splitOn c xs of
              [] \<Rightarrow> [[x]]
            | s # ss \<Rightarrow> (x # s) # ss))"

fun joinWith :: "string \<Rightarrow> string list \<Rightarrow> string" where
  "joinWith sep [] = []"
| "joinWith sep [s] = s"
| "joinWith sep (s # t # ts) = s @ sep @ joinWith sep (t # ts)"

definition isAbsolute :: "string \<Rightarrow> bool" where
  "isAbsolute p = (case p of [] \<Rightarrow> False | c # _ \<Rightarrow> c = CHR ''/'')"

text \<open>
  One step of \<^verbatim>\<open>normalizeString\<close>: \<open>res\<close> holds the segments kept so far. A \<^verbatim>\<open>..\<close>
  removes the last kept segment unless there is none or it is itself \<^verbatim>\<open>..\<close>; then it
  is kept only when the path may climb above its start (\<open>allowAboveRoot\<close>).
\<close>

definition normalizeStep :: "bool \<Rightarrow> string list \<Rightarrow> string \<Rightarrow> string list" where
  "normalizeStep allowAboveRoot res seg =
     (if seg = [] \<or> seg = ''.'' then res
      else if seg = ''..'' then
        (if res \<noteq> [] \<and> last res \<noteq> ''..'' then butlast res
         else if allowAboveRoot then res @ [''..'']
         else res)
      else res @ [seg])"

definition normalizeSegments :: "bool \<Rightarrow> string \<Rightarrow> string list" where
  "normalizeSegments allowAboveRoot p =
     foldl (normalizeStep allowAboveRoot) [] (splitOn CHR ''/'' p)"

definition normalizeString :: "bool \<Rightarrow> string \<Rightarrow> string" where
  "normalizeString allowAboveRoot p = joinWith ''/'' (normalizeSegments allowAboveRoot p)"

text \<open>
  \<^verbatim>\<open>path.resolve(p)\<close> with one argument. The loop of Node's implementation runs over
  the argument and then, while no absolute path has been seen, over
  \<^verbatim>\<open>process.cwd()\<close>; empty strings are skipped.
\<close>

definition path_resolve :: "string \<Rightarrow> string \<Rightarrow> string" where
  "path_resolve cwd p =
     (let (resolvedPath, resolvedAbsolute) =
            (if p = [] then ([], False) else (p @ ''/'', isAbsolute p));
          (resolvedPath, resolvedAbsolute) =
            (if resolvedAbsolute \<or> cwd = [] then (resolvedPath, resolvedAbsolute)
             else (cwd @ ''/'' @ resolvedPath, isAbsolute cwd));
          normalized = normalizeString (\<not> resolvedAbsolute) resolvedPath
      in if resolvedAbsolute then ''/'' @ normalized
         else if normalized \<noteq> [] then normalized
         else ''.'')"

text \<open>The non-empty segments of a path: for a resolved path, its directory names.\<close>

definition segments :: "string \<Rightarrow> string list" where
  "segments p = filter (\<lambda>s. s \<noteq> []) (splitOn CHR ''/'' p)"

fun dropCommon :: "string list \<Rightarrow> string list \<Rightarrow> string list \<times> string list" where
  "dropCommon (x # xs) (y # ys) =
     (if x = y then dropCommon xs ys else (x # xs, y # ys))"
| "dropCommon xs ys = (xs, ys)"

text \<open>
  \<^verbatim>\<open>path.relative(from, to)\<close>: both paths are resolved; equal paths give the empty
  string; otherwise the result climbs out of every segment of \<open>from\<close> below the
  common directory with \<^verbatim>\<open>..\<close> and then descends into the rest of \<open>to\<close>.
\<close>

definition path_relative :: "string \<Rightarrow> string \<Rightarrow> string \<Rightarrow> string" where
  "path_relative cwd from to =
     (if from = to then []
      else
        (let from' = path_resolve cwd from;
             to' = path_resolve cwd to
         in if from' = to' then []
            else (case dropCommon (segments from') (segments to') of
                    (up, down) \<Rightarrow>
                      joinWith ''/'' (replicate (length up) ''..'' @ down))))"

text \<open>
  \<^verbatim>\<open>path.parse(p)\<close>, the two fields the script reads. \<open>base\<close> is the last segment once
  trailing separators are trimmed (the leading separator of an absolute path is never
  part of it). \<open>ext\<close> runs from the last \<^verbatim>\<open>.\<close> of \<open>base\<close> to its end, and is empty when
  \<open>base\<close> has no \<^verbatim>\<open>.\<close>, when its only \<^verbatim>\<open>.\<close> is its first character, and when \<open>base\<close>
  is \<^verbatim>\<open>..\<close> (Node misses that last case for an absolute path whose single segment is
  \<^verbatim>\<open>..\<close>, and reports \<^verbatim>\<open>.\<close> there).
\<close>

record ParsedPath =
  base :: string
  ext :: string

text \<open>The suffix of a name from its last \<^verbatim>\<open>.\<close>, if it has one.\<close>

fun fromLastDot :: "string \<Rightarrow> string option" where
  "fromLastDot [] = None"
| "fromLastDot (c # cs) =
     (case fromLastDot cs of
        Some e \<Rightarrow> Some e
      | None \<Rightarrow> if c = CHR ''.'' then Some (c # cs) else None)"

definition path_parse :: "string \<Rightarrow> ParsedPath" where
  "path_parse p =
     (let body = (if isAbsolute p then tl p else p);
          trimmed = rev (dropWhile (\<lambda>c. c = CHR ''/'') (rev body));
          b = rev (takeWhile (\<lambda>c. c \<noteq> CHR ''/'') (rev trimmed));
          firstSegmentOfAbsolute = (isAbsolute p \<and> length b = length trimmed);
          e = (case fromLastDot b of
                 None \<Rightarrow> []
               | Some s \<Rightarrow>
                   if length s = length b then []
                   else if b = ''..'' \<and> \<not> firstSegmentOfAbsolute then []
                   else s)
      in \<lparr>base = b, ext = e\<rparr>)"

text \<open>A segment of a normalised absolute path: a name, not empty, not \<^verbatim>\<open>.\<close> and not \<^verbatim>\<open>..\<close>.\<close>

definition properName :: "string \<Rightarrow> bool" where
  "properName s = (s \<noteq> [] \<and> s \<noteq> ''.'' \<and> s \<noteq> ''..'' \<and> CHR ''/'' \<notin> set s)"

text \<open>The string that \<^verbatim>\<open>path.resolve\<close> normalises, for an absolute working directory.\<close>

definition resolveInput :: "string \<Rightarrow> string \<Rightarrow> string" where
  "resolveInput wd p =
     (if p = [] then wd @ ''/''
      else if isAbsolute p then p @ ''/''
      else wd @ ''/'' @ p @ ''/'')"

subsection \<open>Options\<close>

text \<open>
  What the user gave on the command line, option by option, after the type conversion
  of \<^verbatim>\<open>command-line-args\<close> (\<^verbatim>\<open>String\<close>, \<^verbatim>\<open>Number\<close>, \<^verbatim>\<open>Boolean\<close>). \<open>None\<close> is an
  option that was not given; a Boolean flag is given or not.
\<close>

record CommandLine =
  given_type :: "string option"
  given_compress_level :: "number option"
  given_pre_extract :: "string option"
  given_post_extract :: "string option"
  given_pre_extract_file :: "string option"
  given_post_extract_file :: "string option"
  given_omit_header :: bool
  given_root :: "string option"
  given_files :: "string list"
  given_output :: "string option"
  given_help :: bool

text \<open>
  The command line as \<^verbatim>\<open>command-line-args\<close> reads it, argument by argument, names and
  aliases resolved: a defined option with its value (a flag has none), a file (after
  \<^verbatim>\<open>--files\<close> or alone: \<^verbatim>\<open>files\<close> is the default option and takes many values), or an
  option that \<^verbatim>\<open>optionDefinitions\<close> does not define. An option that takes a value stands
  here with its value: given without one it would be \<^verbatim>\<open>null\<close>, which \<^verbatim>\<open>OptionsType\<close>
  does not admit, and such command lines are not covered.
\<close>

datatype OptionName =
    TypeOption | CompressLevelOption | PreExtractOption | PostExtractOption
  | PreExtractFileOption | PostExtractFileOption | OmitHeaderOption | RootOption
  | FilesOption | OutputOption | HelpOption

datatype Arg =
    TypeArg string | CompressLevelArg number | PreExtractArg string | PostExtractArg string
  | PreExtractFileArg string | PostExtractFileArg string | OmitHeaderArg | RootArg string
  | FilesArg string | OutputArg string | HelpArg | UnknownArg string

text \<open>
  What ends a run outside the script's own \<^verbatim>\<open>process.exit\<close> calls: the exceptions
  that \<^verbatim>\<open>commandLineArgs\<close> throws (line 101 has no \<^verbatim>\<open>try\<close>), and the error event of an
  output stream that could not be opened. Node reports an uncaught error and ends the
  process with status 1.
\<close>

datatype JsError = UNKNOWN_OPTION string | ALREADY_SET OptionName | OPEN_FAILED string

text \<open>The option an argument sets, or the text of an option that is not defined.\<close>

fun optionOf :: "Arg \<Rightarrow> string + OptionName" where
  "optionOf (TypeArg t) = Inr TypeOption"
| "optionOf (CompressLevelArg n) = Inr CompressLevelOption"
| "optionOf (PreExtractArg s) = Inr PreExtractOption"
| "optionOf (PostExtractArg s) = Inr PostExtractOption"
| "optionOf (PreExtractFileArg f) = Inr PreExtractFileOption"
| "optionOf (PostExtractFileArg f) = Inr PostExtractFileOption"
| "optionOf OmitHeaderArg = Inr OmitHeaderOption"
| "optionOf (RootArg r) = Inr RootOption"
| "optionOf (FilesArg f) = Inr FilesOption"
| "optionOf (OutputArg out) = Inr OutputOption"
| "optionOf HelpArg = Inr HelpOption"
| "optionOf (UnknownArg s) = Inl s"

text \<open>
  A singular option that has been set cannot be set again; \<^verbatim>\<open>files\<close> is
  \<^verbatim>\<open>multiple\<close> and collects its values.
\<close>

fun isSet :: "OptionName \<Rightarrow> CommandLine \<Rightarrow> bool" where
  "isSet TypeOption cl = (given_type cl \<noteq> None)"
| "isSet CompressLevelOption cl = (given_compress_level cl \<noteq> None)"
| "isSet PreExtractOption cl = (given_pre_extract cl \<noteq> None)"
| "isSet PostExtractOption cl = (given_post_extract cl \<noteq> None)"
| "isSet PreExtractFileOption cl = (given_pre_extract_file cl \<noteq> None)"
| "isSet PostExtractFileOption cl = (given_post_extract_file cl \<noteq> None)"
| "isSet OmitHeaderOption cl = given_omit_header cl"
| "isSet RootOption cl = (given_root cl \<noteq> None)"
| "isSet FilesOption cl = False"
| "isSet OutputOption cl = (given_output cl \<noteq> None)"
| "isSet HelpOption cl = given_help cl"

fun setOption :: "Arg \<Rightarrow> CommandLine \<Rightarrow> CommandLine" where
  "setOption (TypeArg t) cl = cl\<lparr>given_type := Some t\<rparr>"
| "setOption (CompressLevelArg n) cl = cl\<lparr>given_compress_level := Some n\<rparr>"
| "setOption (PreExtractArg s) cl = cl\<lparr>given_pre_extract := Some s\<rparr>"
| "setOption (PostExtractArg s) cl = cl\<lparr>given_post_extract := Some s\<rparr>"
| "setOption (PreExtractFileArg f) cl = cl\<lparr>given_pre_extract_file := Some f\<rparr>"
| "setOption (PostExtractFileArg f) cl = cl\<lparr>given_post_extract_file := Some f\<rparr>"
| "setOption OmitHeaderArg cl = cl\<lparr>given_omit_header := True\<rparr>"
| "setOption (RootArg r) cl = cl\<lparr>given_root := Some r\<rparr>"
| "setOption (FilesArg f) cl = cl\<lparr>given_files := given_files cl @ [f]\<rparr>"
| "setOption (OutputArg out) cl = cl\<lparr>given_output := Some out\<rparr>"
| "setOption HelpArg cl = cl\<lparr>given_help := True\<rparr>"
| "setOption (UnknownArg s) cl = cl"

definition noArguments :: CommandLine where
  "noArguments =
     \<lparr>given_type = None, given_compress_level = None, given_pre_extract = None,
      given_post_extract = None, given_pre_extract_file = None,
      given_post_extract_file = None, given_omit_header = False, given_root = None,
      given_files = [], given_output = None, given_help = False\<rparr>"

text \<open>
  The parse of \<^verbatim>\<open>command-line-args\<close> (without its \<^verbatim>\<open>partial\<close> mode) goes through the
  arguments in order and throws at the first option that is not defined
  (\<^verbatim>\<open>UNKNOWN_OPTION\<close>) or that sets a singular option again (\<^verbatim>\<open>ALREADY_SET\<close>).
\<close>

definition parseStep :: "CommandLine \<Rightarrow> Arg \<Rightarrow> JsError + CommandLine" where
  "parseStep cl a =
     (case optionOf a of
        Inl s \<Rightarrow> Inl (UNKNOWN_OPTION s)
      | Inr n \<Rightarrow> if isSet n cl then Inl (ALREADY_SET n) else Inr (setOption a cl))"

fun parseFrom :: "CommandLine \<Rightarrow> Arg list \<Rightarrow> JsError + CommandLine" where
  "parseFrom cl [] = Inr cl"
| "parseFrom cl (a # args) =
     (case parseStep cl a of
        Inl e \<Rightarrow> Inl e
      | Inr cl' \<Rightarrow> parseFrom cl' args)"

definition parseArgv :: "Arg list \<Rightarrow> JsError + CommandLine" where
  "parseArgv args = parseFrom noArguments args"

text \<open>\<^verbatim>\<open>OptionsType\<close>: the parsed options as the script types them.\<close>

record OptionsType =
  opt_type :: string
  opt_compress_level :: "number option"
  opt_pre_extract :: "string option"
  opt_post_extract :: "string option"
  opt_pre_extract_file :: "string option"
  opt_post_extract_file :: "string option"
  opt_omit_header :: "bool option"
  opt_files :: "string list"
  opt_root :: "string option"
  opt_output :: "string option"
  opt_help :: bool

text \<open>
  \<^verbatim>\<open>commandLineArgs(optionDefinitions)\<close>, once the parse has gone through: an option
  that was not given takes the
  \<^verbatim>\<open>defaultValue\<close> of its definition when it has one (\<^verbatim>\<open>type\<close>: \<^verbatim>\<open>'tar'\<close>,
  \<^verbatim>\<open>files\<close>: \<^verbatim>\<open>[]\<close>, \<^verbatim>\<open>help\<close>: \<^verbatim>\<open>false\<close>) and is \<^verbatim>\<open>undefined\<close> otherwise.
\<close>

definition commandLineArgs :: "CommandLine \<Rightarrow> OptionsType" where
  "commandLineArgs argv =
     \<lparr>opt_type = (case given_type argv of None \<Rightarrow> ''tar'' | Some t \<Rightarrow> t),
      opt_compress_level = given_compress_level argv,
      opt_pre_extract = given_pre_extract argv,
      opt_post_extract = given_post_extract argv,
      opt_pre_extract_file = given_pre_extract_file argv,
      opt_post_extract_file = given_post_extract_file argv,
      opt_omit_header = (if given_omit_header argv then Some True else None),
      opt_files = given_files argv,
      opt_root = given_root argv,
      opt_output = given_output argv,
      opt_help = given_help argv\<rparr>"

subsection \<open>The world and the outcome of a run\<close>

text \<open>
  The file system maps an absolute, normalised path to the content of the readable file
  there. \<^verbatim>\<open>fsp.readFile(p)\<close> resolves \<open>p\<close> against the working directory and fails
  (\<open>None\<close>) when nothing readable is there. \<open>writable\<close> holds of the absolute paths at
  which a file can be opened for writing (created, or truncated when it exists); it
  fails for a path in a directory that does not exist, or that names a directory.
\<close>

record World =
  cwd :: string
  fsys :: "string \<rightharpoonup> string"
  writable :: "string \<Rightarrow> bool"

definition readFile :: "World \<Rightarrow> string \<Rightarrow> string option" where
  "readFile w p = fsys w (path_resolve (cwd w) p)"

text \<open>The entry handed to the assembler for one input file.\<close>

record FileEntry =
  filename :: string
  path :: string
  mode :: nat

text \<open>The first argument of \<^verbatim>\<open>makeSelfExtractingScript\<close>.\<close>

record ScriptOptions =
  archiveFormat :: string
  compressionLevel :: "number option"
  omitLibraryHeader :: "bool option"
  preExtraction :: "string option"
  postExtraction :: "string option"

datatype Sink = Stdout | FileStream string

text \<open>
  \<^verbatim>\<open>makeSelfExtractingScript\<close> is a parameter. It sees the file system (it reads the
  entries' files), the options and the entries; it reports the bytes it wrote to the
  stream before it resolved or rejected, and whether it rejected.
\<close>

record AssemblerResult =
  written :: string
  rejected :: bool

type_synonym Assembler =
  "(string \<rightharpoonup> string) \<Rightarrow> ScriptOptions \<Rightarrow> FileEntry list \<Rightarrow> AssemblerResult"

record Outcome =
  exitCode :: nat
  consoleLog :: "string list"
  consoleError :: "string list"
  filesRead :: "string list"
  outputStream :: "Sink option"
  assembled :: "(ScriptOptions \<times> FileEntry list) option"
  assemblerResult :: "AssemblerResult option"
  stdoutData :: string
  fsAfter :: "string \<rightharpoonup> string"
  thrown :: "JsError option"

text \<open>
  \<^verbatim>\<open>console.error(...); process.exit(1)\<close> before the output stream exists: nothing was
  written and the file system is as it was. \<open>rs\<close> are the script files read so far.
\<close>

definition failWith :: "World \<Rightarrow> string list \<Rightarrow> string list \<Rightarrow> Outcome" where
  "failWith w rs msgs =
     \<lparr>exitCode = 1, consoleLog = [], consoleError = msgs, filesRead = rs,
      outputStream = None, assembled = None, assemblerResult = None,
      stdoutData = [], fsAfter = fsys w, thrown = None\<rparr>"

text \<open>An exception that nothing catches, before the script has done anything.\<close>

definition uncaught :: "World \<Rightarrow> JsError \<Rightarrow> Outcome" where
  "uncaught w e =
     \<lparr>exitCode = 1, consoleLog = [], consoleError = [], filesRead = [],
      outputStream = None, assembled = None, assemblerResult = None,
      stdoutData = [], fsAfter = fsys w, thrown = Some e\<rparr>"

subsection \<open>Validation\<close>

text \<open>Lines 133 to 136: the condition under which the post-extraction check fails.\<close>

definition postExtractMissing :: "OptionsType \<Rightarrow> bool" where
  "postExtractMissing options =
     (case opt_post_extract options of
        None \<Rightarrow> True
      | Some s \<Rightarrow> length s = 0 \<and> opt_post_extract_file options = None)"

definition validArchiveTypes :: "string list" where
  "validArchiveTypes = [''tar'', ''zip'']"

text \<open>\<^verbatim>\<open>validateArchiveType\<close>: true when the assertion passes.\<close>

definition validateArchiveType :: "OptionsType \<Rightarrow> bool" where
  "validateArchiveType options = list_ex (\<lambda>p. p = opt_type options) validArchiveTypes"

definition validCompressLevels :: "number list" where
  "validCompressLevels =
     [Finite 0, Finite 1, Finite 2, Finite 3, Finite 4,
      Finite 5, Finite 6, Finite 7, Finite 8, Finite 9]"

text \<open>\<^verbatim>\<open>validateCompressLevel\<close>: true when the assertion passes.\<close>

definition validateCompressLevel :: "number option \<Rightarrow> bool" where
  "validateCompressLevel value =
     (case value of
        None \<Rightarrow> True
      | Some v \<Rightarrow> list_ex (\<lambda>p. strictEq p v) validCompressLevels)"

subsection \<open>Entries\<close>

text \<open>Lines 187 to 197: the entry of one input path.\<close>

definition fileMode :: "string \<Rightarrow> nat" where
  "fileMode p = (if ext (path_parse p) = ''.sh'' then 493 else 420)"

definition makeEntry :: "string \<Rightarrow> string option \<Rightarrow> string \<Rightarrow> FileEntry" where
  "makeEntry wd resolvedRoot p =
     \<lparr>filename = (case resolvedRoot of
                    Some r \<Rightarrow> path_relative wd r p
                  | None \<Rightarrow> base (path_parse p)),
      path = path_resolve wd p,
      mode = fileMode p\<rparr>"

definition buildFiles :: "World \<Rightarrow> OptionsType \<Rightarrow> FileEntry list" where
  "buildFiles w options =
     (let resolvedRoot = map_option (path_resolve (cwd w)) (opt_root options)
      in map (makeEntry (cwd w) resolvedRoot) (opt_files options))"

text \<open>
  A JavaScript \<^verbatim>\<open>Map\<close> keeps its keys in insertion order; \<^verbatim>\<open>set\<close> on a key that is
  present replaces the value in place.
\<close>

fun mapSet :: "'k \<Rightarrow> 'v \<Rightarrow> ('k \<times> 'v) list \<Rightarrow> ('k \<times> 'v) list" where
  "mapSet k v [] = [(k, v)]"
| "mapSet k v ((k', v') # m) =
     (if k' = k then (k, v) # m else (k', v') # mapSet k v m)"

definition mapGet :: "('k \<times> 'v) list \<Rightarrow> 'k \<Rightarrow> 'v option" where
  "mapGet m k = map_of m k"

text \<open>Lines 200 to 203: every entry appends its source path under its entry name.\<close>

definition countEntry ::
  "(string \<times> string list) list \<Rightarrow> FileEntry \<Rightarrow> (string \<times> string list) list" where
  "countEntry entryCount p =
     mapSet (filename p)
       ((case mapGet entryCount (filename p) of None \<Rightarrow> [] | Some ps \<Rightarrow> ps) @ [path p])
       entryCount"

definition entryCountOf :: "FileEntry list \<Rightarrow> (string \<times> string list) list" where
  "entryCountOf files = foldl countEntry [] files"

text \<open>Lines 206 to 215: the lines printed when names collide.\<close>

definition duplicateLines :: "string \<times> string list \<Rightarrow> string list" where
  "duplicateLines entry =
     (if length (snd entry) \<noteq> 1 then
        (''Archive would contain path '' @ fst entry @ '' '' @
           showNat (length (snd entry)) @ '' times'')
        # map (\<lambda>source. ''  From '' @ source) (snd entry)
      else [])"

definition duplicateReport :: "(string \<times> string list) list \<Rightarrow> string list" where
  "duplicateReport entryCount =
     ''Archive contains duplicate files'' # concat (map duplicateLines entryCount)"

subsection \<open>The run\<close>

text \<open>Lines 164 to 182: a script file, when given, replaces the inline text.\<close>

definition readPreExtract :: "World \<Rightarrow> OptionsType \<Rightarrow> string + OptionsType" where
  "readPreExtract w options =
     (case opt_pre_extract_file options of
        None \<Rightarrow> Inr options
      | Some f \<Rightarrow>
          (case readFile w f of
             Some preExtract \<Rightarrow> Inr (options\<lparr>opt_pre_extract := Some preExtract\<rparr>)
           | None \<Rightarrow> Inl (''Failed to read pre-extraction script '' @ [CHR 0x27] @ f @ [CHR 0x27])))"

definition readPostExtract :: "World \<Rightarrow> OptionsType \<Rightarrow> string + OptionsType" where
  "readPostExtract w options =
     (case opt_post_extract_file options of
        None \<Rightarrow> Inr options
      | Some f \<Rightarrow>
          (case readFile w f of
             Some postExtract \<Rightarrow> Inr (options\<lparr>opt_post_extract := Some postExtract\<rparr>)
           | None \<Rightarrow> Inl (''Failed to read post-extraction script '' @ [CHR 0x27] @ f @ [CHR 0x27])))"

definition scriptOptions :: "OptionsType \<Rightarrow> ScriptOptions" where
  "scriptOptions options =
     \<lparr>archiveFormat = opt_type options,
      compressionLevel = opt_compress_level options,
      omitLibraryHeader = opt_omit_header options,
      preExtraction = opt_pre_extract options,
      postExtraction = opt_post_extract options\<rparr>"

text \<open>
  Lines 221 to 237. \<^verbatim>\<open>fs.createWriteStream(output)\<close> returns the stream and opens
  the file with flag \<^verbatim>\<open>w\<close>: it is created, or truncated when it exists, and the
  assembler is called with the stream. What the assembler wrote stays in the sink
  whether it resolved or rejected; a rejection is caught and the run exits with status
  1; a run that reaches the end of the script exits with status 0. When the file cannot
  be opened, the stream emits an error that the script does not handle (the call
  stands outside the \<^verbatim>\<open>try\<close>): the run ends with status 1, no file is created, and
  the answer of the assembler is not waited for.
\<close>

definition assemble :: "Assembler \<Rightarrow> World \<Rightarrow> string list \<Rightarrow> OptionsType \<Rightarrow> FileEntry list \<Rightarrow> Outcome" where
  "assemble makeSelfExtractingScript w rs options files =
     (case opt_output options of
        None \<Rightarrow>
          (let r = makeSelfExtractingScript (fsys w) (scriptOptions options) files
           in \<lparr>exitCode = (if rejected r then 1 else 0),
               consoleLog = [], consoleError = [], filesRead = rs,
               outputStream = Some Stdout,
               assembled = Some (scriptOptions options, files),
               assemblerResult = Some r,
               stdoutData = written r,
               fsAfter = fsys w,
               thrown = None\<rparr>)
      | Some out \<Rightarrow>
          (let f = path_resolve (cwd w) out
           in if writable w f then
                (let fs' = (fsys w)(f \<mapsto> []);
                     r = makeSelfExtractingScript fs' (scriptOptions options) files
                 in \<lparr>exitCode = (if rejected r then 1 else 0),
                     consoleLog = [], consoleError = [], filesRead = rs,
                     outputStream = Some (FileStream f),
                     assembled = Some (scriptOptions options, files),
                     assemblerResult = Some r,
                     stdoutData = [],
                     fsAfter = fs'(f \<mapsto> written r),
                     thrown = None\<rparr>)
              else
                \<lparr>exitCode = 1,
                 consoleLog = [], consoleError = [], filesRead = rs,
                 outputStream = Some (FileStream f),
                 assembled = Some (scriptOptions options, files),
                 assemblerResult = None,
                 stdoutData = [],
                 fsAfter = fsys w,
                 thrown = Some (OPEN_FAILED f)\<rparr>))"

text \<open>The paths given to \<^verbatim>\<open>fsp.readFile\<close>, in the order of the reads.\<close>

definition preReads :: "OptionsType \<Rightarrow> string list" where
  "preReads options = (case opt_pre_extract_file options of None \<Rightarrow> [] | Some f \<Rightarrow> [f])"

definition postReads :: "OptionsType \<Rightarrow> string list" where
  "postReads options = (case opt_post_extract_file options of None \<Rightarrow> [] | Some f \<Rightarrow> [f])"

text \<open>
  The script after the parse, lines 103 to 238, on the parsed options. \<open>usage\<close> is the text
  that \<^verbatim>\<open>commandLineUsage\<close> renders.
\<close>

definition main :: "Assembler \<Rightarrow> string \<Rightarrow> World \<Rightarrow> OptionsType \<Rightarrow> Outcome" where
  "main makeSelfExtractingScript usage w options =
     (if opt_help options then
        \<lparr>exitCode = 0, consoleLog = [usage], consoleError = [], filesRead = [],
         outputStream = None, assembled = None, assemblerResult = None,
         stdoutData = [], fsAfter = fsys w, thrown = None\<rparr>
      else if length (opt_files options) = 0 then
        failWith w [] [''No files to embed specified'']
      else if postExtractMissing options then
        failWith w [] [''No post extraction script specified'']
      else if \<not> validateArchiveType options then
        failWith w [] [''Invalid archive type. Values tar or zip allowed'']
      else if \<not> validateCompressLevel (opt_compress_level options) then
        failWith w [] [''Invalid compression level. Values 0-9 allowed'']
      else
        (case readPreExtract w options of
           Inl msg \<Rightarrow> failWith w (preReads options) [msg]
         | Inr options1 \<Rightarrow>
             (case readPostExtract w options1 of
                Inl msg \<Rightarrow> failWith w (preReads options @ postReads options) [msg]
              | Inr options2 \<Rightarrow>
                  (let files = buildFiles w options2;
                       entryCount = entryCountOf files
                   in if length entryCount \<noteq> length files then
                        failWith w (preReads options @ postReads options)
                          (duplicateReport entryCount)
                      else
                        assemble makeSelfExtractingScript w
                          (preReads options @ postReads options) options2 files))))"

text \<open>
  The program, from line 101 on: parse the command line, then run. An exception of the
  parse is not caught, so the run ends there, before the help branch.
\<close>

definition program :: "Assembler \<Rightarrow> string \<Rightarrow> World \<Rightarrow> Arg list \<Rightarrow> Outcome" where
  "program makeSelfExtractingScript usage w args =
     (case parseArgv args of
        Inl e \<Rightarrow> uncaught w e
      | Inr argv \<Rightarrow> main makeSelfExtractingScript usage w (commandLineArgs argv))"

subsection \<open>Colliding names, described from the entries\<close>

text \<open>
  What a collision is, said without the \<^verbatim>\<open>Map\<close>: the distinct entry names in the order
  in which they first occur, the source paths of the entries that carry a given name,
  and the names carried by more than one entry. The run is compared with these below.
\<close>

definition firstOccurrences :: "'a list \<Rightarrow> 'a list" where
  "firstOccurrences xs = rev (remdups (rev xs))"

definition sourcesOf :: "string \<Rightarrow> FileEntry list \<Rightarrow> string list" where
  "sourcesOf name files = map path (filter (\<lambda>p. filename p = name) files)"

definition collidingNames :: "FileEntry list \<Rightarrow> string list" where
  "collidingNames files =
     filter (\<lambda>name. 2 \<le> length (sourcesOf name files))
       (firstOccurrences (map filename files))"

definition collisionLines :: "FileEntry list \<Rightarrow> string \<Rightarrow> string list" where
  "collisionLines files name =
     (''Archive would contain path '' @ name @ '' '' @
        showNat (length (sourcesOf name files)) @ '' times'')
     # map (\<lambda>source. ''  From '' @ source) (sourcesOf name files)"

text \<open>A script file option that is absent, or names a file that can be read.\<close>

definition scriptFileReadable :: "World \<Rightarrow> string option \<Rightarrow> bool" where
  "scriptFileReadable w file =
     (case file of None \<Rightarrow> True | Some f \<Rightarrow> readFile w f \<noteq> None)"

text \<open>
  Every check the script makes before it creates the output stream passes: a file is
  given, the post-extraction text is there, type and level are valid, the script files
  can be read and no two entries share a name.
\<close>

definition validationPasses :: "World \<Rightarrow> OptionsType \<Rightarrow> bool" where
  "validationPasses w options =
     (opt_files options \<noteq> [] \<and>
      \<not> postExtractMissing options \<and>
      validateArchiveType options \<and>
      validateCompressLevel (opt_compress_level options) \<and>
      scriptFileReadable w (opt_pre_extract_file options) \<and>
      scriptFileReadable w (opt_post_extract_file options) \<and>
      distinct (map filename (buildFiles w options)))"

subsection \<open>What a run is expected to hand over, described from the options\<close>

text \<open>
  Said without following the script: the script text a run uses (the content of the
  script file when one is given, the inline text otherwise), the options the
  assembler is to receive, whether the output can be opened, the file system at the
  moment the assembler is called (a named output file is empty then), and the answer
  of the assembler on these. The run is compared with them below.
\<close>

definition scriptTextFor :: "World \<Rightarrow> string option \<Rightarrow> string option \<Rightarrow> string option" where
  "scriptTextFor w inline file = (case file of None \<Rightarrow> inline | Some f \<Rightarrow> readFile w f)"

definition expectedScriptOptions :: "World \<Rightarrow> OptionsType \<Rightarrow> ScriptOptions" where
  "expectedScriptOptions w options =
     \<lparr>archiveFormat = opt_type options,
      compressionLevel = opt_compress_level options,
      omitLibraryHeader = opt_omit_header options,
      preExtraction =
        scriptTextFor w (opt_pre_extract options) (opt_pre_extract_file options),
      postExtraction =
        scriptTextFor w (opt_post_extract options) (opt_post_extract_file options)\<rparr>"

definition outputWritable :: "World \<Rightarrow> OptionsType \<Rightarrow> bool" where
  "outputWritable w options =
     (case opt_output options of
        None \<Rightarrow> True
      | Some out \<Rightarrow> writable w (path_resolve (cwd w) out))"

definition fsAtAssembly :: "World \<Rightarrow> OptionsType \<Rightarrow> (string \<rightharpoonup> string)" where
  "fsAtAssembly w options =
     (case opt_output options of
        None \<Rightarrow> fsys w
      | Some out \<Rightarrow> (fsys w)(path_resolve (cwd w) out \<mapsto> []))"

definition assemblerAnswer :: "Assembler \<Rightarrow> World \<Rightarrow> OptionsType \<Rightarrow> AssemblerResult" where
  "assemblerAnswer mk w options =
     mk (fsAtAssembly w options) (expectedScriptOptions w options)
        (map (\<lambda>p. \<lparr>filename = (case opt_root options of
                                 Some r \<Rightarrow> path_relative (cwd w) (path_resolve (cwd w) r) p
                               | None \<Rightarrow> base (path_parse p)),
                    path = path_resolve (cwd w) p,
                    mode = fileMode p\<rparr>)
             (opt_files options))"

text \<open>
  The singular option an argument sets, if any (a file and an undefined option set
  none), and a command line on which some singular option is set twice.
\<close>

fun singularOption :: "Arg \<Rightarrow> OptionName list" where
  "singularOption (TypeArg t) = [TypeOption]"
| "singularOption (CompressLevelArg n) = [CompressLevelOption]"
| "singularOption (PreExtractArg s) = [PreExtractOption]"
| "singularOption (PostExtractArg s) = [PostExtractOption]"
| "singularOption (PreExtractFileArg f) = [PreExtractFileOption]"
| "singularOption (PostExtractFileArg f) = [PostExtractFileOption]"
| "singularOption OmitHeaderArg = [OmitHeaderOption]"
| "singularOption (RootArg r) = [RootOption]"
| "singularOption (FilesArg f) = []"
| "singularOption (OutputArg out) = [OutputOption]"
| "singularOption HelpArg = [HelpOption]"
| "singularOption (UnknownArg s) = []"

definition repeatsOption :: "Arg list \<Rightarrow> bool" where
  "repeatsOption args = (\<not> distinct (concat (map singularOption args)))"

definition hasUnknownOption :: "Arg list \<Rightarrow> bool" where
  "hasUnknownOption args = list_ex (\<lambda>a. case a of UnknownArg s \<Rightarrow> True | _ \<Rightarrow> False) args"

subsection \<open>Concrete worlds for the closed examples\<close>

text \<open>
  A stand-in for the assembler: it rejects, before it writes anything, when the source
  file of an entry cannot be read; otherwise it writes a script and resolves.
\<close>

definition sampleAssembler :: Assembler where
  "sampleAssembler fs so files =
     (if list_ex (\<lambda>p. fs (path p) = None) files
      then \<lparr>written = [], rejected = True\<rparr>
      else \<lparr>written = ''#!/bin/sh'', rejected = False\<rparr>)"

definition sampleWorld :: World where
  "sampleWorld =
     \<lparr>cwd = ''/work'',
      fsys = [''/work/a.sh'' \<mapsto> ''echo a'',
              ''/work/b.txt'' \<mapsto> ''b'',
              ''/work/lib/b.txt'' \<mapsto> ''lib b'',
              ''/work/install.sh'' \<mapsto> ''./a.sh'',
              ''/work/out.sh'' \<mapsto> ''previous build''],
      writable = (\<lambda>f. f \<noteq> ''/work/nodir/out.sh'')\<rparr>"

text \<open>\<^verbatim>\<open>--post-extract "echo done" a.sh b.txt\<close>\<close>

definition sampleOptions :: OptionsType where
  "sampleOptions =
     \<lparr>opt_type = ''tar'', opt_compress_level = None, opt_pre_extract = None,
      opt_post_extract = Some ''echo done'', opt_pre_extract_file = None,
      opt_post_extract_file = None, opt_omit_header = None,
      opt_files = [''a.sh'', ''b.txt''], opt_root = None, opt_output = None,
      opt_help = False\<rparr>"

text \<open>\<^verbatim>\<open>--post-extract "echo done" a.sh lib/../a.sh b.txt lib/b.txt install.sh\<close>\<close>

definition collidingOptions :: OptionsType where
  "collidingOptions =
     sampleOptions\<lparr>opt_files := [''a.sh'', ''lib/../a.sh'', ''b.txt'', ''lib/b.txt'', ''install.sh'']\<rparr>"

text \<open>\<^verbatim>\<open>--post-extract "echo done" --output out.sh missing.txt\<close>\<close>

definition missingInputOptions :: OptionsType where
  "missingInputOptions =
     sampleOptions\<lparr>opt_files := [''missing.txt''], opt_output := Some ''out.sh''\<rparr>"

text \<open>\<^verbatim>\<open>--post-extract-file install.sh a.sh b.txt\<close>\<close>

definition scriptFileOnlyOptions :: OptionsType where
  "scriptFileOnlyOptions =
     sampleOptions\<lparr>opt_post_extract := None, opt_post_extract_file := Some ''install.sh''\<rparr>"

text \<open>\<^verbatim>\<open>--post-extract "echo done" --output nodir/out.sh a.sh b.txt\<close>, with no directory \<^verbatim>\<open>nodir\<close>\<close>

definition unopenableOutputOptions :: OptionsType where
  "unopenableOutputOptions = sampleOptions\<lparr>opt_output := Some ''nodir/out.sh''\<rparr>"

section \<open>Theorems\<close>

subsection \<open>The last step\<close>

lemma assembled_assemble:
  "assembled (assemble mk w rs options files) = Some (scriptOptions options, files)"
  by (simp add: assemble_def Let_def split: option.splits)

lemma consoleError_assemble: "consoleError (assemble mk w rs options files) = []"
  by (simp add: assemble_def Let_def split: option.splits)

lemma assemble_stdout:
  "opt_output options = None \<Longrightarrow>
   assemble mk w rs options files =
     \<lparr>exitCode = (if rejected (mk (fsys w) (scriptOptions options) files) then 1 else 0),
      consoleLog = [], consoleError = [], filesRead = rs,
      outputStream = Some Stdout,
      assembled = Some (scriptOptions options, files),
      assemblerResult = Some (mk (fsys w) (scriptOptions options) files),
      stdoutData = written (mk (fsys w) (scriptOptions options) files),
      fsAfter = fsys w, thrown = None\<rparr>"
  by (simp add: assemble_def Let_def)

lemma assemble_file:
  "opt_output options = Some out \<Longrightarrow> writable w (path_resolve (cwd w) out) \<Longrightarrow>
   assemble mk w rs options files =
     \<lparr>exitCode =
        (if rejected (mk ((fsys w)(path_resolve (cwd w) out \<mapsto> [])) (scriptOptions options) files)
         then 1 else 0),
      consoleLog = [], consoleError = [], filesRead = rs,
      outputStream = Some (FileStream (path_resolve (cwd w) out)),
      assembled = Some (scriptOptions options, files),
      assemblerResult =
        Some (mk ((fsys w)(path_resolve (cwd w) out \<mapsto> [])) (scriptOptions options) files),
      stdoutData = [],
      fsAfter = (fsys w)(path_resolve (cwd w) out \<mapsto>
        written (mk ((fsys w)(path_resolve (cwd w) out \<mapsto> [])) (scriptOptions options) files)),
      thrown = None\<rparr>"
  by (simp add: assemble_def Let_def)

lemma assemble_unopenable:
  "opt_output options = Some out \<Longrightarrow> \<not> writable w (path_resolve (cwd w) out) \<Longrightarrow>
   assemble mk w rs options files =
     \<lparr>exitCode = 1,
      consoleLog = [], consoleError = [], filesRead = rs,
      outputStream = Some (FileStream (path_resolve (cwd w) out)),
      assembled = Some (scriptOptions options, files),
      assemblerResult = None,
      stdoutData = [],
      fsAfter = fsys w,
      thrown = Some (OPEN_FAILED (path_resolve (cwd w) out))\<rparr>"
  by (simp add: assemble_def Let_def)

subsection \<open>Archive type and compression level\<close>

text \<open>
  Claim C6, for the runs it holds for. The archive type is \<^verbatim>\<open>tar\<close> when \<^verbatim>\<open>--type\<close> is
  not given, and that default passes the check. \<^verbatim>\<open>validateArchiveType\<close> accepts exactly
  \<^verbatim>\<open>tar\<close> and \<^verbatim>\<open>zip\<close>. In a run without \<^verbatim>\<open>--help\<close>, any other value is fatal: the
  run exits with status 1 with an error line printed, no output stream created, the
  file system unchanged and the assembler never called; once the file list and the
  post-extraction text have passed their checks, the line printed is
  \<^verbatim>\<open>Invalid archive type. Values tar or zip allowed\<close>.
\<close>

theorem archive_type_validation:
  "(given_type argv = None \<longrightarrow>
      opt_type (commandLineArgs argv) = ''tar'' \<and>
      validateArchiveType (commandLineArgs argv)) \<and>
   (validateArchiveType options \<longleftrightarrow>
      opt_type options = ''tar'' \<or> opt_type options = ''zip'') \<and>
   (\<not> opt_help options \<and> opt_type options \<noteq> ''tar'' \<and> opt_type options \<noteq> ''zip'' \<longrightarrow>
      exitCode (main mk usage w options) = 1 \<and>
      consoleError (main mk usage w options) \<noteq> [] \<and>
      outputStream (main mk usage w options) = None \<and>
      assembled (main mk usage w options) = None \<and>
      fsAfter (main mk usage w options) = fsys w) \<and>
   (\<not> opt_help options \<and> opt_files options \<noteq> [] \<and> \<not> postExtractMissing options \<and>
    opt_type options \<noteq> ''tar'' \<and> opt_type options \<noteq> ''zip'' \<longrightarrow>
      main mk usage w options =
        failWith w [] [''Invalid archive type. Values tar or zip allowed''])"
  by (auto simp: commandLineArgs_def validateArchiveType_def validArchiveTypes_def
      main_def failWith_def)

text \<open>\<^verbatim>\<open>--type rar --post-extract "echo done" a.sh b.txt\<close>, and a command line with no \<^verbatim>\<open>--type\<close>.\<close>

theorem archive_type_validation_witness:
  "given_type \<lparr>given_type = None, given_compress_level = None, given_pre_extract = None,
      given_post_extract = Some ''echo done'', given_pre_extract_file = None,
      given_post_extract_file = None, given_omit_header = False, given_root = None,
      given_files = [''a.sh''], given_output = None, given_help = False\<rparr> = None \<and>
   opt_type (commandLineArgs
     \<lparr>given_type = None, given_compress_level = None, given_pre_extract = None,
      given_post_extract = Some ''echo done'', given_pre_extract_file = None,
      given_post_extract_file = None, given_omit_header = False, given_root = None,
      given_files = [''a.sh''], given_output = None, given_help = False\<rparr>) = ''tar'' \<and>
   \<not> opt_help (sampleOptions\<lparr>opt_type := ''rar''\<rparr>) \<and>
   opt_files (sampleOptions\<lparr>opt_type := ''rar''\<rparr>) \<noteq> [] \<and>
   \<not> postExtractMissing (sampleOptions\<lparr>opt_type := ''rar''\<rparr>) \<and>
   \<not> validateArchiveType (sampleOptions\<lparr>opt_type := ''rar''\<rparr>) \<and>
   exitCode (main sampleAssembler ''usage'' sampleWorld (sampleOptions\<lparr>opt_type := ''rar''\<rparr>)) = 1 \<and>
   consoleError (main sampleAssembler ''usage'' sampleWorld (sampleOptions\<lparr>opt_type := ''rar''\<rparr>)) =
     [''Invalid archive type. Values tar or zip allowed''] \<and>
   assembled (main sampleAssembler ''usage'' sampleWorld (sampleOptions\<lparr>opt_type := ''rar''\<rparr>)) = None"
  using archive_type_validation
    [of "\<lparr>given_type = None, given_compress_level = None, given_pre_extract = None,
          given_post_extract = Some ''echo done'', given_pre_extract_file = None,
          given_post_extract_file = None, given_omit_header = False, given_root = None,
          given_files = [''a.sh''], given_output = None, given_help = False\<rparr>"
        "sampleOptions\<lparr>opt_type := ''rar''\<rparr>" sampleAssembler "''usage''" sampleWorld]
  by (simp add: sampleOptions_def postExtractMissing_def failWith_def)

text \<open>
  Claim C6 as stated, for every invocation, fails at \<^verbatim>\<open>--help --type rar\<close>: the type is
  neither \<^verbatim>\<open>tar\<close> nor \<^verbatim>\<open>zip\<close>, and the run prints the usage, no error line, and
  exits with status 0.
\<close>

theorem help_run_ignores_archive_type:
  "opt_type (sampleOptions\<lparr>opt_help := True, opt_type := ''rar''\<rparr>) \<noteq> ''tar'' \<and>
   opt_type (sampleOptions\<lparr>opt_help := True, opt_type := ''rar''\<rparr>) \<noteq> ''zip'' \<and>
   exitCode (main sampleAssembler ''usage'' sampleWorld
      (sampleOptions\<lparr>opt_help := True, opt_type := ''rar''\<rparr>)) = 0 \<and>
   consoleError (main sampleAssembler ''usage'' sampleWorld
      (sampleOptions\<lparr>opt_help := True, opt_type := ''rar''\<rparr>)) = []"
  by (simp add: main_def sampleOptions_def)

text \<open>The numbers \<^verbatim>\<open>validCompressLevels\<close> holds are the integers 0 to 9.\<close>

lemma valid_level_iff:
  "list_ex (\<lambda>p. strictEq p v) validCompressLevels \<longleftrightarrow>
     (\<exists>n::nat. n \<le> 9 \<and> v = Finite (of_nat n))"
proof (cases v)
  case (Finite r)
  have small: "{n::nat. n \<le> 9} = {0, 1, 2, 3, 4, 5, 6, 7, 8, 9}"
    by auto
  have "(\<exists>n::nat. n \<le> 9 \<and> r = of_nat n) \<longleftrightarrow> r \<in> of_nat ` {n::nat. n \<le> 9}"
    by blast
  also have "\<dots> \<longleftrightarrow> r \<in> {0, 1, 2, 3, 4, 5, 6, 7, 8, 9}"
    unfolding small by simp
  finally show ?thesis
    using Finite by (auto simp: validCompressLevels_def)
qed (simp_all add: validCompressLevels_def)

text \<open>Reading the script files changes the two script texts only.\<close>

lemma readPreExtract_keeps:
  "readPreExtract w options = Inr options' \<Longrightarrow>
   opt_type options' = opt_type options \<and>
   opt_compress_level options' = opt_compress_level options \<and>
   opt_omit_header options' = opt_omit_header options \<and>
   opt_post_extract options' = opt_post_extract options \<and>
   opt_pre_extract_file options' = opt_pre_extract_file options \<and>
   opt_post_extract_file options' = opt_post_extract_file options \<and>
   opt_files options' = opt_files options \<and>
   opt_root options' = opt_root options \<and>
   opt_output options' = opt_output options"
  by (auto simp: readPreExtract_def split: option.splits)

lemma readPostExtract_keeps:
  "readPostExtract w options = Inr options' \<Longrightarrow>
   opt_type options' = opt_type options \<and>
   opt_compress_level options' = opt_compress_level options \<and>
   opt_omit_header options' = opt_omit_header options \<and>
   opt_pre_extract options' = opt_pre_extract options \<and>
   opt_pre_extract_file options' = opt_pre_extract_file options \<and>
   opt_post_extract_file options' = opt_post_extract_file options \<and>
   opt_files options' = opt_files options \<and>
   opt_root options' = opt_root options \<and>
   opt_output options' = opt_output options"
  by (auto simp: readPostExtract_def split: option.splits)

text \<open>What the assembler receives, when it is called.\<close>

lemma main_assembled:
  "assembled (main mk usage w options) = Some (so, files) \<Longrightarrow>
   \<exists>options1 options2.
     readPreExtract w options = Inr options1 \<and>
     readPostExtract w options1 = Inr options2 \<and>
     so = scriptOptions options2 \<and>
     files = buildFiles w options2"
  by (auto simp: main_def failWith_def assembled_assemble Let_def
      split: if_splits sum.splits)

text \<open>
  Claim C7, for the runs it holds for. \<^verbatim>\<open>validateCompressLevel\<close> accepts a value
  exactly when it is absent or one of the integers 0 to 9. In a run without \<^verbatim>\<open>--help\<close>,
  a value it does not accept (a non-integer, an out-of-range number, \<^verbatim>\<open>NaN\<close>) makes the
  run exit with status 1 with an error line and without creating the output stream or
  calling the assembler. The level the assembler receives is the parsed option
  unchanged, so an absent level is forwarded as absent.
\<close>

theorem compress_level_validation:
  "(validateCompressLevel v \<longleftrightarrow>
      v = None \<or> (\<exists>n::nat. n \<le> 9 \<and> v = Some (Finite (of_nat n)))) \<and>
   (\<not> opt_help options \<and> \<not> validateCompressLevel (opt_compress_level options) \<longrightarrow>
      exitCode (main mk usage w options) = 1 \<and>
      consoleError (main mk usage w options) \<noteq> [] \<and>
      outputStream (main mk usage w options) = None \<and>
      assembled (main mk usage w options) = None) \<and>
   (\<not> opt_help options \<and> opt_files options \<noteq> [] \<and> \<not> postExtractMissing options \<and>
    validateArchiveType options \<and> \<not> validateCompressLevel (opt_compress_level options) \<longrightarrow>
      main mk usage w options =
        failWith w [] [''Invalid compression level. Values 0-9 allowed'']) \<and>
   (assembled (main mk usage w options) = Some (so, files) \<longrightarrow>
      compressionLevel so = opt_compress_level options)"
proof -
  have accepts: "validateCompressLevel v \<longleftrightarrow>
      v = None \<or> (\<exists>n::nat. n \<le> 9 \<and> v = Some (Finite (of_nat n)))"
    by (cases v) (simp_all add: validateCompressLevel_def valid_level_iff)
  have fatal: "\<not> opt_help options \<and> \<not> validateCompressLevel (opt_compress_level options) \<longrightarrow>
      exitCode (main mk usage w options) = 1 \<and>
      consoleError (main mk usage w options) \<noteq> [] \<and>
      outputStream (main mk usage w options) = None \<and>
      assembled (main mk usage w options) = None"
    by (simp add: main_def failWith_def)
  have message: "\<not> opt_help options \<and> opt_files options \<noteq> [] \<and> \<not> postExtractMissing options \<and>
    validateArchiveType options \<and> \<not> validateCompressLevel (opt_compress_level options) \<longrightarrow>
      main mk usage w options =
        failWith w [] [''Invalid compression level. Values 0-9 allowed'']"
    by (simp add: main_def)
  have forwarded: "assembled (main mk usage w options) = Some (so, files) \<longrightarrow>
      compressionLevel so = opt_compress_level options"
  proof
    assume "assembled (main mk usage w options) = Some (so, files)"
    then obtain options1 options2 where
      "readPreExtract w options = Inr options1"
      "readPostExtract w options1 = Inr options2"
      "so = scriptOptions options2"
      using main_assembled by blast
    then show "compressionLevel so = opt_compress_level options"
      using readPreExtract_keeps readPostExtract_keeps
      by (simp add: scriptOptions_def)
  qed
  from accepts fatal message forwarded show ?thesis by blast
qed

text \<open>
  \<^verbatim>\<open>--compress-level 2.5\<close> is refused; the run without \<^verbatim>\<open>--compress-level\<close> reaches the
  assembler with no level.
\<close>

theorem compress_level_validation_witness:
  "\<not> opt_help (sampleOptions\<lparr>opt_compress_level := Some (Finite (5 / 2))\<rparr>) \<and>
   \<not> validateCompressLevel (Some (Finite (5 / 2))) \<and>
   validateCompressLevel None \<and>
   validateCompressLevel (Some (Finite 9)) \<and>
   main sampleAssembler ''usage'' sampleWorld
       (sampleOptions\<lparr>opt_compress_level := Some (Finite (5 / 2))\<rparr>) =
     failWith sampleWorld [] [''Invalid compression level. Values 0-9 allowed''] \<and>
   assembled (main sampleAssembler ''usage'' sampleWorld sampleOptions) =
     Some (scriptOptions sampleOptions, buildFiles sampleWorld sampleOptions) \<and>
   compressionLevel (scriptOptions sampleOptions) = None"
proof -
  have refused: "\<not> validateCompressLevel (Some (Finite (5 / 2)))"
    by (simp add: validateCompressLevel_def validCompressLevels_def)
  have reached: "assembled (main sampleAssembler ''usage'' sampleWorld sampleOptions) =
     Some (scriptOptions sampleOptions, buildFiles sampleWorld sampleOptions)"
    by (simp add: main_def sampleOptions_def postExtractMissing_def validateArchiveType_def
        validArchiveTypes_def validateCompressLevel_def readPreExtract_def
        readPostExtract_def buildFiles_def makeEntry_def path_parse_def isAbsolute_def
        entryCountOf_def countEntry_def mapGet_def assemble_def Let_def)
  have start: "\<not> opt_help (sampleOptions\<lparr>opt_compress_level := Some (Finite (5 / 2))\<rparr>) \<and>
      opt_files (sampleOptions\<lparr>opt_compress_level := Some (Finite (5 / 2))\<rparr>) \<noteq> [] \<and>
      \<not> postExtractMissing (sampleOptions\<lparr>opt_compress_level := Some (Finite (5 / 2))\<rparr>) \<and>
      validateArchiveType (sampleOptions\<lparr>opt_compress_level := Some (Finite (5 / 2))\<rparr>) \<and>
      opt_compress_level (sampleOptions\<lparr>opt_compress_level := Some (Finite (5 / 2))\<rparr>) =
        Some (Finite (5 / 2))"
    by (simp add: sampleOptions_def postExtractMissing_def validateArchiveType_def
        validArchiveTypes_def)
  show ?thesis
    using refused reached start
      compress_level_validation
        [of "Some (Finite 9)" "sampleOptions\<lparr>opt_compress_level := Some (Finite (5 / 2))\<rparr>"
            sampleAssembler "''usage''" sampleWorld
            "scriptOptions sampleOptions" "buildFiles sampleWorld sampleOptions"]
      compress_level_validation
        [of None sampleOptions sampleAssembler "''usage''" sampleWorld
            "scriptOptions sampleOptions" "buildFiles sampleWorld sampleOptions"]
    by (simp add: scriptOptions_def sampleOptions_def)
qed

text \<open>
  Claim C7 as stated, for every invocation, fails at \<^verbatim>\<open>--help --compress-level 12\<close>: the
  level is out of range, and the run prints the usage, no error line, and exits with
  status 0.
\<close>

theorem help_run_ignores_compress_level:
  "\<not> validateCompressLevel
       (opt_compress_level (sampleOptions\<lparr>opt_help := True, opt_compress_level := Some (Finite 12)\<rparr>)) \<and>
   exitCode (main sampleAssembler ''usage'' sampleWorld
      (sampleOptions\<lparr>opt_help := True, opt_compress_level := Some (Finite 12)\<rparr>)) = 0 \<and>
   consoleError (main sampleAssembler ''usage'' sampleWorld
      (sampleOptions\<lparr>opt_help := True, opt_compress_level := Some (Finite 12)\<rparr>)) = []"
  by (simp add: main_def sampleOptions_def validateCompressLevel_def validCompressLevels_def)

subsection \<open>Paths: splitting and joining\<close>

lemma splitOn_not_Nil: "splitOn c xs \<noteq> []"
  by (induction xs) (auto split: list.splits)

lemma splitOn_no_sep: "s \<in> set (splitOn c xs) \<Longrightarrow> c \<notin> set s"
proof (induction xs arbitrary: s)
  case Nil
  then show ?case by simp
next
  case (Cons x xs)
  show ?case
  proof (cases "x = c")
    case True
    with Cons show ?thesis by auto
  next
    case False
    obtain t ts where split: "splitOn c xs = t # ts"
      using splitOn_not_Nil [of c xs] by (cases "splitOn c xs") auto
    with False Cons.prems have "s = x # t \<or> s \<in> set ts" by auto
    then show ?thesis
      using Cons.IH split False by auto
  qed
qed

lemma splitOn_append_sep: "splitOn c (xs @ c # ys) = splitOn c xs @ splitOn c ys"
proof (induction xs)
  case Nil
  then show ?case by simp
next
  case (Cons x xs)
  obtain t ts where "splitOn c xs = t # ts"
    using splitOn_not_Nil [of c xs] by (cases "splitOn c xs") auto
  with Cons show ?case by simp
qed

lemma splitOn_no_sep_id: "c \<notin> set s \<Longrightarrow> splitOn c s = [s]"
  by (induction s) auto

lemma splitOn_joinWith:
  "N \<noteq> [] \<Longrightarrow> (\<And>s. s \<in> set N \<Longrightarrow> c \<notin> set s) \<Longrightarrow> splitOn c (joinWith [c] N) = N"
proof (induction "[c]" N rule: joinWith.induct)
  case 1
  then show ?case by simp
next
  case (2 s)
  then show ?case by (simp add: splitOn_no_sep_id)
next
  case (3 s t ts)
  have "splitOn c (joinWith [c] (s # t # ts)) = splitOn c s @ splitOn c (joinWith [c] (t # ts))"
    using splitOn_append_sep [of c s "joinWith [c] (t # ts)"] by simp
  also have "splitOn c s = [s]"
    using "3.prems" by (simp add: splitOn_no_sep_id)
  also have "splitOn c (joinWith [c] (t # ts)) = t # ts"
    using "3.hyps" "3.prems" by simp
  finally show ?case by simp
qed

subsection \<open>Paths: resolved paths are in normal form\<close>

lemma normalizeStep_proper:
  "list_all properName res \<Longrightarrow> CHR ''/'' \<notin> set seg \<Longrightarrow>
   list_all properName (normalizeStep False res seg)"
  by (auto simp: normalizeStep_def properName_def list_all_iff dest: in_set_butlastD)

lemma foldl_normalizeStep_proper:
  "list_all properName res \<Longrightarrow> (\<And>s. s \<in> set segs \<Longrightarrow> CHR ''/'' \<notin> set s) \<Longrightarrow>
   list_all properName (foldl (normalizeStep False) res segs)"
  by (induction segs arbitrary: res) (simp_all add: normalizeStep_proper)

lemma normalizeSegments_proper: "list_all properName (normalizeSegments False p)"
  unfolding normalizeSegments_def
  by (rule foldl_normalizeStep_proper) (simp_all add: splitOn_no_sep)

lemma foldl_normalizeStep_names:
  "list_all properName N \<Longrightarrow> foldl (normalizeStep a) res N = res @ N"
  by (induction N arbitrary: res) (auto simp: normalizeStep_def properName_def)

lemma path_resolve_absolute:
  "isAbsolute wd \<Longrightarrow>
   path_resolve wd p = CHR ''/'' # joinWith ''/'' (normalizeSegments False (resolveInput wd p))"
  by (auto simp: path_resolve_def resolveInput_def normalizeString_def isAbsolute_def
      split: list.splits)

lemma segments_of_names:
  assumes "list_all properName N"
  shows "segments (CHR ''/'' # joinWith ''/'' N) = N"
proof (cases "N = []")
  case True
  then show ?thesis by (simp add: segments_def)
next
  case False
  have "splitOn CHR ''/'' (joinWith ''/'' N) = N"
    using False assms splitOn_joinWith [of N "CHR ''/''"]
    by (simp add: list_all_iff properName_def)
  moreover have "filter (\<lambda>s. s \<noteq> []) N = N"
    using assms by (simp add: list_all_iff properName_def)
  ultimately show ?thesis by (simp add: segments_def)
qed

lemma segments_path_resolve:
  "isAbsolute wd \<Longrightarrow>
   segments (path_resolve wd p) = normalizeSegments False (resolveInput wd p)"
  by (simp add: path_resolve_absolute segments_of_names normalizeSegments_proper)

lemma normalizeSegments_of_names:
  assumes "list_all properName N"
  shows "normalizeSegments False (CHR ''/'' # joinWith ''/'' N @ ''/'') = N"
proof (cases "N = []")
  case True
  then show ?thesis by (simp add: normalizeSegments_def normalizeStep_def)
next
  case False
  have "splitOn CHR ''/'' (joinWith ''/'' N @ ''/'') = N @ [[]]"
    using False assms splitOn_joinWith [of N "CHR ''/''"]
      splitOn_append_sep [of "CHR ''/''" "joinWith ''/'' N" "[]"]
    by (simp add: list_all_iff properName_def)
  then have "normalizeSegments False (CHR ''/'' # joinWith ''/'' N @ ''/'') =
      foldl (normalizeStep False) [] ([] # N @ [[]])"
    by (simp add: normalizeSegments_def)
  also have "\<dots> = normalizeStep False (foldl (normalizeStep False) [] N) []"
    by (simp add: normalizeStep_def)
  also have "\<dots> = N"
    using assms by (simp add: foldl_normalizeStep_names normalizeStep_def)
  finally show ?thesis .
qed

lemma path_resolve_idem:
  assumes "isAbsolute wd"
  shows "path_resolve wd (path_resolve wd p) = path_resolve wd p"
proof -
  let ?N = "normalizeSegments False (resolveInput wd p)"
  let ?R = "CHR ''/'' # joinWith ''/'' ?N"
  have R: "path_resolve wd p = ?R"
    using assms by (rule path_resolve_absolute)
  have "resolveInput wd ?R = ?R @ ''/''"
    by (simp add: resolveInput_def isAbsolute_def)
  then have "normalizeSegments False (resolveInput wd ?R) = ?N"
    using normalizeSegments_of_names [OF normalizeSegments_proper, of "resolveInput wd p"]
    by simp
  then show ?thesis
    using path_resolve_absolute [OF assms, of ?R] R by simp
qed

lemma path_resolve_isAbsolute: "isAbsolute wd \<Longrightarrow> isAbsolute (path_resolve wd p)"
  by (simp add: path_resolve_absolute) (simp add: isAbsolute_def)

subsection \<open>Paths: base name and extension\<close>

lemma fromLastDot_None: "fromLastDot b = None \<longleftrightarrow> CHR ''.'' \<notin> set b"
  by (induction b) (auto split: option.splits)

lemma fromLastDot_append:
  assumes "CHR ''.'' \<notin> set rest"
  shows "fromLastDot (stem @ CHR ''.'' # rest) = Some (CHR ''.'' # rest)"
proof -
  have "fromLastDot rest = None"
    using assms by (simp add: fromLastDot_None)
  then show ?thesis
    by (induction stem) simp_all
qed

lemma fromLastDot_Some:
  "fromLastDot b = Some s \<Longrightarrow>
   \<exists>stem rest. b = stem @ s \<and> s = CHR ''.'' # rest \<and> CHR ''.'' \<notin> set rest"
proof (induction b)
  case Nil
  then show ?case by simp
next
  case (Cons c cs)
  show ?case
  proof (cases "fromLastDot cs")
    case None
    with Cons.prems have "c = CHR ''.''" and "s = c # cs"
      by (auto split: if_splits)
    moreover have "CHR ''.'' \<notin> set cs"
      using None by (simp add: fromLastDot_None)
    ultimately show ?thesis by auto
  next
    case (Some e)
    with Cons.prems have "fromLastDot cs = Some s" by simp
    then obtain stem rest where "cs = stem @ s" "s = CHR ''.'' # rest" "CHR ''.'' \<notin> set rest"
      using Cons.IH by blast
    then have "c # cs = (c # stem) @ s" by simp
    then show ?thesis
      using \<open>s = CHR ''.'' # rest\<close> \<open>CHR ''.'' \<notin> set rest\<close> by blast
  qed
qed

text \<open>The extension is \<^verbatim>\<open>.sh\<close> exactly when the base name is a non-empty stem and \<^verbatim>\<open>.sh\<close>.\<close>

lemma ext_sh_iff:
  "ext (path_parse p) = ''.sh'' \<longleftrightarrow>
     (\<exists>stem. stem \<noteq> [] \<and> base (path_parse p) = stem @ ''.sh'')"
proof
  assume e: "ext (path_parse p) = ''.sh''"
  let ?b = "base (path_parse p)"
  from e obtain s where s: "fromLastDot ?b = Some s"
    by (cases "fromLastDot ?b") (auto simp: path_parse_def Let_def)
  with e have "s = ''.sh''" and len: "length s \<noteq> length ?b"
    by (auto simp: path_parse_def Let_def split: if_splits)
  moreover obtain stem where "?b = stem @ s"
    using fromLastDot_Some [OF s] by blast
  ultimately show "\<exists>stem. stem \<noteq> [] \<and> ?b = stem @ ''.sh''"
    by auto
next
  assume "\<exists>stem. stem \<noteq> [] \<and> base (path_parse p) = stem @ ''.sh''"
  then obtain stem where stem: "stem \<noteq> []" "base (path_parse p) = stem @ ''.sh''"
    by blast
  have "fromLastDot (stem @ ''.sh'') = Some ''.sh''"
    using fromLastDot_append [of "''sh''" stem] by simp
  moreover have "length (stem @ ''.sh'') \<noteq> length ''.sh''"
    using stem(1) by simp
  moreover have "stem @ ''.sh'' \<noteq> ''..''"
    by (auto dest: arg_cong [where f = length])
  ultimately show "ext (path_parse p) = ''.sh''"
    using stem(2) by (auto simp: path_parse_def Let_def)
qed

lemma base_no_slash: "CHR ''/'' \<notin> set (base (path_parse p))"
  by (auto simp: path_parse_def Let_def dest: set_takeWhileD)

text \<open>
  The base name is the last slash-free block of the path: after it come separators
  only, and what stands before it is empty or ends in a separator.
\<close>

lemma base_position:
  "\<exists>dir slashes. p = dir @ base (path_parse p) @ slashes \<and>
     set slashes \<subseteq> {CHR ''/''} \<and> (dir = [] \<or> last dir = CHR ''/'')"
proof -
  define body where "body = (if isAbsolute p then tl p else p)"
  define lead where "lead = (if isAbsolute p then ''/'' else [])"
  define rest where "rest = dropWhile (\<lambda>c. c = CHR ''/'') (rev body)"
  define slashes where "slashes = rev (takeWhile (\<lambda>c. c = CHR ''/'') (rev body))"
  define b where "b = rev (takeWhile (\<lambda>c. c \<noteq> CHR ''/'') rest)"
  define front where "front = rev (dropWhile (\<lambda>c. c \<noteq> CHR ''/'') rest)"
  have p: "p = lead @ body"
    by (cases p) (auto simp: lead_def body_def isAbsolute_def)
  have "rev body = rev slashes @ rest"
    by (simp add: slashes_def rest_def)
  then have body: "body = rev rest @ slashes"
    by (metis rev_append rev_rev_ident)
  have "rest = rev b @ rev front"
    by (simp add: b_def front_def)
  then have rest: "rev rest = front @ b"
    by simp
  have b: "base (path_parse p) = b"
    by (simp add: path_parse_def Let_def b_def rest_def body_def)
  have sl: "set slashes \<subseteq> {CHR ''/''}"
    by (auto simp: slashes_def dest: set_takeWhileD)
  have front: "front = [] \<or> last front = CHR ''/''"
  proof (cases "dropWhile (\<lambda>c. c \<noteq> CHR ''/'') rest")
    case Nil
    then show ?thesis by (simp add: front_def)
  next
    case (Cons c cs)
    then have "c = CHR ''/''"
      using hd_dropWhile [of "\<lambda>c. c \<noteq> CHR ''/''" rest] by auto
    with Cons show ?thesis by (simp add: front_def)
  qed
  show ?thesis
  proof (intro exI conjI)
    show "p = (lead @ front) @ base (path_parse p) @ slashes"
      using p body rest b by simp
    show "set slashes \<subseteq> {CHR ''/''}"
      by (rule sl)
    show "lead @ front = [] \<or> last (lead @ front) = CHR ''/''"
      using front by (auto simp: lead_def)
  qed
qed

subsection \<open>File mode\<close>

text \<open>
  Claim C5. The mode of an entry is a function of the extension of the input path as
  \<^verbatim>\<open>path.parse\<close> reports it: 0o755 (493) when the extension is exactly \<^verbatim>\<open>.sh\<close>, that
  is when the base name is a non-empty stem followed by \<^verbatim>\<open>.sh\<close>, and 0o644 (420) for
  every other name, a base name ending in \<^verbatim>\<open>.SH\<close> included. The modes of the entries
  are computed from the input paths alone: the file system is not consulted.
\<close>

theorem mode_by_extension:
  "fileMode p = (if ext (path_parse p) = ''.sh'' then 7 * 64 + 5 * 8 + 5 else 6 * 64 + 4 * 8 + 4) \<and>
   (fileMode p = 493 \<longleftrightarrow> (\<exists>stem. stem \<noteq> [] \<and> base (path_parse p) = stem @ ''.sh'')) \<and>
   (fileMode p = 420 \<longleftrightarrow> \<not> (\<exists>stem. stem \<noteq> [] \<and> base (path_parse p) = stem @ ''.sh'')) \<and>
   (base (path_parse p) = name @ ''.SH'' \<longrightarrow> fileMode p = 420) \<and>
   map mode (buildFiles w options) = map fileMode (opt_files options)"
proof -
  have upper: "name @ ''.SH'' \<noteq> stem @ ''.sh''" for stem
  proof
    assume "name @ ''.SH'' = stem @ ''.sh''"
    then have "last (name @ ''.SH'') = last (stem @ ''.sh'')" by simp
    then show False by simp
  qed
  have "base (path_parse p) = name @ ''.SH'' \<longrightarrow> ext (path_parse p) \<noteq> ''.sh''"
    using upper by (auto simp: ext_sh_iff)
  then show ?thesis
    using ext_sh_iff [of p]
    by (simp add: fileMode_def buildFiles_def makeEntry_def Let_def comp_def)
qed

text \<open>\<^verbatim>\<open>lib/run.sh\<close> is executable, \<^verbatim>\<open>lib/RUN.SH\<close> and the dot file \<^verbatim>\<open>.sh\<close> are not.\<close>

theorem mode_by_extension_witness:
  "base (path_parse ''lib/RUN.SH'') = ''RUN'' @ ''.SH'' \<and>
   fileMode ''lib/RUN.SH'' = 420 \<and>
   fileMode ''lib/run.sh'' = 493 \<and>
   fileMode ''.sh'' = 420 \<and>
   map mode (buildFiles sampleWorld sampleOptions) = [493, 420]"
proof -
  have b: "base (path_parse ''lib/RUN.SH'') = ''RUN'' @ ''.SH''"
    by (simp add: path_parse_def isAbsolute_def)
  have "fileMode ''lib/run.sh'' = 493" "fileMode ''.sh'' = 420"
       "map fileMode (opt_files sampleOptions) = [493, 420]"
    by (simp_all add: fileMode_def path_parse_def isAbsolute_def sampleOptions_def)
  then show ?thesis
    using b mode_by_extension [of "''lib/RUN.SH''" "''RUN''" sampleWorld sampleOptions]
    by simp
qed

subsection \<open>Paths: relative to a resolved root\<close>

lemma dropCommon_split:
  "dropCommon xs ys = (up, down) \<Longrightarrow> \<exists>common. xs = common @ up \<and> ys = common @ down"
proof (induction xs ys rule: dropCommon.induct)
  case (1 x xs y ys)
  show ?case
  proof (cases "x = y")
    case True
    with 1 obtain common where "xs = common @ up" "ys = common @ down" by auto
    with True have "x # xs = (x # common) @ up \<and> y # ys = (x # common) @ down" by simp
    then show ?thesis by blast
  next
    case False
    with "1.prems" show ?thesis by auto
  qed
qed auto

lemma dropCommon_not_prefix: "\<not> prefix xs ys \<Longrightarrow> fst (dropCommon xs ys) \<noteq> []"
  by (induction xs ys rule: dropCommon.induct) auto

text \<open>
  With an absolute working directory, the name relative to a resolved root is computed
  from the segments of the resolved root and of the resolved input path.
\<close>

lemma path_relative_resolved:
  assumes "isAbsolute wd"
  shows "path_relative wd (path_resolve wd r) p =
     (if path_resolve wd r = path_resolve wd p then []
      else joinWith ''/''
             (replicate
                (length (fst (dropCommon (segments (path_resolve wd r))
                                         (segments (path_resolve wd p))))) ''..'' @
              snd (dropCommon (segments (path_resolve wd r))
                              (segments (path_resolve wd p)))))"
proof (cases "path_resolve wd r = p")
  case True
  then have "path_resolve wd p = path_resolve wd r"
    using path_resolve_idem [OF assms, of r] by simp
  with True show ?thesis
    by (simp add: path_relative_def)
next
  case False
  then show ?thesis
    by (simp add: path_relative_def path_resolve_idem [OF assms] Let_def split: prod.splits)
qed

lemma buildFiles_map:
  "buildFiles w options =
     map (\<lambda>p. \<lparr>filename = (case opt_root options of
                             Some r \<Rightarrow> path_relative (cwd w) (path_resolve (cwd w) r) p
                           | None \<Rightarrow> base (path_parse p)),
                path = path_resolve (cwd w) p,
                mode = fileMode p\<rparr>) (opt_files options)"
  by (cases "opt_root options") (simp_all add: buildFiles_def makeEntry_def)

lemma main_assembled_files:
  assumes "assembled (main mk usage w options) = Some (so, files)"
  shows "files = buildFiles w options"
proof -
  from assms obtain options1 options2 where
    "readPreExtract w options = Inr options1"
    "readPostExtract w options1 = Inr options2"
    "files = buildFiles w options2"
    using main_assembled by blast
  then show ?thesis
    using readPreExtract_keeps readPostExtract_keeps
    by (simp add: buildFiles_def)
qed

subsection \<open>Paths: what resolving does to a path\<close>

lemma splitOn_snoc_sep: "splitOn c (xs @ [c]) = splitOn c xs @ [[]]"
  using splitOn_append_sep [of c xs "[]"] by simp

lemma normalizeSegments_append:
  "normalizeSegments a (x @ CHR ''/'' # y) =
     foldl (normalizeStep a) (normalizeSegments a x) (splitOn CHR ''/'' y)"
  by (simp add: normalizeSegments_def splitOn_append_sep)

lemma normalizeSegments_trailing: "normalizeSegments a (x @ ''/'') = normalizeSegments a x"
  using normalizeSegments_append [of a x "[]"] by (simp add: normalizeStep_def)

lemma normalizeSegments_append_trailing:
  "normalizeSegments a (x @ CHR ''/'' # y @ ''/'') =
     foldl (normalizeStep a) (normalizeSegments a x) (splitOn CHR ''/'' y)"
proof -
  have "normalizeSegments a ((x @ CHR ''/'' # y) @ ''/'') = normalizeSegments a (x @ CHR ''/'' # y)"
    by (rule normalizeSegments_trailing)
  then show ?thesis
    by (simp add: normalizeSegments_append)
qed

text \<open>A resolved path is its segments, joined after the root.\<close>

lemma resolved_from_segments:
  "isAbsolute wd \<Longrightarrow>
   path_resolve wd p = CHR ''/'' # joinWith ''/'' (segments (path_resolve wd p))"
  by (simp add: segments_path_resolve) (simp add: path_resolve_absolute)

lemma resolved_segments_proper:
  "isAbsolute wd \<Longrightarrow> list_all properName (segments (path_resolve wd p))"
  by (simp add: segments_path_resolve normalizeSegments_proper)

lemma resolved_eq_iff:
  "isAbsolute wd \<Longrightarrow>
   path_resolve wd p = path_resolve wd q \<longleftrightarrow>
   segments (path_resolve wd p) = segments (path_resolve wd q)"
  using resolved_from_segments [of wd p] resolved_from_segments [of wd q] by auto

text \<open>Resolving \<open>q/y\<close> continues the resolution of \<open>q\<close> with the segments of \<open>y\<close>.\<close>

lemma resolved_segments_extend:
  assumes "isAbsolute wd" and "q \<noteq> []"
  shows "segments (path_resolve wd (q @ CHR ''/'' # y)) =
     foldl (normalizeStep False) (segments (path_resolve wd q)) (splitOn CHR ''/'' y)"
proof -
  define pre where "pre = (if isAbsolute q then [] else wd @ ''/'')"
  have abs: "isAbsolute (q @ CHR ''/'' # y) = isAbsolute q"
    using assms(2) by (cases q) (simp_all add: isAbsolute_def)
  have one: "resolveInput wd q = (pre @ q) @ ''/''"
    using assms(2) by (simp add: resolveInput_def pre_def)
  have two: "resolveInput wd (q @ CHR ''/'' # y) = (pre @ q) @ CHR ''/'' # y @ ''/''"
    using assms(2) by (simp add: resolveInput_def pre_def abs)
  show ?thesis
    unfolding segments_path_resolve [OF assms(1)] one two
    by (simp only: normalizeSegments_append_trailing normalizeSegments_trailing)
qed

lemma resolved_segments_relative:
  assumes "isAbsolute wd" and "\<not> isAbsolute y"
  shows "segments (path_resolve wd y) =
     foldl (normalizeStep False) (segments (path_resolve wd [])) (splitOn CHR ''/'' y)"
proof (cases "y = []")
  case True
  then show ?thesis
    by (simp add: normalizeStep_def)
next
  case False
  have one: "resolveInput wd [] = wd @ ''/''"
    by (simp add: resolveInput_def)
  have two: "resolveInput wd y = wd @ CHR ''/'' # y @ ''/''"
    using False assms(2) by (simp add: resolveInput_def)
  show ?thesis
    unfolding segments_path_resolve [OF assms(1)] one two
    by (simp only: normalizeSegments_append_trailing normalizeSegments_trailing)
qed

lemma step_name: "properName n \<Longrightarrow> foldl (normalizeStep a) X (splitOn CHR ''/'' n) = X @ [n]"
  by (simp add: properName_def splitOn_no_sep_id normalizeStep_def)

lemma step_parent:
  "list_all properName X \<Longrightarrow>
   foldl (normalizeStep False) X (splitOn CHR ''/'' ''..'') = butlast X"
  by (cases "X = []") (auto simp: normalizeStep_def properName_def list_all_iff)

lemma step_same:
  "foldl (normalizeStep a) X (splitOn CHR ''/'' ''.'') = X"
  "foldl (normalizeStep a) X (splitOn CHR ''/'' []) = X"
  by (simp_all add: normalizeStep_def)

lemma resolve_name_below:
  "isAbsolute wd \<Longrightarrow> q \<noteq> [] \<Longrightarrow> properName n \<Longrightarrow>
   segments (path_resolve wd (q @ ''/'' @ n)) = segments (path_resolve wd q) @ [n]"
  using resolved_segments_extend [of wd q n] by (simp add: step_name)

lemma resolve_parent_below:
  "isAbsolute wd \<Longrightarrow> q \<noteq> [] \<Longrightarrow>
   segments (path_resolve wd (q @ ''/..'')) = butlast (segments (path_resolve wd q))"
  using resolved_segments_extend [of wd q "''..''"] step_parent [OF resolved_segments_proper]
  by simp

lemma resolve_dot_below:
  "isAbsolute wd \<Longrightarrow> q \<noteq> [] \<Longrightarrow> path_resolve wd (q @ ''/.'') = path_resolve wd q"
  using resolved_segments_extend [of wd q "''.''"]
  by (simp add: resolved_eq_iff normalizeStep_def)

lemma resolve_slash_below:
  "isAbsolute wd \<Longrightarrow> q \<noteq> [] \<Longrightarrow> path_resolve wd (q @ ''/'') = path_resolve wd q"
  using resolved_segments_extend [of wd q "[]"]
  by (simp add: resolved_eq_iff normalizeStep_def)

lemma resolve_name:
  "isAbsolute wd \<Longrightarrow> properName n \<Longrightarrow>
   segments (path_resolve wd n) = segments (path_resolve wd []) @ [n]"
proof -
  assume wd: "isAbsolute wd" and n: "properName n"
  have "\<not> isAbsolute n"
    using n by (cases n) (auto simp: isAbsolute_def properName_def)
  then have "segments (path_resolve wd n) =
      foldl (normalizeStep False) (segments (path_resolve wd [])) (splitOn CHR ''/'' n)"
    using wd by (rule resolved_segments_relative [rotated])
  then show ?thesis
    by (simp only: step_name [OF n])
qed

lemma path_resolve_absolute_path:
  "isAbsolute p \<Longrightarrow>
   path_resolve wd p = CHR ''/'' # joinWith ''/'' (normalizeSegments False (p @ ''/''))"
  by (auto simp: path_resolve_def normalizeString_def isAbsolute_def split: list.splits)

lemma resolve_normal_form:
  "list_all properName N \<Longrightarrow>
   path_resolve wd (CHR ''/'' # joinWith ''/'' N) = CHR ''/'' # joinWith ''/'' N"
  using path_resolve_absolute_path [of "CHR ''/'' # joinWith ''/'' N" wd]
  by (simp add: isAbsolute_def normalizeSegments_of_names)

lemma resolve_empty: "isAbsolute wd \<Longrightarrow> path_resolve wd [] = path_resolve wd wd"
  by (auto simp: path_resolve_absolute resolveInput_def isAbsolute_def split: list.splits)

subsection \<open>Paths: the name relative to the root\<close>

lemma dropCommon_common: "dropCommon (c @ xs) (c @ ys) = dropCommon xs ys"
  by (induction c) auto

lemma dropCommon_maximal:
  "xs = [] \<or> ys = [] \<or> hd xs \<noteq> hd ys \<Longrightarrow> dropCommon xs ys = (xs, ys)"
  by (cases xs; cases ys) auto

text \<open>
  The relative name climbs out of what the resolved root has below the longest common
  directory and descends into what the resolved path has below it.
\<close>

lemma relative_name:
  assumes "isAbsolute wd"
    and "segments (path_resolve wd r) = common @ up"
    and "segments (path_resolve wd p) = common @ down"
    and "up = [] \<or> down = [] \<or> hd up \<noteq> hd down"
  shows "path_relative wd (path_resolve wd r) p =
     joinWith ''/'' (replicate (length up) ''..'' @ down)"
proof (cases "path_resolve wd r = path_resolve wd p")
  case True
  then have "up = down"
    using assms(2,3) by simp
  with assms(4) have "up = []" "down = []"
    by auto
  with True show ?thesis
    by (simp add: path_relative_resolved [OF assms(1)])
next
  case False
  have "dropCommon (segments (path_resolve wd r)) (segments (path_resolve wd p)) = (up, down)"
    unfolding assms(2,3) dropCommon_common using assms(4) by (rule dropCommon_maximal)
  with False show ?thesis
    by (simp add: path_relative_resolved [OF assms(1)])
qed

lemma relative_name_under_root:
  assumes "isAbsolute wd"
    and "segments (path_resolve wd p) = segments (path_resolve wd r) @ rest"
  shows "path_relative wd (path_resolve wd r) p = joinWith ''/'' rest"
  using relative_name [OF assms(1), of r "segments (path_resolve wd r)" "[]" p rest] assms(2)
  by simp

subsection \<open>Paths: the base name\<close>

lemma base_of_block:
  assumes "name \<noteq> []" and "CHR ''/'' \<notin> set name" and "set slashes \<subseteq> {CHR ''/''}"
    and "dir = [] \<or> last dir = CHR ''/''"
  shows "base (path_parse (dir @ name @ slashes)) = name"
proof -
  define p where "p = dir @ name @ slashes"
  define body where "body = (if isAbsolute p then tl p else p)"
  define dir' where "dir' = (if isAbsolute p then tl dir else dir)"
  have hdname: "hd name \<noteq> CHR ''/''"
    using assms(1,2) by (cases name) auto
  have body: "body = dir' @ name @ slashes"
  proof (cases dir)
    case Nil
    then have "\<not> isAbsolute p"
      using assms(1) hdname by (cases name) (simp_all add: p_def isAbsolute_def)
    with Nil show ?thesis
      by (simp add: body_def dir'_def p_def)
  next
    case (Cons c cs)
    then show ?thesis
      by (simp add: body_def dir'_def p_def)
  qed
  have dir': "dir' = [] \<or> last dir' = CHR ''/''"
  proof (cases "dir' = []")
    case True
    then show ?thesis by simp
  next
    case False
    then have "dir \<noteq> []"
      by (auto simp: dir'_def split: if_splits)
    with assms(4) have "last dir = CHR ''/''" by simp
    moreover have "last dir' = last dir"
      using False by (cases dir) (auto simp: dir'_def split: if_splits)
    ultimately show ?thesis by simp
  qed
  have rev_body: "rev body = rev slashes @ rev name @ rev dir'"
    by (simp add: body)
  have lastname: "last name \<noteq> CHR ''/''"
    using assms(1,2) last_in_set by metis
  have "dropWhile (\<lambda>c. c = CHR ''/'') (rev body) =
      dropWhile (\<lambda>c. c = CHR ''/'') (rev name @ rev dir')"
    unfolding rev_body using assms(3) by (intro dropWhile_append2) auto
  also have "\<dots> = rev name @ rev dir'"
    using assms(1) lastname by (simp add: dropWhile_eq_self_iff hd_rev)
  finally have trimmed: "dropWhile (\<lambda>c. c = CHR ''/'') (rev body) = rev name @ rev dir'" .
  have "takeWhile (\<lambda>c. c \<noteq> CHR ''/'') (rev name @ rev dir') =
      rev name @ takeWhile (\<lambda>c. c \<noteq> CHR ''/'') (rev dir')"
    using assms(2) by (intro takeWhile_append2) auto
  also have "takeWhile (\<lambda>c. c \<noteq> CHR ''/'') (rev dir') = []"
    using dir' by (auto simp: takeWhile_eq_Nil_iff hd_rev)
  finally have "takeWhile (\<lambda>c. c \<noteq> CHR ''/'') (rev name @ rev dir') = rev name"
    by simp
  then have "base (path_parse p) = name"
    using trimmed by (simp add: path_parse_def Let_def body_def)
  then show ?thesis
    by (simp add: p_def)
qed

lemma base_of_slashes:
  assumes "set p \<subseteq> {CHR ''/''}"
  shows "base (path_parse p) = []"
proof -
  define body where "body = (if isAbsolute p then tl p else p)"
  have "set body \<subseteq> {CHR ''/''}"
    using assms by (cases p) (auto simp: body_def)
  then have "dropWhile (\<lambda>c. c = CHR ''/'') (rev body) = []"
    by auto
  then have "takeWhile (\<lambda>c. c \<noteq> CHR ''/'')
      (dropWhile (\<lambda>c. c = CHR ''/'') (rev (if isAbsolute p then tl p else p))) = []"
    by (simp only: body_def takeWhile.simps)
  then show ?thesis
    by (simp add: path_parse_def Let_def)
qed

lemma dropCommon_stops:
  "dropCommon xs ys = (up, down) \<Longrightarrow> up = [] \<or> down = [] \<or> hd up \<noteq> hd down"
  by (induction xs ys rule: dropCommon.induct) (auto split: if_splits)

lemma common_prefix_exists:
  "\<exists>common up down. xs = common @ up \<and> ys = common @ down \<and>
     (up = [] \<or> down = [] \<or> hd up \<noteq> hd (down :: string list))"
proof -
  obtain up down where d: "dropCommon xs ys = (up, down)"
    by (cases "dropCommon xs ys")
  from dropCommon_split [OF d] obtain common where "xs = common @ up" "ys = common @ down"
    by blast
  with dropCommon_stops [OF d] show ?thesis by blast
qed

subsection \<open>Entry names\<close>

text \<open>
  Claim C4. Every input path \<open>p\<close> gives one entry, in order. Its name is, with
  \<^verbatim>\<open>--root r\<close>, \<^verbatim>\<open>path.relative\<close> from the resolved root to \<open>p\<close>, and without
  \<^verbatim>\<open>--root\<close> the base name of \<open>p\<close>; its source path is \<open>p\<close> resolved. These entries
  are what the assembler receives.

  The base name holds no separator and is the last block of \<open>p\<close> without a separator,
  trailing separators aside, so every directory component is gone: the base name of
  \<open>dir/name///\<close> is \<open>name\<close>, and it is empty only for a path made of separators.

  The working directory of a process is absolute. Then the resolved path is absolute
  and in normal form: it is its segments, each a proper name, joined after the root,
  and resolving it again changes nothing. An absolute path resolves without the
  working directory, a path in normal form resolves to itself and the empty path to
  the working directory. Below a path \<open>q\<close>, a name adds a segment, \<^verbatim>\<open>..\<close> removes the
  last one, \<^verbatim>\<open>.\<close> and a trailing separator change nothing; a single name resolves to
  a segment below the working directory.

  The name relative to the resolved root: when \<open>common\<close> is the longest directory
  prefix that the resolved root and the resolved path share (there always is one), the
  name is one \<^verbatim>\<open>..\<close> for every segment the root has below \<open>common\<close>, followed by the
  segments the path has below it. For a path under the root, the name is the rest of
  the path below the root.
\<close>

theorem entry_of_input_path:
  "buildFiles w options =
     map (\<lambda>p. \<lparr>filename = (case opt_root options of
                             Some r \<Rightarrow> path_relative (cwd w) (path_resolve (cwd w) r) p
                           | None \<Rightarrow> base (path_parse p)),
                path = path_resolve (cwd w) p,
                mode = fileMode p\<rparr>) (opt_files options) \<and>
   CHR ''/'' \<notin> set (base (path_parse p)) \<and>
   (\<exists>dir slashes. p = dir @ base (path_parse p) @ slashes \<and>
      set slashes \<subseteq> {CHR ''/''} \<and> (dir = [] \<or> last dir = CHR ''/'')) \<and>
   (name \<noteq> [] \<and> CHR ''/'' \<notin> set name \<and> set slashes \<subseteq> {CHR ''/''} \<and>
    (dir = [] \<or> last dir = CHR ''/'') \<longrightarrow>
      base (path_parse (dir @ name @ slashes)) = name) \<and>
   (set p \<subseteq> {CHR ''/''} \<longrightarrow> base (path_parse p) = []) \<and>
   (isAbsolute p \<longrightarrow> path_resolve (cwd w) p = path_resolve wd' p) \<and>
   (list_all properName N \<longrightarrow>
      path_resolve (cwd w) (CHR ''/'' # joinWith ''/'' N) = CHR ''/'' # joinWith ''/'' N) \<and>
   (isAbsolute (cwd w) \<longrightarrow>
      isAbsolute (path_resolve (cwd w) p) \<and>
      path_resolve (cwd w) (path_resolve (cwd w) p) = path_resolve (cwd w) p \<and>
      list_all properName (segments (path_resolve (cwd w) p)) \<and>
      path_resolve (cwd w) p = CHR ''/'' # joinWith ''/'' (segments (path_resolve (cwd w) p)) \<and>
      path_resolve (cwd w) [] = path_resolve (cwd w) (cwd w) \<and>
      (properName n \<longrightarrow>
         segments (path_resolve (cwd w) n) = segments (path_resolve (cwd w) []) @ [n]) \<and>
      (q \<noteq> [] \<and> properName n \<longrightarrow>
         segments (path_resolve (cwd w) (q @ ''/'' @ n)) =
           segments (path_resolve (cwd w) q) @ [n]) \<and>
      (q \<noteq> [] \<longrightarrow>
         segments (path_resolve (cwd w) (q @ ''/..'')) =
           butlast (segments (path_resolve (cwd w) q)) \<and>
         path_resolve (cwd w) (q @ ''/.'') = path_resolve (cwd w) q \<and>
         path_resolve (cwd w) (q @ ''/'') = path_resolve (cwd w) q) \<and>
      (\<exists>common up down.
         segments (path_resolve (cwd w) r) = common @ up \<and>
         segments (path_resolve (cwd w) p) = common @ down \<and>
         (up = [] \<or> down = [] \<or> hd up \<noteq> hd down)) \<and>
      (segments (path_resolve (cwd w) r) = common @ up \<and>
       segments (path_resolve (cwd w) p) = common @ down \<and>
       (up = [] \<or> down = [] \<or> hd up \<noteq> hd down) \<longrightarrow>
         path_relative (cwd w) (path_resolve (cwd w) r) p =
           joinWith ''/'' (replicate (length up) ''..'' @ down)) \<and>
      (segments (path_resolve (cwd w) p) = segments (path_resolve (cwd w) r) @ rest \<longrightarrow>
         path_relative (cwd w) (path_resolve (cwd w) r) p = joinWith ''/'' rest) \<and>
      path_relative (cwd w) (path_resolve (cwd w) r) p =
        (if path_resolve (cwd w) r = path_resolve (cwd w) p then []
         else joinWith ''/''
                (replicate
                   (length (fst (dropCommon (segments (path_resolve (cwd w) r))
                                            (segments (path_resolve (cwd w) p))))) ''..'' @
                 snd (dropCommon (segments (path_resolve (cwd w) r))
                                 (segments (path_resolve (cwd w) p)))))) \<and>
   (assembled (main mk usage w options) = Some (so, files) \<longrightarrow>
      files = buildFiles w options)"
proof (intro conjI)
  show "buildFiles w options =
     map (\<lambda>p. \<lparr>filename = (case opt_root options of
                             Some r \<Rightarrow> path_relative (cwd w) (path_resolve (cwd w) r) p
                           | None \<Rightarrow> base (path_parse p)),
                path = path_resolve (cwd w) p,
                mode = fileMode p\<rparr>) (opt_files options)"
    by (rule buildFiles_map)
  show "CHR ''/'' \<notin> set (base (path_parse p))"
    by (rule base_no_slash)
  show "\<exists>dir slashes. p = dir @ base (path_parse p) @ slashes \<and>
      set slashes \<subseteq> {CHR ''/''} \<and> (dir = [] \<or> last dir = CHR ''/'')"
    by (rule base_position)
  show "name \<noteq> [] \<and> CHR ''/'' \<notin> set name \<and> set slashes \<subseteq> {CHR ''/''} \<and>
    (dir = [] \<or> last dir = CHR ''/'') \<longrightarrow>
      base (path_parse (dir @ name @ slashes)) = name"
    using base_of_block [of name slashes dir] by blast
  show "set p \<subseteq> {CHR ''/''} \<longrightarrow> base (path_parse p) = []"
    using base_of_slashes [of p] by blast
  show "isAbsolute p \<longrightarrow> path_resolve (cwd w) p = path_resolve wd' p"
    by (simp add: path_resolve_absolute_path)
  show "list_all properName N \<longrightarrow>
      path_resolve (cwd w) (CHR ''/'' # joinWith ''/'' N) = CHR ''/'' # joinWith ''/'' N"
    using resolve_normal_form [of N "cwd w"] by blast
  show "assembled (main mk usage w options) = Some (so, files) \<longrightarrow>
      files = buildFiles w options"
    using main_assembled_files [of mk usage w options so files] by blast
  show "isAbsolute (cwd w) \<longrightarrow>
      isAbsolute (path_resolve (cwd w) p) \<and>
      path_resolve (cwd w) (path_resolve (cwd w) p) = path_resolve (cwd w) p \<and>
      list_all properName (segments (path_resolve (cwd w) p)) \<and>
      path_resolve (cwd w) p = CHR ''/'' # joinWith ''/'' (segments (path_resolve (cwd w) p)) \<and>
      path_resolve (cwd w) [] = path_resolve (cwd w) (cwd w) \<and>
      (properName n \<longrightarrow>
         segments (path_resolve (cwd w) n) = segments (path_resolve (cwd w) []) @ [n]) \<and>
      (q \<noteq> [] \<and> properName n \<longrightarrow>
         segments (path_resolve (cwd w) (q @ ''/'' @ n)) =
           segments (path_resolve (cwd w) q) @ [n]) \<and>
      (q \<noteq> [] \<longrightarrow>
         segments (path_resolve (cwd w) (q @ ''/..'')) =
           butlast (segments (path_resolve (cwd w) q)) \<and>
         path_resolve (cwd w) (q @ ''/.'') = path_resolve (cwd w) q \<and>
         path_resolve (cwd w) (q @ ''/'') = path_resolve (cwd w) q) \<and>
      (\<exists>common up down.
         segments (path_resolve (cwd w) r) = common @ up \<and>
         segments (path_resolve (cwd w) p) = common @ down \<and>
         (up = [] \<or> down = [] \<or> hd up \<noteq> hd down)) \<and>
      (segments (path_resolve (cwd w) r) = common @ up \<and>
       segments (path_resolve (cwd w) p) = common @ down \<and>
       (up = [] \<or> down = [] \<or> hd up \<noteq> hd down) \<longrightarrow>
         path_relative (cwd w) (path_resolve (cwd w) r) p =
           joinWith ''/'' (replicate (length up) ''..'' @ down)) \<and>
      (segments (path_resolve (cwd w) p) = segments (path_resolve (cwd w) r) @ rest \<longrightarrow>
         path_relative (cwd w) (path_resolve (cwd w) r) p = joinWith ''/'' rest) \<and>
      path_relative (cwd w) (path_resolve (cwd w) r) p =
        (if path_resolve (cwd w) r = path_resolve (cwd w) p then []
         else joinWith ''/''
                (replicate
                   (length (fst (dropCommon (segments (path_resolve (cwd w) r))
                                            (segments (path_resolve (cwd w) p))))) ''..'' @
                 snd (dropCommon (segments (path_resolve (cwd w) r))
                                 (segments (path_resolve (cwd w) p)))))"
  proof (rule impI, intro conjI)
    assume abs: "isAbsolute (cwd w)"
    show "isAbsolute (path_resolve (cwd w) p)"
      using abs by (rule path_resolve_isAbsolute)
    show "path_resolve (cwd w) (path_resolve (cwd w) p) = path_resolve (cwd w) p"
      using abs by (rule path_resolve_idem)
    show "list_all properName (segments (path_resolve (cwd w) p))"
      using abs by (rule resolved_segments_proper)
    show "path_resolve (cwd w) p =
        CHR ''/'' # joinWith ''/'' (segments (path_resolve (cwd w) p))"
      using abs by (rule resolved_from_segments)
    show "path_resolve (cwd w) [] = path_resolve (cwd w) (cwd w)"
      using abs by (rule resolve_empty)
    show "properName n \<longrightarrow>
         segments (path_resolve (cwd w) n) = segments (path_resolve (cwd w) []) @ [n]"
      using resolve_name [OF abs, of n] by blast
    show "q \<noteq> [] \<and> properName n \<longrightarrow>
         segments (path_resolve (cwd w) (q @ ''/'' @ n)) =
           segments (path_resolve (cwd w) q) @ [n]"
      using resolve_name_below [OF abs, of q n] by blast
    show "q \<noteq> [] \<longrightarrow>
         segments (path_resolve (cwd w) (q @ ''/..'')) =
           butlast (segments (path_resolve (cwd w) q)) \<and>
         path_resolve (cwd w) (q @ ''/.'') = path_resolve (cwd w) q \<and>
         path_resolve (cwd w) (q @ ''/'') = path_resolve (cwd w) q"
      using resolve_parent_below [OF abs, of q] resolve_dot_below [OF abs, of q]
        resolve_slash_below [OF abs, of q]
      by blast
    show "\<exists>common up down.
         segments (path_resolve (cwd w) r) = common @ up \<and>
         segments (path_resolve (cwd w) p) = common @ down \<and>
         (up = [] \<or> down = [] \<or> hd up \<noteq> hd down)"
      by (rule common_prefix_exists)
    show "segments (path_resolve (cwd w) r) = common @ up \<and>
       segments (path_resolve (cwd w) p) = common @ down \<and>
       (up = [] \<or> down = [] \<or> hd up \<noteq> hd down) \<longrightarrow>
         path_relative (cwd w) (path_resolve (cwd w) r) p =
           joinWith ''/'' (replicate (length up) ''..'' @ down)"
      using relative_name [OF abs, of r common up p down] by blast
    show "segments (path_resolve (cwd w) p) = segments (path_resolve (cwd w) r) @ rest \<longrightarrow>
         path_relative (cwd w) (path_resolve (cwd w) r) p = joinWith ''/'' rest"
      using relative_name_under_root [OF abs, of p r rest] by blast
    show "path_relative (cwd w) (path_resolve (cwd w) r) p =
        (if path_resolve (cwd w) r = path_resolve (cwd w) p then []
         else joinWith ''/''
                (replicate
                   (length (fst (dropCommon (segments (path_resolve (cwd w) r))
                                            (segments (path_resolve (cwd w) p))))) ''..'' @
                 snd (dropCommon (segments (path_resolve (cwd w) r))
                                 (segments (path_resolve (cwd w) p)))))"
      using abs by (rule path_relative_resolved)
  qed
qed

text \<open>
  In \<^verbatim>\<open>/work\<close>: \<^verbatim>\<open>lib/b.txt\<close> resolves to the segments of \<^verbatim>\<open>lib\<close> resolved and then
  \<^verbatim>\<open>b.txt\<close>, that is to \<^verbatim>\<open>/work/lib/b.txt\<close>; with \<^verbatim>\<open>--root lib\<close> its name is \<^verbatim>\<open>b.txt\<close>,
  the rest of the path below the root, and with \<^verbatim>\<open>--root lib/sub\<close> it is \<^verbatim>\<open>../b.txt\<close>;
  without a root its name is the base name \<^verbatim>\<open>b.txt\<close>, also when written \<^verbatim>\<open>lib/b.txt//\<close>,
  and the base name of \<^verbatim>\<open>//\<close> is empty; \<^verbatim>\<open>lib/..\<close> resolves to \<^verbatim>\<open>/work\<close>, and \<^verbatim>\<open>lib/.\<close>,
  \<^verbatim>\<open>lib/\<close> and \<^verbatim>\<open>/work/lib\<close> to \<^verbatim>\<open>/work/lib\<close>; and \<^verbatim>\<open>a.sh b.txt\<close> gives the base
  names, read from the resolved paths.
\<close>

theorem entry_of_input_path_witness:
  "isAbsolute (cwd sampleWorld) \<and> properName ''b.txt'' \<and>
   segments (path_resolve (cwd sampleWorld) ''lib/b.txt'') =
     segments (path_resolve (cwd sampleWorld) ''lib'') @ [''b.txt''] \<and>
   path_resolve (cwd sampleWorld) ''lib/b.txt'' = ''/work/lib/b.txt'' \<and>
   path_relative (cwd sampleWorld) (path_resolve (cwd sampleWorld) ''lib'') ''lib/b.txt'' =
     ''b.txt'' \<and>
   path_relative (cwd sampleWorld) (path_resolve (cwd sampleWorld) ''lib/sub'') ''lib/b.txt'' =
     ''../b.txt'' \<and>
   base (path_parse ''lib/b.txt'') = ''b.txt'' \<and>
   base (path_parse ''lib/b.txt//'') = ''b.txt'' \<and>
   base (path_parse ''//'') = [] \<and>
   segments (path_resolve (cwd sampleWorld) ''lib/..'') = [''work''] \<and>
   path_resolve (cwd sampleWorld) ''lib/.'' = ''/work/lib'' \<and>
   path_resolve (cwd sampleWorld) ''lib/'' = ''/work/lib'' \<and>
   path_resolve (cwd sampleWorld) ''/work/lib'' = ''/work/lib'' \<and>
   assembled (main sampleAssembler ''usage'' sampleWorld sampleOptions) =
     Some (scriptOptions sampleOptions,
           [\<lparr>filename = ''a.sh'', path = ''/work/a.sh'', mode = 493\<rparr>,
            \<lparr>filename = ''b.txt'', path = ''/work/b.txt'', mode = 420\<rparr>])"
proof -
  have abs: "isAbsolute (cwd sampleWorld)"
    by (simp add: sampleWorld_def isAbsolute_def)
  have cwd: "cwd sampleWorld = ''/work''"
    by (simp add: sampleWorld_def)
  have name: "properName ''b.txt''" "''lib'' \<noteq> []"
    by (simp_all add: properName_def)
  have res: "path_resolve ''/work'' ''lib'' = ''/work/lib''"
            "path_resolve ''/work'' ''lib/sub'' = ''/work/lib/sub''"
            "path_resolve ''/work'' ''a.sh'' = ''/work/a.sh''"
            "path_resolve ''/work'' ''b.txt'' = ''/work/b.txt''"
    by (simp_all add: path_resolve_def isAbsolute_def normalizeString_def
        normalizeSegments_def normalizeStep_def)
  have segs: "segments ''/work/lib'' = [''work'', ''lib'']"
             "segments ''/work/lib/sub'' = [''work'', ''lib'', ''sub'']"
    by (simp_all add: segments_def)
  have below: "segments (path_resolve (cwd sampleWorld) ''lib/b.txt'') =
      segments (path_resolve (cwd sampleWorld) ''lib'') @ [''b.txt'']"
    using entry_of_input_path [where w = sampleWorld and options = sampleOptions
      and p = "''lib/b.txt''" and r = "''lib''" and q = "''lib''" and n = "''b.txt''"
      and name = "''b.txt''" and dir = "''lib/''" and slashes = "[]" and N = "[]"
      and wd' = "[]" and common = "[]" and up = "[]" and down = "[]" and rest = "[]"
      and mk = sampleAssembler and usage = "''usage''" and so = "scriptOptions sampleOptions"
      and files = "[]"] abs name
    by simp
  then have psegs: "segments (path_resolve ''/work'' ''lib/b.txt'') = [''work'', ''lib'', ''b.txt'']"
    by (simp add: cwd res segs)
  have whole: "path_resolve (cwd sampleWorld) ''lib/b.txt'' = ''/work/lib/b.txt''"
    using entry_of_input_path [where w = sampleWorld and options = sampleOptions
      and p = "''lib/b.txt''" and r = "''lib''" and q = "''lib''" and n = "''b.txt''"
      and name = "''b.txt''" and dir = "''lib/''" and slashes = "[]" and N = "[]"
      and wd' = "[]" and common = "[]" and up = "[]" and down = "[]" and rest = "[]"
      and mk = sampleAssembler and usage = "''usage''" and so = "scriptOptions sampleOptions"
      and files = "[]"] abs
    by (simp add: cwd psegs)
  have under: "path_relative (cwd sampleWorld) (path_resolve (cwd sampleWorld) ''lib'')
      ''lib/b.txt'' = ''b.txt''"
    using entry_of_input_path [where w = sampleWorld and options = sampleOptions
      and p = "''lib/b.txt''" and r = "''lib''" and q = "''lib''" and n = "''b.txt''"
      and name = "''b.txt''" and dir = "''lib/''" and slashes = "[]" and N = "[]"
      and wd' = "[]" and common = "[]" and up = "[]" and down = "[]"
      and rest = "[''b.txt'']"
      and mk = sampleAssembler and usage = "''usage''" and so = "scriptOptions sampleOptions"
      and files = "[]"] abs
    by (simp add: cwd psegs res segs)
  have beside: "path_relative (cwd sampleWorld) (path_resolve (cwd sampleWorld) ''lib/sub'')
      ''lib/b.txt'' = ''../b.txt''"
    using entry_of_input_path [where w = sampleWorld and options = sampleOptions
      and p = "''lib/b.txt''" and r = "''lib/sub''" and q = "''lib''" and n = "''b.txt''"
      and name = "''b.txt''" and dir = "''lib/''" and slashes = "[]" and N = "[]"
      and wd' = "[]" and common = "[''work'', ''lib'']" and up = "[''sub'']"
      and down = "[''b.txt'']" and rest = "[]"
      and mk = sampleAssembler and usage = "''usage''" and so = "scriptOptions sampleOptions"
      and files = "[]"] abs
    by (simp add: cwd psegs res segs)
  have bases: "base (path_parse ''lib/b.txt'') = ''b.txt''"
    "base (path_parse ''lib/b.txt//'') = ''b.txt''"
    using entry_of_input_path [where w = sampleWorld and options = sampleOptions
      and p = "''lib/b.txt''" and r = "''lib''" and q = "''lib''" and n = "''b.txt''"
      and name = "''b.txt''" and dir = "''lib/''" and slashes = "[]" and N = "[]"
      and wd' = "[]" and common = "[]" and up = "[]" and down = "[]" and rest = "[]"
      and mk = sampleAssembler and usage = "''usage''" and so = "scriptOptions sampleOptions"
      and files = "[]"]
      entry_of_input_path [where w = sampleWorld and options = sampleOptions
      and p = "''lib/b.txt''" and r = "''lib''" and q = "''lib''" and n = "''b.txt''"
      and name = "''b.txt''" and dir = "''lib/''" and slashes = "''//''" and N = "[]"
      and wd' = "[]" and common = "[]" and up = "[]" and down = "[]" and rest = "[]"
      and mk = sampleAssembler and usage = "''usage''" and so = "scriptOptions sampleOptions"
      and files = "[]"]
    by simp_all
  have modes: "fileMode ''a.sh'' = 493" "fileMode ''b.txt'' = 420"
    by (simp_all add: fileMode_def path_parse_def isAbsolute_def)
  have plain: "base (path_parse ''a.sh'') = ''a.sh''" "base (path_parse ''b.txt'') = ''b.txt''"
    by (simp_all add: path_parse_def isAbsolute_def)
  have opts: "opt_root sampleOptions = None" "opt_files sampleOptions = [''a.sh'', ''b.txt'']"
    by (simp_all add: sampleOptions_def)
  have reached: "assembled (main sampleAssembler ''usage'' sampleWorld sampleOptions) =
     Some (scriptOptions sampleOptions, buildFiles sampleWorld sampleOptions)"
    by (simp add: main_def sampleOptions_def postExtractMissing_def validateArchiveType_def
        validArchiveTypes_def validateCompressLevel_def readPreExtract_def
        readPostExtract_def buildFiles_def makeEntry_def path_parse_def isAbsolute_def
        entryCountOf_def countEntry_def mapGet_def assembled_assemble Let_def)
  have entries: "buildFiles sampleWorld sampleOptions =
      [\<lparr>filename = ''a.sh'', path = ''/work/a.sh'', mode = 493\<rparr>,
       \<lparr>filename = ''b.txt'', path = ''/work/b.txt'', mode = 420\<rparr>]"
    using entry_of_input_path [where w = sampleWorld and options = sampleOptions
      and p = "''lib/b.txt''" and r = "''lib''" and q = "''lib''" and n = "''b.txt''"
      and name = "''b.txt''" and dir = "''lib/''" and slashes = "[]" and N = "[]"
      and wd' = "[]" and common = "[]" and up = "[]" and down = "[]" and rest = "[]"
      and mk = sampleAssembler and usage = "''usage''" and so = "scriptOptions sampleOptions"
      and files = "[]"]
    by (simp add: opts cwd res plain modes)
  have slashes: "base (path_parse ''//'') = []"
    using entry_of_input_path [where w = sampleWorld and options = sampleOptions
      and p = "''//''" and r = "''lib''" and q = "''lib''" and n = "''b.txt''"
      and name = "''b.txt''" and dir = "''lib/''" and slashes = "[]" and N = "[]"
      and wd' = "[]" and common = "[]" and up = "[]" and down = "[]" and rest = "[]"
      and mk = sampleAssembler and usage = "''usage''" and so = "scriptOptions sampleOptions"
      and files = "[]"]
    by simp
  have steps: "segments (path_resolve (cwd sampleWorld) ''lib/..'') = [''work'']"
    "path_resolve (cwd sampleWorld) ''lib/.'' = ''/work/lib''"
    "path_resolve (cwd sampleWorld) ''lib/'' = ''/work/lib''"
    "path_resolve (cwd sampleWorld) ''/work/lib'' = ''/work/lib''"
    using entry_of_input_path [where w = sampleWorld and options = sampleOptions
      and p = "''lib/b.txt''" and r = "''lib''" and q = "''lib''" and n = "''b.txt''"
      and name = "''b.txt''" and dir = "''lib/''" and slashes = "[]"
      and N = "[''work'', ''lib'']"
      and wd' = "[]" and common = "[]" and up = "[]" and down = "[]" and rest = "[]"
      and mk = sampleAssembler and usage = "''usage''" and so = "scriptOptions sampleOptions"
      and files = "[]"] abs
    by (simp_all add: cwd res segs properName_def)
  from abs name(1) below whole under beside bases slashes steps reached entries show ?thesis
    by simp
qed

lemma take2_join_dotdot: "take 2 (joinWith ''/'' (''..'' # xs)) = ''..''"
  by (cases xs) simp_all

text \<open>
  Claim C10. With \<^verbatim>\<open>--root r\<close>, an input path is never checked to lie under the root.
  When the resolved input path is outside the resolved root (the segments of the root
  are not a prefix of the segments of the path), its entry is built like any other:
  the entry is in the list, reads from the resolved path, and its name climbs out of
  the root, one \<^verbatim>\<open>..\<close> per segment of the root below the common directory, so the
  name starts with the segment \<^verbatim>\<open>..\<close>.
\<close>

theorem outside_root_entry_name:
  assumes "isAbsolute (cwd w)"
    and "opt_root options = Some r"
    and "p \<in> set (opt_files options)"
    and "\<not> prefix (segments (path_resolve (cwd w) r)) (segments (path_resolve (cwd w) p))"
  shows "makeEntry (cwd w) (Some (path_resolve (cwd w) r)) p \<in> set (buildFiles w options) \<and>
         path (makeEntry (cwd w) (Some (path_resolve (cwd w) r)) p) = path_resolve (cwd w) p \<and>
         (\<exists>rest. splitOn CHR ''/'' (filename (makeEntry (cwd w) (Some (path_resolve (cwd w) r)) p)) =
                   ''..'' # rest) \<and>
         take 2 (filename (makeEntry (cwd w) (Some (path_resolve (cwd w) r)) p)) = ''..''"
proof -
  let ?R = "path_resolve (cwd w) r" and ?P = "path_resolve (cwd w) p"
  let ?e = "makeEntry (cwd w) (Some ?R) p"
  obtain up down where dc: "dropCommon (segments ?R) (segments ?P) = (up, down)"
    by (cases "dropCommon (segments ?R) (segments ?P)")
  have "up \<noteq> []"
    using dropCommon_not_prefix [OF assms(4)] dc by simp
  then obtain n where n: "length up = Suc n"
    by (cases up) auto
  have "?R \<noteq> ?P"
    using assms(4) by auto
  then have name: "filename ?e = joinWith ''/'' (''..'' # replicate n ''..'' @ down)"
    using path_relative_resolved [OF assms(1), of r p] dc n
    by (simp add: makeEntry_def)
  obtain common where "segments ?P = common @ down"
    using dropCommon_split [OF dc] by blast
  moreover have "list_all properName (segments ?P)"
    using assms(1) by (simp add: segments_path_resolve normalizeSegments_proper)
  ultimately have "\<And>s. s \<in> set down \<Longrightarrow> CHR ''/'' \<notin> set s"
    by (auto simp: list_all_iff properName_def)
  then have "\<And>s. s \<in> set (''..'' # replicate n ''..'' @ down) \<Longrightarrow> CHR ''/'' \<notin> set s"
    by auto
  then have "splitOn CHR ''/'' (filename ?e) = ''..'' # replicate n ''..'' @ down"
    using splitOn_joinWith [of "''..'' # replicate n ''..'' @ down" "CHR ''/''"] name
    by simp
  moreover have "take 2 (filename ?e) = ''..''"
    using name take2_join_dotdot by simp
  moreover have "?e \<in> set (buildFiles w options)"
    using assms(2,3) by (simp add: buildFiles_def)
  moreover have "path ?e = ?P"
    by (simp add: makeEntry_def)
  ultimately show ?thesis by blast
qed

text \<open>
  \<^verbatim>\<open>--root lib --post-extract "echo done" b.txt\<close> in \<^verbatim>\<open>/work\<close>: the file
  \<^verbatim>\<open>/work/b.txt\<close> is outside \<^verbatim>\<open>/work/lib\<close>; the run succeeds and the assembler
  receives the entry name \<^verbatim>\<open>../b.txt\<close>.
\<close>

theorem outside_root_entry_name_witness:
  "isAbsolute (cwd sampleWorld) \<and>
   opt_root (sampleOptions\<lparr>opt_root := Some ''lib'', opt_files := [''b.txt'']\<rparr>) = Some ''lib'' \<and>
   ''b.txt'' \<in> set (opt_files (sampleOptions\<lparr>opt_root := Some ''lib'', opt_files := [''b.txt'']\<rparr>)) \<and>
   \<not> prefix (segments (path_resolve (cwd sampleWorld) ''lib''))
             (segments (path_resolve (cwd sampleWorld) ''b.txt'')) \<and>
   take 2 (filename (makeEntry (cwd sampleWorld) (Some (path_resolve (cwd sampleWorld) ''lib'')) ''b.txt'')) =
     ''..'' \<and>
   exitCode (main sampleAssembler ''usage'' sampleWorld
      (sampleOptions\<lparr>opt_root := Some ''lib'', opt_files := [''b.txt'']\<rparr>)) = 0 \<and>
   assembled (main sampleAssembler ''usage'' sampleWorld
      (sampleOptions\<lparr>opt_root := Some ''lib'', opt_files := [''b.txt'']\<rparr>)) =
     Some (scriptOptions sampleOptions,
           [\<lparr>filename = ''../b.txt'', path = ''/work/b.txt'', mode = 420\<rparr>])"
proof -
  have abs: "isAbsolute (cwd sampleWorld)"
    by (simp add: sampleWorld_def isAbsolute_def)
  have cwd: "cwd sampleWorld = ''/work''"
    by (simp add: sampleWorld_def)
  have res: "path_resolve ''/work'' ''lib'' = ''/work/lib''"
            "path_resolve ''/work'' ''/work/lib'' = ''/work/lib''"
            "path_resolve ''/work'' ''b.txt'' = ''/work/b.txt''"
    by (simp_all add: path_resolve_def isAbsolute_def normalizeString_def
        normalizeSegments_def normalizeStep_def)
  have segs: "segments ''/work/lib'' = [''work'', ''lib'']"
             "segments ''/work/b.txt'' = [''work'', ''b.txt'']"
    by (simp_all add: segments_def)
  have outside: "\<not> prefix (segments (path_resolve (cwd sampleWorld) ''lib''))
             (segments (path_resolve (cwd sampleWorld) ''b.txt''))"
    by (simp add: cwd res segs)
  have rel: "path_relative ''/work'' ''/work/lib'' ''b.txt'' = ''../b.txt''"
    by (simp add: path_relative_def res segs)
  have run: "main sampleAssembler ''usage'' sampleWorld
      (sampleOptions\<lparr>opt_root := Some ''lib'', opt_files := [''b.txt'']\<rparr>) =
     \<lparr>exitCode = 0, consoleLog = [], consoleError = [], filesRead = [],
      outputStream = Some Stdout,
      assembled = Some (scriptOptions sampleOptions,
           [\<lparr>filename = ''../b.txt'', path = ''/work/b.txt'', mode = 420\<rparr>]),
      assemblerResult = Some \<lparr>written = ''#!/bin/sh'', rejected = False\<rparr>,
      stdoutData = ''#!/bin/sh'', fsAfter = fsys sampleWorld, thrown = None\<rparr>"
    by (simp add: main_def sampleOptions_def postExtractMissing_def validateArchiveType_def
        validArchiveTypes_def validateCompressLevel_def readPreExtract_def
        readPostExtract_def buildFiles_def makeEntry_def cwd res rel fileMode_def
        path_parse_def isAbsolute_def entryCountOf_def countEntry_def mapGet_def
        assemble_def scriptOptions_def sampleAssembler_def preReads_def postReads_def Let_def)
      (simp add: sampleWorld_def)
  show ?thesis
    using abs outside run
      outside_root_entry_name [of sampleWorld
        "sampleOptions\<lparr>opt_root := Some ''lib'', opt_files := [''b.txt'']\<rparr>" "''lib''" "''b.txt''"]
    by (simp add: sampleOptions_def)
qed

subsection \<open>The entry count map\<close>

lemma firstOccurrences_snoc:
  "firstOccurrences (xs @ [x]) =
     (if x \<in> set xs then firstOccurrences xs else firstOccurrences xs @ [x])"
  by (simp add: firstOccurrences_def)

lemma set_firstOccurrences: "set (firstOccurrences xs) = set xs"
  by (simp add: firstOccurrences_def)

lemma distinct_firstOccurrences: "distinct (firstOccurrences xs)"
  by (simp add: firstOccurrences_def)

lemma length_firstOccurrences: "length (firstOccurrences xs) = length xs \<longleftrightarrow> distinct xs"
proof -
  have "length (firstOccurrences xs) = card (set xs)"
    by (simp add: firstOccurrences_def length_remdups_card_conv)
  then show ?thesis
    using card_distinct [of xs] distinct_card [of xs] by auto
qed

lemma mapSet_present:
  "distinct ks \<Longrightarrow> k \<in> set ks \<Longrightarrow>
   mapSet k v (map (\<lambda>n. (n, g n)) ks) = map (\<lambda>n. (n, if n = k then v else g n)) ks"
  by (induction ks) auto

lemma mapSet_absent:
  "k \<notin> set ks \<Longrightarrow> mapSet k v (map (\<lambda>n. (n, g n)) ks) = map (\<lambda>n. (n, g n)) ks @ [(k, v)]"
  by (induction ks) auto

lemma mapGet_keys:
  "mapGet (map (\<lambda>n. (n, g n)) ks) k = (if k \<in> set ks then Some (g k) else None)"
  by (induction ks) (auto simp: mapGet_def)

lemma sourcesOf_snoc:
  "sourcesOf name (files @ [p]) =
     (if filename p = name then sourcesOf name files @ [path p] else sourcesOf name files)"
  by (simp add: sourcesOf_def)

lemma sourcesOf_unseen: "name \<notin> set (map filename files) \<Longrightarrow> sourcesOf name files = []"
  by (induction files) (auto simp: sourcesOf_def)

text \<open>
  The map after the loop: one key per distinct entry name, in the order of first
  occurrence, holding the source paths of the entries with that name, in input order.
\<close>

lemma entryCountOf_eq:
  "entryCountOf files =
     map (\<lambda>name. (name, sourcesOf name files)) (firstOccurrences (map filename files))"
proof (induction files rule: rev_induct)
  case Nil
  then show ?case by (simp add: entryCountOf_def firstOccurrences_def)
next
  case (snoc p files)
  let ?names = "firstOccurrences (map filename files)"
  let ?k = "filename p"
  have step: "entryCountOf (files @ [p]) = countEntry (entryCountOf files) p"
    by (simp add: entryCountOf_def)
  show ?case
  proof (cases "?k \<in> set (map filename files)")
    case True
    then have seen: "?k \<in> set ?names"
      by (simp add: set_firstOccurrences)
    have "countEntry (entryCountOf files) p =
        map (\<lambda>name. (name, if name = ?k then sourcesOf ?k files @ [path p]
                            else sourcesOf name files)) ?names"
      using seen distinct_firstOccurrences [of "map filename files"]
      by (simp add: countEntry_def snoc.IH mapGet_keys mapSet_present)
    also have "\<dots> = map (\<lambda>name. (name, sourcesOf name (files @ [p]))) ?names"
      by (rule map_cong) (auto simp: sourcesOf_snoc)
    finally show ?thesis
      using True step by (simp add: firstOccurrences_snoc)
  next
    case False
    then have unseen: "?k \<notin> set ?names"
      by (simp add: set_firstOccurrences)
    have "countEntry (entryCountOf files) p =
        map (\<lambda>name. (name, sourcesOf name files)) ?names @ [(?k, [path p])]"
      using unseen by (simp add: countEntry_def snoc.IH mapGet_keys mapSet_absent)
    also have "map (\<lambda>name. (name, sourcesOf name files)) ?names =
        map (\<lambda>name. (name, sourcesOf name (files @ [p]))) ?names"
      using unseen by (intro map_cong) (auto simp: sourcesOf_snoc)
    also have "[(?k, [path p])] = [(?k, sourcesOf ?k (files @ [p]))]"
      using False by (simp add: sourcesOf_snoc sourcesOf_unseen)
    finally show ?thesis
      using False step by (simp add: firstOccurrences_snoc)
  qed
qed

lemma entryCountOf_length:
  "length (entryCountOf files) = length files \<longleftrightarrow> distinct (map filename files)"
  using length_firstOccurrences [of "map filename files"]
  by (simp add: entryCountOf_eq)

lemma sourcesOf_seen:
  "name \<in> set (map filename files) \<Longrightarrow> 1 \<le> length (sourcesOf name files)"
  by (induction files) (auto simp: sourcesOf_def)

lemma duplicateReport_eq:
  "duplicateReport (entryCountOf files) =
     ''Archive contains duplicate files''
     # concat (map (collisionLines files) (collidingNames files))"
proof -
  have "concat (map duplicateLines (map (\<lambda>name. (name, sourcesOf name files)) names)) =
        concat (map (collisionLines files)
                  (filter (\<lambda>name. 2 \<le> length (sourcesOf name files)) names))"
    if "set names \<subseteq> set (map filename files)" for names
    using that
  proof (induction names)
    case Nil
    then show ?case by simp
  next
    case (Cons name names)
    then have "1 \<le> length (sourcesOf name files)"
      using sourcesOf_seen [of name files] by simp
    then have "length (sourcesOf name files) \<noteq> 1 \<longleftrightarrow> 2 \<le> length (sourcesOf name files)"
      by arith
    with Cons show ?case
      by (simp add: duplicateLines_def collisionLines_def)
  qed
  then show ?thesis
    by (simp add: duplicateReport_def entryCountOf_eq collidingNames_def set_firstOccurrences)
qed

subsection \<open>The checks in order\<close>

lemma readPreExtract_readable:
  "scriptFileReadable w (opt_pre_extract_file options) \<Longrightarrow>
   \<exists>options1. readPreExtract w options = Inr options1"
  by (auto simp: scriptFileReadable_def readPreExtract_def split: option.splits)

lemma readPostExtract_readable:
  "scriptFileReadable w (opt_post_extract_file options) \<Longrightarrow>
   \<exists>options2. readPostExtract w options = Inr options2"
  by (auto simp: scriptFileReadable_def readPostExtract_def split: option.splits)

lemma buildFiles_after_reads:
  assumes "readPreExtract w options = Inr options1"
    and "readPostExtract w options1 = Inr options2"
  shows "buildFiles w options2 = buildFiles w options"
  using readPreExtract_keeps [OF assms(1)] readPostExtract_keeps [OF assms(2)]
  by (simp add: buildFiles_def)

lemma buildFiles_pre_update [simp]:
  "buildFiles w (options\<lparr>opt_pre_extract := x\<rparr>) = buildFiles w options"
  by (simp add: buildFiles_def)

lemma buildFiles_post_update [simp]:
  "buildFiles w (options\<lparr>opt_post_extract := x\<rparr>) = buildFiles w options"
  by (simp add: buildFiles_def)

text \<open>Each check, when the ones before it pass, ends the run with its own line.\<close>

lemma main_no_files:
  "\<not> opt_help options \<Longrightarrow> opt_files options = [] \<Longrightarrow>
   main mk usage w options = failWith w [] [''No files to embed specified'']"
  by (simp add: main_def)

lemma main_no_post_extract:
  "\<not> opt_help options \<Longrightarrow> opt_files options \<noteq> [] \<Longrightarrow> postExtractMissing options \<Longrightarrow>
   main mk usage w options = failWith w [] [''No post extraction script specified'']"
  by (simp add: main_def)

lemma main_bad_type:
  "\<not> opt_help options \<Longrightarrow> opt_files options \<noteq> [] \<Longrightarrow> \<not> postExtractMissing options \<Longrightarrow>
   \<not> validateArchiveType options \<Longrightarrow>
   main mk usage w options =
     failWith w [] [''Invalid archive type. Values tar or zip allowed'']"
  by (simp add: main_def)

lemma main_bad_level:
  "\<not> opt_help options \<Longrightarrow> opt_files options \<noteq> [] \<Longrightarrow> \<not> postExtractMissing options \<Longrightarrow>
   validateArchiveType options \<Longrightarrow> \<not> validateCompressLevel (opt_compress_level options) \<Longrightarrow>
   main mk usage w options =
     failWith w [] [''Invalid compression level. Values 0-9 allowed'']"
  by (simp add: main_def)

lemma main_pre_unreadable:
  "\<not> opt_help options \<Longrightarrow> opt_files options \<noteq> [] \<Longrightarrow> \<not> postExtractMissing options \<Longrightarrow>
   validateArchiveType options \<Longrightarrow> validateCompressLevel (opt_compress_level options) \<Longrightarrow>
   opt_pre_extract_file options = Some f \<Longrightarrow> readFile w f = None \<Longrightarrow>
   main mk usage w options =
     failWith w [f] [''Failed to read pre-extraction script '' @ [CHR 0x27] @ f @ [CHR 0x27]]"
  by (simp add: main_def readPreExtract_def preReads_def)

lemma main_post_unreadable:
  assumes "\<not> opt_help options" "opt_files options \<noteq> []" "\<not> postExtractMissing options"
    "validateArchiveType options" "validateCompressLevel (opt_compress_level options)"
    "scriptFileReadable w (opt_pre_extract_file options)"
    "opt_post_extract_file options = Some f" "readFile w f = None"
  shows "main mk usage w options =
     failWith w (preReads options @ [f])
       [''Failed to read post-extraction script '' @ [CHR 0x27] @ f @ [CHR 0x27]]"
proof -
  obtain options1 where pre: "readPreExtract w options = Inr options1"
    using readPreExtract_readable [OF assms(6)] by blast
  then have "opt_post_extract_file options1 = Some f"
    using readPreExtract_keeps [OF pre] assms(7) by simp
  then have "readPostExtract w options1 =
      Inl (''Failed to read post-extraction script '' @ [CHR 0x27] @ f @ [CHR 0x27])"
    using assms(8) by (simp add: readPostExtract_def)
  with assms pre show ?thesis
    by (simp add: main_def postReads_def)
qed

text \<open>After the reads, the script texts are the expected ones.\<close>

lemma scriptOptions_after_reads:
  assumes "readPreExtract w options = Inr options1"
    and "readPostExtract w options1 = Inr options2"
  shows "scriptOptions options2 = expectedScriptOptions w options"
proof -
  have pre: "opt_pre_extract options1 =
      scriptTextFor w (opt_pre_extract options) (opt_pre_extract_file options)"
    using assms(1)
    by (auto simp: readPreExtract_def scriptTextFor_def split: option.splits)
  have post: "opt_post_extract options2 =
      scriptTextFor w (opt_post_extract options1) (opt_post_extract_file options1)"
    using assms(2)
    by (auto simp: readPostExtract_def scriptTextFor_def split: option.splits)
  show ?thesis
    using pre post readPreExtract_keeps [OF assms(1)] readPostExtract_keeps [OF assms(2)]
    by (simp add: scriptOptions_def expectedScriptOptions_def)
qed

text \<open>The checks, said on the options and the file system alone.\<close>

lemma validationPasses_inputs:
  "validationPasses w options \<longleftrightarrow>
     opt_files options \<noteq> [] \<and>
     (\<exists>s. opt_post_extract options = Some s \<and>
          (s \<noteq> [] \<or> opt_post_extract_file options \<noteq> None)) \<and>
     (opt_type options = ''tar'' \<or> opt_type options = ''zip'') \<and>
     (opt_compress_level options = None \<or>
      (\<exists>n::nat. n \<le> 9 \<and> opt_compress_level options = Some (Finite (of_nat n)))) \<and>
     (opt_pre_extract_file options = None \<or>
      (\<exists>f. opt_pre_extract_file options = Some f \<and> fsys w (path_resolve (cwd w) f) \<noteq> None)) \<and>
     (opt_post_extract_file options = None \<or>
      (\<exists>f. opt_post_extract_file options = Some f \<and> fsys w (path_resolve (cwd w) f) \<noteq> None)) \<and>
     distinct (map filename (buildFiles w options))"
proof -
  have post: "\<not> postExtractMissing options \<longleftrightarrow>
      (\<exists>s. opt_post_extract options = Some s \<and>
           (s \<noteq> [] \<or> opt_post_extract_file options \<noteq> None))"
    by (cases "opt_post_extract options") (auto simp: postExtractMissing_def)
  have type: "validateArchiveType options \<longleftrightarrow>
      opt_type options = ''tar'' \<or> opt_type options = ''zip''"
    by (auto simp: validateArchiveType_def validArchiveTypes_def)
  have level: "validateCompressLevel (opt_compress_level options) \<longleftrightarrow>
      opt_compress_level options = None \<or>
      (\<exists>n::nat. n \<le> 9 \<and> opt_compress_level options = Some (Finite (of_nat n)))"
    by (cases "opt_compress_level options")
       (simp_all add: validateCompressLevel_def valid_level_iff)
  have readable: "scriptFileReadable w sf \<longleftrightarrow>
      sf = None \<or> (\<exists>f. sf = Some f \<and> fsys w (path_resolve (cwd w) f) \<noteq> None)" for sf
    by (cases sf) (simp_all add: scriptFileReadable_def readFile_def)
  show ?thesis
    unfolding validationPasses_def post type level readable ..
qed

lemma some_check_fails:
  "\<not> validationPasses w options \<longleftrightarrow>
     opt_files options = [] \<or>
     opt_post_extract options = None \<or>
     (opt_post_extract options = Some [] \<and> opt_post_extract_file options = None) \<or>
     (opt_type options \<noteq> ''tar'' \<and> opt_type options \<noteq> ''zip'') \<or>
     (\<exists>v. opt_compress_level options = Some v \<and> (\<forall>n::nat. n \<le> 9 \<longrightarrow> v \<noteq> Finite (of_nat n))) \<or>
     (\<exists>f. opt_pre_extract_file options = Some f \<and> fsys w (path_resolve (cwd w) f) = None) \<or>
     (\<exists>f. opt_post_extract_file options = Some f \<and> fsys w (path_resolve (cwd w) f) = None) \<or>
     \<not> distinct (map filename (buildFiles w options))"
  unfolding validationPasses_inputs
  by (cases "opt_post_extract options"; cases "opt_compress_level options";
      cases "opt_pre_extract_file options"; cases "opt_post_extract_file options") auto

subsection \<open>The parse\<close>

lemma hasUnknownOption_iff: "hasUnknownOption args \<longleftrightarrow> (\<exists>s. UnknownArg s \<in> set args)"
proof -
  have "(case a of UnknownArg s \<Rightarrow> True | _ \<Rightarrow> False) \<longleftrightarrow> (\<exists>s. a = UnknownArg s)" for a
    by (cases a) simp_all
  then show ?thesis
    by (auto simp: hasUnknownOption_def list_ex_iff)
qed

lemma optionOf_unknown: "optionOf a = Inl s \<longleftrightarrow> a = UnknownArg s"
  by (cases a) auto

lemma singularOption_optionOf:
  "optionOf a = Inr n \<Longrightarrow> singularOption a = (if n = FilesOption then [] else [n])"
  by (cases a) auto

lemma isSet_setOption:
  "optionOf a = Inr n \<Longrightarrow>
   isSet m (setOption a cl) \<longleftrightarrow> isSet m cl \<or> (m = n \<and> n \<noteq> FilesOption)"
  by (cases a; cases m) auto

lemma not_isSet_files: "isSet n cl \<Longrightarrow> n \<noteq> FilesOption"
  by (cases n) auto

text \<open>
  The parse fails exactly when an argument is not a defined option, or sets a singular
  option that an earlier argument, or the state the parse starts from, has set.
\<close>

lemma parseFrom_fails_iff:
  "(\<exists>e. parseFrom cl args = Inl e) \<longleftrightarrow>
     hasUnknownOption args \<or>
     \<not> distinct (concat (map singularOption args)) \<or>
     (\<exists>n \<in> set (concat (map singularOption args)). isSet n cl)"
proof (induction args arbitrary: cl)
  case Nil
  then show ?case by (simp add: hasUnknownOption_def)
next
  case (Cons a args)
  show ?case
  proof (cases "optionOf a")
    case (Inl s)
    then have "a = UnknownArg s" by (simp add: optionOf_unknown)
    then show ?thesis
      by (simp add: parseStep_def hasUnknownOption_def)
  next
    case (Inr n)
    have known: "hasUnknownOption (a # args) = hasUnknownOption args"
      using Inr by (cases a) (simp_all add: hasUnknownOption_def)
    have sing: "singularOption a = (if n = FilesOption then [] else [n])"
      using Inr by (rule singularOption_optionOf)
    show ?thesis
    proof (cases "isSet n cl")
      case True
      then have "n \<noteq> FilesOption" by (rule not_isSet_files)
      with True Inr sing show ?thesis
        by (simp add: parseStep_def)
    next
      case False
      have step: "parseFrom cl (a # args) = parseFrom (setOption a cl) args"
        using Inr False by (simp add: parseStep_def)
      show ?thesis
        unfolding step Cons.IH known
        using False sing isSet_setOption [OF Inr, of _ cl]
        by auto
    qed
  qed
qed

lemma parseArgv_fails_iff:
  "(\<exists>e. parseArgv args = Inl e) \<longleftrightarrow> (\<exists>s. UnknownArg s \<in> set args) \<or> repeatsOption args"
proof -
  have "\<not> isSet n noArguments" for n
    by (cases n) (simp_all add: noArguments_def)
  then show ?thesis
    by (simp add: parseArgv_def parseFrom_fails_iff repeatsOption_def hasUnknownOption_iff)
qed

lemma parseArgv_succeeds:
  "\<not> (\<exists>s. UnknownArg s \<in> set args) \<Longrightarrow> \<not> repeatsOption args \<Longrightarrow>
   \<exists>argv. parseArgv args = Inr argv"
  using parseArgv_fails_iff [of args] by (cases "parseArgv args") auto

text \<open>What a parse that goes through has collected: the help flag and the files.\<close>

lemma parseFrom_help:
  "parseFrom cl args = Inr cl' \<Longrightarrow> given_help cl' \<longleftrightarrow> given_help cl \<or> HelpArg \<in> set args"
proof (induction args arbitrary: cl)
  case Nil
  then show ?case by simp
next
  case (Cons a args)
  from Cons.prems obtain cl1 where
    step: "parseStep cl a = Inr cl1" and rest: "parseFrom cl1 args = Inr cl'"
    by (auto split: sum.splits)
  have "cl1 = setOption a cl"
    using step by (auto simp: parseStep_def split: sum.splits if_splits)
  then have "given_help cl1 \<longleftrightarrow> given_help cl \<or> a = HelpArg"
    by (cases a) auto
  with Cons.IH [OF rest] show ?case by auto
qed

lemma parseFrom_files:
  "parseFrom cl args = Inr cl' \<Longrightarrow>
   given_files cl' =
     given_files cl @ concat (map (\<lambda>a. case a of FilesArg f \<Rightarrow> [f] | _ \<Rightarrow> []) args)"
proof (induction args arbitrary: cl)
  case Nil
  then show ?case by simp
next
  case (Cons a args)
  from Cons.prems obtain cl1 where
    step: "parseStep cl a = Inr cl1" and rest: "parseFrom cl1 args = Inr cl'"
    by (auto split: sum.splits)
  have "cl1 = setOption a cl"
    using step by (auto simp: parseStep_def split: sum.splits if_splits)
  then have "given_files cl1 = given_files cl @ (case a of FilesArg f \<Rightarrow> [f] | _ \<Rightarrow> [])"
    by (cases a) auto
  with Cons.IH [OF rest] show ?case by simp
qed

lemma parseArgv_help:
  "parseArgv args = Inr argv \<Longrightarrow> given_help argv \<longleftrightarrow> HelpArg \<in> set args"
  using parseFrom_help [of noArguments args argv]
  by (simp add: parseArgv_def noArguments_def)

lemma parseArgv_files:
  "parseArgv args = Inr argv \<Longrightarrow>
   given_files argv = concat (map (\<lambda>a. case a of FilesArg f \<Rightarrow> [f] | _ \<Rightarrow> []) args)"
  using parseFrom_files [of noArguments args argv]
  by (simp add: parseArgv_def noArguments_def)

lemma program_parse_failure:
  "(\<exists>s. UnknownArg s \<in> set args) \<or> repeatsOption args \<Longrightarrow>
   \<exists>e. program mk usage w args = uncaught w e"
  using parseArgv_fails_iff [of args] by (auto simp: program_def)

subsection \<open>Duplicate entry names\<close>

lemma main_duplicates_fail:
  assumes "\<not> opt_help options"
    and "\<not> distinct (map filename (buildFiles w options))"
  shows "\<exists>rs msgs. main mk usage w options = failWith w rs msgs"
proof (cases "readPreExtract w options")
  case (Inl msg)
  with assms(1) show ?thesis by (auto simp: main_def)
next
  case pre: (Inr options1)
  show ?thesis
  proof (cases "readPostExtract w options1")
    case (Inl msg)
    with assms(1) pre show ?thesis by (auto simp: main_def)
  next
    case post: (Inr options2)
    have "length (entryCountOf (buildFiles w options2)) \<noteq> length (buildFiles w options2)"
      using assms(2) buildFiles_after_reads [OF pre post]
      by (simp add: entryCountOf_length)
    with assms(1) pre post show ?thesis
      by (auto simp: main_def Let_def)
  qed
qed

lemma main_duplicates_report:
  assumes "\<not> opt_help options"
    and "\<not> distinct (map filename (buildFiles w options))"
    and "\<not> postExtractMissing options"
    and "validateArchiveType options"
    and "validateCompressLevel (opt_compress_level options)"
    and "scriptFileReadable w (opt_pre_extract_file options)"
    and "scriptFileReadable w (opt_post_extract_file options)"
  shows "consoleError (main mk usage w options) =
           duplicateReport (entryCountOf (buildFiles w options))"
proof -
  obtain options1 where pre: "readPreExtract w options = Inr options1"
    using readPreExtract_readable [OF assms(6)] by blast
  then have "opt_post_extract_file options1 = opt_post_extract_file options"
    using readPreExtract_keeps by blast
  then obtain options2 where post: "readPostExtract w options1 = Inr options2"
    using readPostExtract_readable [of w options1] assms(7) by auto
  have same: "buildFiles w options2 = buildFiles w options"
    using buildFiles_after_reads [OF pre post] .
  have "opt_files options \<noteq> []"
    using assms(2) by (auto simp: buildFiles_def)
  moreover have "length (entryCountOf (buildFiles w options)) \<noteq> length (buildFiles w options)"
    using assms(2) by (simp add: entryCountOf_length)
  ultimately show ?thesis
    using assms(1,3,4,5) pre post same
    by (simp add: main_def failWith_def Let_def)
qed

lemma collidingNames_iff:
  "name \<in> set (collidingNames files) \<longleftrightarrow>
     2 \<le> length (filter (\<lambda>p. filename p = name) files)"
proof -
  have "name \<in> set (map filename files)" if "2 \<le> length (sourcesOf name files)"
    using that sourcesOf_unseen [of name files] by fastforce
  then show ?thesis
    by (auto simp: collidingNames_def set_firstOccurrences sourcesOf_def)
qed

text \<open>
  Claim C3, for the runs it holds for. In a run without \<^verbatim>\<open>--help\<close> whose file list
  gives two entries the same name, the run exits with status 1 before any output: no
  output stream is created, the assembler is not called and the file system is
  unchanged. When the checks before the duplicate check pass (post-extraction text,
  archive type, compression level, readable script files), the error report is the line
  \<^verbatim>\<open>Archive contains duplicate files\<close> followed, for each colliding name in order of
  first occurrence, by the line naming it with its number of entries and one
  \<^verbatim>\<open>From\<close> line per source path of an entry with that name, in input order. A name is
  reported exactly when at least two entries carry it, once; a name carried by one
  entry is not reported. When an earlier check fails, the report is the line of the
  first check that fails, and no name is listed.
\<close>

theorem duplicate_entry_names_rejected:
  assumes "\<not> opt_help options"
    and "\<not> distinct (map filename (buildFiles w options))"
  shows "exitCode (main mk usage w options) = 1 \<and>
         outputStream (main mk usage w options) = None \<and>
         assembled (main mk usage w options) = None \<and>
         stdoutData (main mk usage w options) = [] \<and>
         fsAfter (main mk usage w options) = fsys w \<and>
         (\<not> postExtractMissing options \<and> validateArchiveType options \<and>
          validateCompressLevel (opt_compress_level options) \<and>
          scriptFileReadable w (opt_pre_extract_file options) \<and>
          scriptFileReadable w (opt_post_extract_file options) \<longrightarrow>
            consoleError (main mk usage w options) =
              ''Archive contains duplicate files''
              # concat (map (collisionLines (buildFiles w options))
                          (collidingNames (buildFiles w options)))) \<and>
         distinct (collidingNames (buildFiles w options)) \<and>
         (name \<in> set (collidingNames (buildFiles w options)) \<longleftrightarrow>
            2 \<le> length (filter (\<lambda>p. filename p = name) (buildFiles w options))) \<and>
         sourcesOf name (buildFiles w options) =
           map path (filter (\<lambda>p. filename p = name) (buildFiles w options)) \<and>
         (postExtractMissing options \<longrightarrow>
            consoleError (main mk usage w options) =
              [''No post extraction script specified'']) \<and>
         (\<not> postExtractMissing options \<and> \<not> validateArchiveType options \<longrightarrow>
            consoleError (main mk usage w options) =
              [''Invalid archive type. Values tar or zip allowed'']) \<and>
         (\<not> postExtractMissing options \<and> validateArchiveType options \<and>
          \<not> validateCompressLevel (opt_compress_level options) \<longrightarrow>
            consoleError (main mk usage w options) =
              [''Invalid compression level. Values 0-9 allowed'']) \<and>
         (\<not> postExtractMissing options \<and> validateArchiveType options \<and>
          validateCompressLevel (opt_compress_level options) \<and>
          opt_pre_extract_file options = Some f \<and> readFile w f = None \<longrightarrow>
            consoleError (main mk usage w options) =
              [''Failed to read pre-extraction script '' @ [CHR 0x27] @ f @ [CHR 0x27]]) \<and>
         (\<not> postExtractMissing options \<and> validateArchiveType options \<and>
          validateCompressLevel (opt_compress_level options) \<and>
          scriptFileReadable w (opt_pre_extract_file options) \<and>
          opt_post_extract_file options = Some g \<and> readFile w g = None \<longrightarrow>
            consoleError (main mk usage w options) =
              [''Failed to read post-extraction script '' @ [CHR 0x27] @ g @ [CHR 0x27]])"
proof -
  have files: "opt_files options \<noteq> []"
    using assms(2) by (auto simp: buildFiles_def)
  obtain rs msgs where "main mk usage w options = failWith w rs msgs"
    using main_duplicates_fail [OF assms] by blast
  then have early: "exitCode (main mk usage w options) = 1 \<and>
         outputStream (main mk usage w options) = None \<and>
         assembled (main mk usage w options) = None \<and>
         stdoutData (main mk usage w options) = [] \<and>
         fsAfter (main mk usage w options) = fsys w"
    by (simp add: failWith_def)
  have report: "\<not> postExtractMissing options \<and> validateArchiveType options \<and>
          validateCompressLevel (opt_compress_level options) \<and>
          scriptFileReadable w (opt_pre_extract_file options) \<and>
          scriptFileReadable w (opt_post_extract_file options) \<longrightarrow>
            consoleError (main mk usage w options) =
              ''Archive contains duplicate files''
              # concat (map (collisionLines (buildFiles w options))
                          (collidingNames (buildFiles w options)))"
    using main_duplicates_report [OF assms, of mk usage] duplicateReport_eq [of "buildFiles w options"]
    by simp
  have once: "distinct (collidingNames (buildFiles w options))"
    by (simp add: collidingNames_def distinct_firstOccurrences)
  have named: "(name \<in> set (collidingNames (buildFiles w options)) \<longleftrightarrow>
            2 \<le> length (filter (\<lambda>p. filename p = name) (buildFiles w options))) \<and>
         sourcesOf name (buildFiles w options) =
           map path (filter (\<lambda>p. filename p = name) (buildFiles w options))"
    using collidingNames_iff [of name "buildFiles w options"] by (simp add: sourcesOf_def)
  have no_post: "postExtractMissing options \<longrightarrow>
            consoleError (main mk usage w options) =
              [''No post extraction script specified'']"
    using main_no_post_extract [OF assms(1) files, of mk usage w]
    by (simp add: failWith_def)
  have bad_type: "\<not> postExtractMissing options \<and> \<not> validateArchiveType options \<longrightarrow>
            consoleError (main mk usage w options) =
              [''Invalid archive type. Values tar or zip allowed'']"
    using main_bad_type [OF assms(1) files, of mk usage w]
    by (simp add: failWith_def)
  have bad_level: "\<not> postExtractMissing options \<and> validateArchiveType options \<and>
          \<not> validateCompressLevel (opt_compress_level options) \<longrightarrow>
            consoleError (main mk usage w options) =
              [''Invalid compression level. Values 0-9 allowed'']"
    using main_bad_level [OF assms(1) files, of mk usage w]
    by (simp add: failWith_def)
  have pre: "\<not> postExtractMissing options \<and> validateArchiveType options \<and>
          validateCompressLevel (opt_compress_level options) \<and>
          opt_pre_extract_file options = Some f \<and> readFile w f = None \<longrightarrow>
            consoleError (main mk usage w options) =
              [''Failed to read pre-extraction script '' @ [CHR 0x27] @ f @ [CHR 0x27]]"
    using main_pre_unreadable [OF assms(1) files, of f w mk usage]
    by (simp add: failWith_def)
  have post: "\<not> postExtractMissing options \<and> validateArchiveType options \<and>
          validateCompressLevel (opt_compress_level options) \<and>
          scriptFileReadable w (opt_pre_extract_file options) \<and>
          opt_post_extract_file options = Some g \<and> readFile w g = None \<longrightarrow>
            consoleError (main mk usage w options) =
              [''Failed to read post-extraction script '' @ [CHR 0x27] @ g @ [CHR 0x27]]"
    using main_post_unreadable [OF assms(1) files, of w g mk usage]
    by (simp add: failWith_def)
  from early report once named no_post bad_type bad_level pre post show ?thesis
    by blast
qed

text \<open>
  \<^verbatim>\<open>--post-extract "echo done" a.sh lib/../a.sh b.txt lib/b.txt install.sh\<close> in
  \<^verbatim>\<open>/work\<close>: \<^verbatim>\<open>a.sh\<close> and \<^verbatim>\<open>b.txt\<close> collide, \<^verbatim>\<open>install.sh\<close> does not.
\<close>

lemma colliding_files:
  "buildFiles sampleWorld collidingOptions =
     [\<lparr>filename = ''a.sh'', path = ''/work/a.sh'', mode = 493\<rparr>,
      \<lparr>filename = ''a.sh'', path = ''/work/a.sh'', mode = 493\<rparr>,
      \<lparr>filename = ''b.txt'', path = ''/work/b.txt'', mode = 420\<rparr>,
      \<lparr>filename = ''b.txt'', path = ''/work/lib/b.txt'', mode = 420\<rparr>,
      \<lparr>filename = ''install.sh'', path = ''/work/install.sh'', mode = 493\<rparr>]"
  by (simp add: buildFiles_def collidingOptions_def sampleOptions_def sampleWorld_def
      makeEntry_def fileMode_def path_parse_def isAbsolute_def path_resolve_def
      normalizeString_def normalizeSegments_def normalizeStep_def)

theorem duplicate_entry_names_rejected_witness:
  "\<not> opt_help collidingOptions \<and>
   \<not> distinct (map filename (buildFiles sampleWorld collidingOptions)) \<and>
   exitCode (main sampleAssembler ''usage'' sampleWorld collidingOptions) = 1 \<and>
   outputStream (main sampleAssembler ''usage'' sampleWorld collidingOptions) = None \<and>
   collidingNames (buildFiles sampleWorld collidingOptions) = [''a.sh'', ''b.txt''] \<and>
   consoleError (main sampleAssembler ''usage'' sampleWorld collidingOptions) =
     [''Archive contains duplicate files'',
      ''Archive would contain path a.sh 2 times'',
      ''  From /work/a.sh'',
      ''  From /work/a.sh'',
      ''Archive would contain path b.txt 2 times'',
      ''  From /work/b.txt'',
      ''  From /work/lib/b.txt''] \<and>
   \<not> opt_help (collidingOptions\<lparr>opt_post_extract_file := Some ''nowhere.sh''\<rparr>) \<and>
   \<not> distinct (map filename (buildFiles sampleWorld
       (collidingOptions\<lparr>opt_post_extract_file := Some ''nowhere.sh''\<rparr>))) \<and>
   readFile sampleWorld ''nowhere.sh'' = None \<and>
   consoleError (main sampleAssembler ''usage'' sampleWorld
       (collidingOptions\<lparr>opt_post_extract_file := Some ''nowhere.sh''\<rparr>)) =
     [''Failed to read post-extraction script '' @ [CHR 0x27] @ ''nowhere.sh'' @ [CHR 0x27]]"
proof -
  have start: "\<not> opt_help collidingOptions" "\<not> postExtractMissing collidingOptions"
    "validateArchiveType collidingOptions"
    "validateCompressLevel (opt_compress_level collidingOptions)"
    "scriptFileReadable sampleWorld (opt_pre_extract_file collidingOptions)"
    "scriptFileReadable sampleWorld (opt_post_extract_file collidingOptions)"
    by (simp_all add: collidingOptions_def sampleOptions_def postExtractMissing_def
        validateArchiveType_def validArchiveTypes_def validateCompressLevel_def
        scriptFileReadable_def)
  have names: "collidingNames (buildFiles sampleWorld collidingOptions) = [''a.sh'', ''b.txt'']"
    by (simp add: colliding_files collidingNames_def firstOccurrences_def sourcesOf_def)
  have lines: "collisionLines (buildFiles sampleWorld collidingOptions) ''a.sh'' =
       [''Archive would contain path a.sh 2 times'', ''  From /work/a.sh'', ''  From /work/a.sh'']"
    "collisionLines (buildFiles sampleWorld collidingOptions) ''b.txt'' =
       [''Archive would contain path b.txt 2 times'', ''  From /work/b.txt'',
        ''  From /work/lib/b.txt'']"
    by (simp_all add: colliding_files collisionLines_def sourcesOf_def showNat.simps)
  have dup: "\<not> distinct (map filename (buildFiles sampleWorld collidingOptions))"
    by (simp add: colliding_files)
  have first: "exitCode (main sampleAssembler ''usage'' sampleWorld collidingOptions) = 1 \<and>
     outputStream (main sampleAssembler ''usage'' sampleWorld collidingOptions) = None \<and>
     consoleError (main sampleAssembler ''usage'' sampleWorld collidingOptions) =
       [''Archive contains duplicate files'',
        ''Archive would contain path a.sh 2 times'',
        ''  From /work/a.sh'',
        ''  From /work/a.sh'',
        ''Archive would contain path b.txt 2 times'',
        ''  From /work/b.txt'',
        ''  From /work/lib/b.txt'']"
    using start
      duplicate_entry_names_rejected [OF start(1) dup, where mk = sampleAssembler
        and usage = "''usage''" and name = "''a.sh''" and f = "''install.sh''"
        and g = "''install.sh''"]
    by (simp add: names lines)
  let ?unread = "collidingOptions\<lparr>opt_post_extract_file := Some ''nowhere.sh''\<rparr>"
  have same: "buildFiles sampleWorld ?unread = buildFiles sampleWorld collidingOptions"
    by (simp add: buildFiles_def)
  have start2: "\<not> opt_help ?unread" "\<not> postExtractMissing ?unread"
    "validateArchiveType ?unread"
    "validateCompressLevel (opt_compress_level ?unread)"
    "scriptFileReadable sampleWorld (opt_pre_extract_file ?unread)"
    "opt_post_extract_file ?unread = Some ''nowhere.sh''"
    by (simp_all add: collidingOptions_def sampleOptions_def postExtractMissing_def
        validateArchiveType_def validArchiveTypes_def validateCompressLevel_def
        scriptFileReadable_def)
  have dup2: "\<not> distinct (map filename (buildFiles sampleWorld ?unread))"
    unfolding same by (rule dup)
  have nowhere: "readFile sampleWorld ''nowhere.sh'' = None"
    by (simp add: readFile_def sampleWorld_def path_resolve_def isAbsolute_def
        normalizeString_def normalizeSegments_def normalizeStep_def)
  have second: "consoleError (main sampleAssembler ''usage'' sampleWorld ?unread) =
     [''Failed to read post-extraction script '' @ [CHR 0x27] @ ''nowhere.sh'' @ [CHR 0x27]]"
    using start2 nowhere
      duplicate_entry_names_rejected [OF start2(1) dup2, where mk = sampleAssembler
        and usage = "''usage''" and name = "''a.sh''" and f = "''install.sh''"
        and g = "''nowhere.sh''"]
    by blast
  from start(1) dup names first start2(1) dup2 nowhere second show ?thesis
    by blast
qed

text \<open>
  Claim C3 as stated, for every file list with colliding names, fails in two runs over
  the colliding list above. With \<^verbatim>\<open>--help\<close> the run exits with status 0 and reports
  nothing. With \<^verbatim>\<open>--type rar\<close> the run exits with status 1 at the archive type check,
  and the report is that check's line: no colliding name is listed.
\<close>

theorem duplicates_unreported_in_help_and_invalid_runs:
  "\<not> distinct (map filename (buildFiles sampleWorld (collidingOptions\<lparr>opt_help := True\<rparr>))) \<and>
   exitCode (main sampleAssembler ''usage'' sampleWorld (collidingOptions\<lparr>opt_help := True\<rparr>)) = 0 \<and>
   consoleError (main sampleAssembler ''usage'' sampleWorld (collidingOptions\<lparr>opt_help := True\<rparr>)) =
     [] \<and>
   \<not> distinct (map filename (buildFiles sampleWorld (collidingOptions\<lparr>opt_type := ''rar''\<rparr>))) \<and>
   exitCode (main sampleAssembler ''usage'' sampleWorld (collidingOptions\<lparr>opt_type := ''rar''\<rparr>)) =
     1 \<and>
   consoleError (main sampleAssembler ''usage'' sampleWorld (collidingOptions\<lparr>opt_type := ''rar''\<rparr>)) =
     [''Invalid archive type. Values tar or zip allowed'']"
proof -
  have same: "buildFiles sampleWorld (collidingOptions\<lparr>opt_help := True\<rparr>) =
        buildFiles sampleWorld collidingOptions"
      "buildFiles sampleWorld (collidingOptions\<lparr>opt_type := ''rar''\<rparr>) =
        buildFiles sampleWorld collidingOptions"
    by (simp_all add: buildFiles_def)
  have runs: "exitCode (main sampleAssembler ''usage'' sampleWorld
        (collidingOptions\<lparr>opt_help := True\<rparr>)) = 0"
    "consoleError (main sampleAssembler ''usage'' sampleWorld
        (collidingOptions\<lparr>opt_help := True\<rparr>)) = []"
    "exitCode (main sampleAssembler ''usage'' sampleWorld
        (collidingOptions\<lparr>opt_type := ''rar''\<rparr>)) = 1"
    "consoleError (main sampleAssembler ''usage'' sampleWorld
        (collidingOptions\<lparr>opt_type := ''rar''\<rparr>)) =
      [''Invalid archive type. Values tar or zip allowed'']"
    by (simp_all add: main_def collidingOptions_def sampleOptions_def postExtractMissing_def
        validateArchiveType_def validArchiveTypes_def failWith_def)
  show ?thesis
    unfolding same by (simp add: runs colliding_files)
qed

subsection \<open>Failure and the output sink\<close>

text \<open>A run that passes every check reaches the assembler, with the scripts read.\<close>

lemma main_validated:
  assumes "\<not> opt_help options" and "validationPasses w options"
  shows "\<exists>options2.
           readPostExtract w (case readPreExtract w options of Inr o1 \<Rightarrow> o1 | Inl _ \<Rightarrow> options) =
             Inr options2 \<and>
           opt_output options2 = opt_output options \<and>
           scriptOptions options2 = expectedScriptOptions w options \<and>
           main mk usage w options =
             assemble mk w (preReads options @ postReads options) options2
               (buildFiles w options)"
proof -
  from assms(2) obtain options1 where pre: "readPreExtract w options = Inr options1"
    using readPreExtract_readable by (auto simp: validationPasses_def)
  then have keep1: "opt_post_extract_file options1 = opt_post_extract_file options"
    "opt_output options1 = opt_output options"
    using readPreExtract_keeps [OF pre] by simp_all
  with assms(2) obtain options2 where post: "readPostExtract w options1 = Inr options2"
    using readPostExtract_readable [of w options1] by (auto simp: validationPasses_def)
  have keep2: "opt_output options2 = opt_output options"
    using readPostExtract_keeps [OF post] keep1 by simp
  have same: "buildFiles w options2 = buildFiles w options"
    using buildFiles_after_reads [OF pre post] .
  have "length (entryCountOf (buildFiles w options)) = length (buildFiles w options)"
    using assms(2) by (simp add: entryCountOf_length validationPasses_def)
  then have "main mk usage w options =
      assemble mk w (preReads options @ postReads options) options2 (buildFiles w options)"
    using assms pre post same
    by (simp add: main_def validationPasses_def Let_def)
  with pre post keep2 scriptOptions_after_reads [OF pre post] show ?thesis by simp
qed

text \<open>
  The three ends of a run that passes every check, with the answer of the assembler
  described from the options.
\<close>

lemma assemblerAnswer_buildFiles:
  "assemblerAnswer mk w options =
     mk (fsAtAssembly w options) (expectedScriptOptions w options) (buildFiles w options)"
  by (simp add: assemblerAnswer_def buildFiles_map)

lemma main_passes_stdout:
  assumes "\<not> opt_help options" and "validationPasses w options"
    and "opt_output options = None"
  shows "main mk usage w options =
     \<lparr>exitCode = (if rejected (assemblerAnswer mk w options) then 1 else 0),
      consoleLog = [], consoleError = [],
      filesRead = preReads options @ postReads options,
      outputStream = Some Stdout,
      assembled = Some (expectedScriptOptions w options, buildFiles w options),
      assemblerResult = Some (assemblerAnswer mk w options),
      stdoutData = written (assemblerAnswer mk w options),
      fsAfter = fsys w, thrown = None\<rparr>"
proof -
  obtain options2 where
    out: "opt_output options2 = opt_output options" and
    so: "scriptOptions options2 = expectedScriptOptions w options" and
    run: "main mk usage w options =
           assemble mk w (preReads options @ postReads options) options2
             (buildFiles w options)"
    using main_validated [OF assms(1,2), of mk usage] by blast
  have "opt_output options2 = None"
    using out assms(3) by simp
  then show ?thesis
    unfolding run
    by (simp add: assemble_stdout so assemblerAnswer_buildFiles fsAtAssembly_def assms(3))
qed

lemma main_passes_file:
  assumes "\<not> opt_help options" and "validationPasses w options"
    and "opt_output options = Some out" and "writable w (path_resolve (cwd w) out)"
  shows "main mk usage w options =
     \<lparr>exitCode = (if rejected (assemblerAnswer mk w options) then 1 else 0),
      consoleLog = [], consoleError = [],
      filesRead = preReads options @ postReads options,
      outputStream = Some (FileStream (path_resolve (cwd w) out)),
      assembled = Some (expectedScriptOptions w options, buildFiles w options),
      assemblerResult = Some (assemblerAnswer mk w options),
      stdoutData = [],
      fsAfter = (fsys w)(path_resolve (cwd w) out \<mapsto> written (assemblerAnswer mk w options)),
      thrown = None\<rparr>"
proof -
  obtain options2 where
    out: "opt_output options2 = opt_output options" and
    so: "scriptOptions options2 = expectedScriptOptions w options" and
    run: "main mk usage w options =
           assemble mk w (preReads options @ postReads options) options2
             (buildFiles w options)"
    using main_validated [OF assms(1,2), of mk usage] by blast
  have "opt_output options2 = Some out"
    using out assms(3) by simp
  then show ?thesis
    unfolding run
    by (simp add: assemble_file [OF _ assms(4)] so assemblerAnswer_buildFiles
        fsAtAssembly_def assms(3))
qed

lemma main_passes_unopenable:
  assumes "\<not> opt_help options" and "validationPasses w options"
    and "opt_output options = Some out" and "\<not> writable w (path_resolve (cwd w) out)"
  shows "main mk usage w options =
     \<lparr>exitCode = 1,
      consoleLog = [], consoleError = [],
      filesRead = preReads options @ postReads options,
      outputStream = Some (FileStream (path_resolve (cwd w) out)),
      assembled = Some (expectedScriptOptions w options, buildFiles w options),
      assemblerResult = None,
      stdoutData = [],
      fsAfter = fsys w,
      thrown = Some (OPEN_FAILED (path_resolve (cwd w) out))\<rparr>"
proof -
  obtain options2 where
    out: "opt_output options2 = opt_output options" and
    so: "scriptOptions options2 = expectedScriptOptions w options" and
    run: "main mk usage w options =
           assemble mk w (preReads options @ postReads options) options2
             (buildFiles w options)"
    using main_validated [OF assms(1,2), of mk usage] by blast
  have "opt_output options2 = Some out"
    using out assms(3) by simp
  then show ?thesis
    unfolding run
    by (simp add: assemble_unopenable [OF _ assms(4)] so)
qed

text \<open>A run that fails a check stops with an error line before the stream is created.\<close>

lemma main_not_validated:
  assumes "\<not> opt_help options" and "\<not> validationPasses w options"
  shows "\<exists>rs msgs. msgs \<noteq> [] \<and> main mk usage w options = failWith w rs msgs"
proof -
  consider
    (flags) "opt_files options = [] \<or> postExtractMissing options \<or>
       \<not> validateArchiveType options \<or> \<not> validateCompressLevel (opt_compress_level options)"
    | (pre) "opt_files options \<noteq> []" "\<not> postExtractMissing options"
       "validateArchiveType options" "validateCompressLevel (opt_compress_level options)"
       "\<not> scriptFileReadable w (opt_pre_extract_file options)"
    | (post) "opt_files options \<noteq> []" "\<not> postExtractMissing options"
       "validateArchiveType options" "validateCompressLevel (opt_compress_level options)"
       "scriptFileReadable w (opt_pre_extract_file options)"
       "\<not> scriptFileReadable w (opt_post_extract_file options)"
    | (names) "opt_files options \<noteq> []" "\<not> postExtractMissing options"
       "validateArchiveType options" "validateCompressLevel (opt_compress_level options)"
       "scriptFileReadable w (opt_pre_extract_file options)"
       "scriptFileReadable w (opt_post_extract_file options)"
       "\<not> distinct (map filename (buildFiles w options))"
    using assms(2) unfolding validationPasses_def by blast
  moreover have one: "\<exists>rs msgs. msgs \<noteq> [] \<and> failWith w a [m] = failWith w rs msgs" for a m
  proof (intro exI conjI)
    show "[m] \<noteq> []" by simp
    show "failWith w a [m] = failWith w a [m]" by simp
  qed
  ultimately show ?thesis
  proof cases
    case flags
    with assms(1) one show ?thesis
      by (auto simp: main_def)
  next
    case pre
    then obtain msg where "readPreExtract w options = Inl msg"
      by (auto simp: scriptFileReadable_def readPreExtract_def split: option.splits)
    with assms(1) pre one show ?thesis
      by (simp add: main_def)
  next
    case post
    obtain options1 where o1: "readPreExtract w options = Inr options1"
      using readPreExtract_readable [OF post(5)] by blast
    then have "opt_post_extract_file options1 = opt_post_extract_file options"
      using readPreExtract_keeps by blast
    with post(6) obtain msg where "readPostExtract w options1 = Inl msg"
      by (auto simp: scriptFileReadable_def readPostExtract_def split: option.splits)
    with assms(1) post o1 one show ?thesis
      by (simp add: main_def)
  next
    case names
    have "consoleError (main mk usage w options) =
        duplicateReport (entryCountOf (buildFiles w options))"
      using main_duplicates_report [OF assms(1) names(7) names(2-6)] .
    moreover obtain rs msgs where "main mk usage w options = failWith w rs msgs"
      using main_duplicates_fail [OF assms(1) names(7)] by blast
    ultimately show ?thesis
      by (auto simp: failWith_def duplicateReport_def)
  qed
qed

text \<open>The sample run that passes every check and whose input file is missing.\<close>

lemma missing_input_passes:
  "\<not> opt_help missingInputOptions \<and> validationPasses sampleWorld missingInputOptions \<and>
   opt_output missingInputOptions = Some ''out.sh'' \<and>
   path_resolve (cwd sampleWorld) ''out.sh'' = ''/work/out.sh'' \<and>
   writable sampleWorld ''/work/out.sh'' \<and>
   buildFiles sampleWorld missingInputOptions =
     [\<lparr>filename = ''missing.txt'', path = ''/work/missing.txt'', mode = 420\<rparr>]"
proof -
  have res: "path_resolve ''/work'' ''missing.txt'' = ''/work/missing.txt''"
            "path_resolve ''/work'' ''out.sh'' = ''/work/out.sh''"
    by (simp_all add: path_resolve_def isAbsolute_def normalizeString_def
        normalizeSegments_def normalizeStep_def)
  have files: "buildFiles sampleWorld missingInputOptions =
      [\<lparr>filename = ''missing.txt'', path = ''/work/missing.txt'', mode = 420\<rparr>]"
    by (simp add: buildFiles_def missingInputOptions_def sampleOptions_def sampleWorld_def
        makeEntry_def fileMode_def path_parse_def isAbsolute_def res)
  have checks: "\<not> opt_help missingInputOptions" "opt_files missingInputOptions \<noteq> []"
    "\<not> postExtractMissing missingInputOptions" "validateArchiveType missingInputOptions"
    "validateCompressLevel (opt_compress_level missingInputOptions)"
    "scriptFileReadable sampleWorld (opt_pre_extract_file missingInputOptions)"
    "scriptFileReadable sampleWorld (opt_post_extract_file missingInputOptions)"
    "opt_output missingInputOptions = Some ''out.sh''"
    "cwd sampleWorld = ''/work''" "writable sampleWorld ''/work/out.sh''"
    by (simp_all add: missingInputOptions_def sampleOptions_def postExtractMissing_def
        validateArchiveType_def validArchiveTypes_def validateCompressLevel_def
        scriptFileReadable_def sampleWorld_def)
  show ?thesis
    by (simp add: validationPasses_def checks files res)
qed

lemma missing_input_answer:
  "assemblerAnswer sampleAssembler sampleWorld missingInputOptions =
     \<lparr>written = [], rejected = True\<rparr>"
proof -
  have "fsAtAssembly sampleWorld missingInputOptions =
      (fsys sampleWorld)(''/work/out.sh'' \<mapsto> [])"
    using missing_input_passes by (simp add: fsAtAssembly_def)
  then show ?thesis
    using missing_input_passes
    by (simp add: assemblerAnswer_buildFiles sampleAssembler_def sampleWorld_def)
qed

text \<open>The sample run whose output file is in a directory that does not exist.\<close>

lemma unopenable_output_passes:
  "\<not> opt_help unopenableOutputOptions \<and> validationPasses sampleWorld unopenableOutputOptions \<and>
   opt_output unopenableOutputOptions = Some ''nodir/out.sh'' \<and>
   path_resolve (cwd sampleWorld) ''nodir/out.sh'' = ''/work/nodir/out.sh'' \<and>
   \<not> writable sampleWorld ''/work/nodir/out.sh''"
proof -
  have res: "path_resolve ''/work'' ''a.sh'' = ''/work/a.sh''"
            "path_resolve ''/work'' ''b.txt'' = ''/work/b.txt''"
            "path_resolve ''/work'' ''nodir/out.sh'' = ''/work/nodir/out.sh''"
    by (simp_all add: path_resolve_def isAbsolute_def normalizeString_def
        normalizeSegments_def normalizeStep_def)
  have files: "map filename (buildFiles sampleWorld unopenableOutputOptions) =
      [''a.sh'', ''b.txt'']"
    by (simp add: buildFiles_def unopenableOutputOptions_def sampleOptions_def
        sampleWorld_def makeEntry_def fileMode_def path_parse_def isAbsolute_def res)
  have checks: "\<not> opt_help unopenableOutputOptions" "opt_files unopenableOutputOptions \<noteq> []"
    "\<not> postExtractMissing unopenableOutputOptions"
    "validateArchiveType unopenableOutputOptions"
    "validateCompressLevel (opt_compress_level unopenableOutputOptions)"
    "scriptFileReadable sampleWorld (opt_pre_extract_file unopenableOutputOptions)"
    "scriptFileReadable sampleWorld (opt_post_extract_file unopenableOutputOptions)"
    "opt_output unopenableOutputOptions = Some ''nodir/out.sh''"
    "cwd sampleWorld = ''/work''" "\<not> writable sampleWorld ''/work/nodir/out.sh''"
    by (simp_all add: unopenableOutputOptions_def sampleOptions_def postExtractMissing_def
        validateArchiveType_def validArchiveTypes_def validateCompressLevel_def
        scriptFileReadable_def sampleWorld_def)
  show ?thesis
    by (simp add: validationPasses_def checks files res)
qed

text \<open>
  Claim C2, as the code has it, for a run without \<^verbatim>\<open>--help\<close>. The failures are of three
  kinds, each said on the options and the file system. A check made before the output
  stream is created fails (no file given, post-extraction text missing, bad type or
  level, unreadable script file, duplicate entry names): the status is 1, an error
  line is printed, no stream is created, the assembler is not called, nothing is
  written and the file system is unchanged. Every check passes and the named output
  file cannot be opened: the status is 1 and the file system is unchanged. Every check
  passes and the output can be opened: the stream is created before the assembler
  runs, the status is 1 exactly when the assembler rejects, and a named output file
  holds afterwards what the assembler wrote, before it failed when it did, whatever
  the file held before; with no \<^verbatim>\<open>--output\<close> the file system is unchanged and
  standard output received those bytes. Last, a command line that the parser refuses
  (an undefined option, a singular option set twice) ends the run with status 1 before
  anything is printed or written.
\<close>

theorem failing_run_and_output_sink:
  assumes "\<not> opt_help options"
  shows
   "((opt_files options = [] \<or>
      opt_post_extract options = None \<or>
      (opt_post_extract options = Some [] \<and> opt_post_extract_file options = None) \<or>
      (opt_type options \<noteq> ''tar'' \<and> opt_type options \<noteq> ''zip'') \<or>
      (\<exists>v. opt_compress_level options = Some v \<and>
           (\<forall>n::nat. n \<le> 9 \<longrightarrow> v \<noteq> Finite (of_nat n))) \<or>
      (\<exists>f. opt_pre_extract_file options = Some f \<and> fsys w (path_resolve (cwd w) f) = None) \<or>
      (\<exists>f. opt_post_extract_file options = Some f \<and> fsys w (path_resolve (cwd w) f) = None) \<or>
      \<not> distinct (map filename (buildFiles w options))) \<longrightarrow>
       exitCode (main mk usage w options) = 1 \<and>
       consoleError (main mk usage w options) \<noteq> [] \<and>
       outputStream (main mk usage w options) = None \<and>
       assembled (main mk usage w options) = None \<and>
       stdoutData (main mk usage w options) = [] \<and>
       fsAfter (main mk usage w options) = fsys w) \<and>
    (\<not> (opt_files options = [] \<or>
      opt_post_extract options = None \<or>
      (opt_post_extract options = Some [] \<and> opt_post_extract_file options = None) \<or>
      (opt_type options \<noteq> ''tar'' \<and> opt_type options \<noteq> ''zip'') \<or>
      (\<exists>v. opt_compress_level options = Some v \<and>
           (\<forall>n::nat. n \<le> 9 \<longrightarrow> v \<noteq> Finite (of_nat n))) \<or>
      (\<exists>f. opt_pre_extract_file options = Some f \<and> fsys w (path_resolve (cwd w) f) = None) \<or>
      (\<exists>f. opt_post_extract_file options = Some f \<and> fsys w (path_resolve (cwd w) f) = None) \<or>
      \<not> distinct (map filename (buildFiles w options))) \<longrightarrow>
       (case opt_output options of
          None \<Rightarrow>
            exitCode (main mk usage w options) =
              (if rejected (assemblerAnswer mk w options) then 1 else 0) \<and>
            outputStream (main mk usage w options) = Some Stdout \<and>
            stdoutData (main mk usage w options) = written (assemblerAnswer mk w options) \<and>
            fsAfter (main mk usage w options) = fsys w
        | Some out \<Rightarrow>
            if writable w (path_resolve (cwd w) out) then
              exitCode (main mk usage w options) =
                (if rejected (assemblerAnswer mk w options) then 1 else 0) \<and>
              outputStream (main mk usage w options) =
                Some (FileStream (path_resolve (cwd w) out)) \<and>
              stdoutData (main mk usage w options) = [] \<and>
              fsAfter (main mk usage w options) =
                (fsys w)(path_resolve (cwd w) out \<mapsto> written (assemblerAnswer mk w options))
            else
              exitCode (main mk usage w options) = 1 \<and>
              thrown (main mk usage w options) =
                Some (OPEN_FAILED (path_resolve (cwd w) out)) \<and>
              assemblerResult (main mk usage w options) = None \<and>
              stdoutData (main mk usage w options) = [] \<and>
              fsAfter (main mk usage w options) = fsys w)) \<and>
    ((\<exists>s. UnknownArg s \<in> set args) \<or> repeatsOption args \<longrightarrow>
       exitCode (program mk usage w args) = 1 \<and>
       consoleLog (program mk usage w args) = [] \<and>
       outputStream (program mk usage w args) = None \<and>
       assembled (program mk usage w args) = None \<and>
       stdoutData (program mk usage w args) = [] \<and>
       fsAfter (program mk usage w args) = fsys w)"
proof (intro conjI impI)
  assume "opt_files options = [] \<or>
      opt_post_extract options = None \<or>
      (opt_post_extract options = Some [] \<and> opt_post_extract_file options = None) \<or>
      (opt_type options \<noteq> ''tar'' \<and> opt_type options \<noteq> ''zip'') \<or>
      (\<exists>v. opt_compress_level options = Some v \<and>
           (\<forall>n::nat. n \<le> 9 \<longrightarrow> v \<noteq> Finite (of_nat n))) \<or>
      (\<exists>f. opt_pre_extract_file options = Some f \<and> fsys w (path_resolve (cwd w) f) = None) \<or>
      (\<exists>f. opt_post_extract_file options = Some f \<and> fsys w (path_resolve (cwd w) f) = None) \<or>
      \<not> distinct (map filename (buildFiles w options))"
  then have "\<not> validationPasses w options"
    by (simp only: some_check_fails)
  then obtain rs msgs where
    failed: "msgs \<noteq> []" "main mk usage w options = failWith w rs msgs"
    using main_not_validated [OF assms, of w mk usage] by blast
  show "exitCode (main mk usage w options) = 1"
    "consoleError (main mk usage w options) \<noteq> []"
    "outputStream (main mk usage w options) = None"
    "assembled (main mk usage w options) = None"
    "stdoutData (main mk usage w options) = []"
    "fsAfter (main mk usage w options) = fsys w"
    using failed by (simp_all add: failWith_def)
next
  assume "\<not> (opt_files options = [] \<or>
      opt_post_extract options = None \<or>
      (opt_post_extract options = Some [] \<and> opt_post_extract_file options = None) \<or>
      (opt_type options \<noteq> ''tar'' \<and> opt_type options \<noteq> ''zip'') \<or>
      (\<exists>v. opt_compress_level options = Some v \<and>
           (\<forall>n::nat. n \<le> 9 \<longrightarrow> v \<noteq> Finite (of_nat n))) \<or>
      (\<exists>f. opt_pre_extract_file options = Some f \<and> fsys w (path_resolve (cwd w) f) = None) \<or>
      (\<exists>f. opt_post_extract_file options = Some f \<and> fsys w (path_resolve (cwd w) f) = None) \<or>
      \<not> distinct (map filename (buildFiles w options)))"
  then have passes: "validationPasses w options"
    using some_check_fails [of w options] by blast
  show "case opt_output options of
          None \<Rightarrow>
            exitCode (main mk usage w options) =
              (if rejected (assemblerAnswer mk w options) then 1 else 0) \<and>
            outputStream (main mk usage w options) = Some Stdout \<and>
            stdoutData (main mk usage w options) = written (assemblerAnswer mk w options) \<and>
            fsAfter (main mk usage w options) = fsys w
        | Some out \<Rightarrow>
            if writable w (path_resolve (cwd w) out) then
              exitCode (main mk usage w options) =
                (if rejected (assemblerAnswer mk w options) then 1 else 0) \<and>
              outputStream (main mk usage w options) =
                Some (FileStream (path_resolve (cwd w) out)) \<and>
              stdoutData (main mk usage w options) = [] \<and>
              fsAfter (main mk usage w options) =
                (fsys w)(path_resolve (cwd w) out \<mapsto> written (assemblerAnswer mk w options))
            else
              exitCode (main mk usage w options) = 1 \<and>
              thrown (main mk usage w options) =
                Some (OPEN_FAILED (path_resolve (cwd w) out)) \<and>
              assemblerResult (main mk usage w options) = None \<and>
              stdoutData (main mk usage w options) = [] \<and>
              fsAfter (main mk usage w options) = fsys w"
  proof (cases "opt_output options")
    case None
    then show ?thesis
      by (simp add: main_passes_stdout [OF assms passes None])
  next
    case (Some out)
    show ?thesis
    proof (cases "writable w (path_resolve (cwd w) out)")
      case True
      then show ?thesis
        by (simp add: Some main_passes_file [OF assms passes Some True])
    next
      case False
      then show ?thesis
        by (simp add: Some main_passes_unopenable [OF assms passes Some False])
    qed
  qed
next
  assume "(\<exists>s. UnknownArg s \<in> set args) \<or> repeatsOption args"
  then obtain e where "program mk usage w args = uncaught w e"
    using program_parse_failure by blast
  then show "exitCode (program mk usage w args) = 1"
    "consoleLog (program mk usage w args) = []"
    "outputStream (program mk usage w args) = None"
    "assembled (program mk usage w args) = None"
    "stdoutData (program mk usage w args) = []"
    "fsAfter (program mk usage w args) = fsys w"
    by (simp_all add: uncaught_def)
qed

text \<open>
  Runs in \<^verbatim>\<open>/work\<close>. \<^verbatim>\<open>--post-extract "echo done" --output out.sh missing.txt\<close>,
  where \<^verbatim>\<open>out.sh\<close> holds a previous build and \<^verbatim>\<open>missing.txt\<close> does not exist: every
  check passes, the assembler rejects, the status is 1 and \<^verbatim>\<open>out.sh\<close> holds what the
  assembler wrote. \<^verbatim>\<open>--post-extract "echo done" --output nodir/out.sh a.sh b.txt\<close>, where
  \<^verbatim>\<open>nodir\<close> does not exist: the status is 1 and no file appears. An undefined option
  \<^verbatim>\<open>--bogus\<close>: the status is 1. The first run with \<^verbatim>\<open>--type rar\<close>: the status is 1, no
  stream is created and \<^verbatim>\<open>out.sh\<close> is untouched.
\<close>

theorem failing_run_and_output_sink_witness:
  "\<not> opt_help missingInputOptions \<and>
   exitCode (main sampleAssembler ''usage'' sampleWorld missingInputOptions) = 1 \<and>
   outputStream (main sampleAssembler ''usage'' sampleWorld missingInputOptions) =
     Some (FileStream ''/work/out.sh'') \<and>
   fsAfter (main sampleAssembler ''usage'' sampleWorld missingInputOptions) =
     (fsys sampleWorld)(''/work/out.sh'' \<mapsto> []) \<and>
   \<not> opt_help unopenableOutputOptions \<and>
   exitCode (main sampleAssembler ''usage'' sampleWorld unopenableOutputOptions) = 1 \<and>
   thrown (main sampleAssembler ''usage'' sampleWorld unopenableOutputOptions) =
     Some (OPEN_FAILED ''/work/nodir/out.sh'') \<and>
   fsAfter (main sampleAssembler ''usage'' sampleWorld unopenableOutputOptions) =
     fsys sampleWorld \<and>
   exitCode (program sampleAssembler ''usage'' sampleWorld
     [PostExtractArg ''echo done'', UnknownArg ''--bogus'', FilesArg ''a.sh'']) = 1 \<and>
   \<not> opt_help (missingInputOptions\<lparr>opt_type := ''rar''\<rparr>) \<and>
   opt_type (missingInputOptions\<lparr>opt_type := ''rar''\<rparr>) \<noteq> ''tar'' \<and>
   opt_type (missingInputOptions\<lparr>opt_type := ''rar''\<rparr>) \<noteq> ''zip'' \<and>
   exitCode (main sampleAssembler ''usage'' sampleWorld
     (missingInputOptions\<lparr>opt_type := ''rar''\<rparr>)) = 1 \<and>
   outputStream (main sampleAssembler ''usage'' sampleWorld
     (missingInputOptions\<lparr>opt_type := ''rar''\<rparr>)) = None \<and>
   fsAfter (main sampleAssembler ''usage'' sampleWorld
     (missingInputOptions\<lparr>opt_type := ''rar''\<rparr>)) = fsys sampleWorld"
proof -
  have nohelp: "\<not> opt_help missingInputOptions" "\<not> opt_help unopenableOutputOptions"
    using missing_input_passes unopenable_output_passes by simp_all
  have passes1: "\<not> (\<not> validationPasses sampleWorld missingInputOptions)"
    using missing_input_passes by simp
  have passes2: "\<not> (\<not> validationPasses sampleWorld unopenableOutputOptions)"
    using unopenable_output_passes by simp
  have one: "exitCode (main sampleAssembler ''usage'' sampleWorld missingInputOptions) = 1 \<and>
     outputStream (main sampleAssembler ''usage'' sampleWorld missingInputOptions) =
       Some (FileStream ''/work/out.sh'') \<and>
     fsAfter (main sampleAssembler ''usage'' sampleWorld missingInputOptions) =
       (fsys sampleWorld)(''/work/out.sh'' \<mapsto> [])"
    using failing_run_and_output_sink [OF nohelp(1), where w = sampleWorld
      and mk = sampleAssembler and usage = "''usage''" and args = "[]"]
      passes1 missing_input_passes
    unfolding some_check_fails [symmetric]
    by (simp add: missing_input_answer)
  have two: "exitCode (main sampleAssembler ''usage'' sampleWorld unopenableOutputOptions) = 1 \<and>
     thrown (main sampleAssembler ''usage'' sampleWorld unopenableOutputOptions) =
       Some (OPEN_FAILED ''/work/nodir/out.sh'') \<and>
     fsAfter (main sampleAssembler ''usage'' sampleWorld unopenableOutputOptions) =
       fsys sampleWorld"
    using failing_run_and_output_sink [OF nohelp(2), where w = sampleWorld
      and mk = sampleAssembler and usage = "''usage''" and args = "[]"]
      passes2 unopenable_output_passes
    unfolding some_check_fails [symmetric]
    by simp
  have three: "exitCode (program sampleAssembler ''usage'' sampleWorld
     [PostExtractArg ''echo done'', UnknownArg ''--bogus'', FilesArg ''a.sh'']) = 1"
    using failing_run_and_output_sink [OF nohelp(1), where w = sampleWorld
      and mk = sampleAssembler and usage = "''usage''"
      and args = "[PostExtractArg ''echo done'', UnknownArg ''--bogus'', FilesArg ''a.sh'']"]
    by simp
  let ?rar = "missingInputOptions\<lparr>opt_type := ''rar''\<rparr>"
  have rar: "\<not> opt_help ?rar" "opt_type ?rar \<noteq> ''tar''" "opt_type ?rar \<noteq> ''zip''"
    by (simp_all add: missingInputOptions_def sampleOptions_def)
  have four: "exitCode (main sampleAssembler ''usage'' sampleWorld ?rar) = 1 \<and>
     outputStream (main sampleAssembler ''usage'' sampleWorld ?rar) = None \<and>
     fsAfter (main sampleAssembler ''usage'' sampleWorld ?rar) = fsys sampleWorld"
    using failing_run_and_output_sink [OF rar(1), where w = sampleWorld
      and mk = sampleAssembler and usage = "''usage''" and args = "[]"] rar(2,3)
    by blast
  from nohelp one two three rar four show ?thesis by simp
qed

text \<open>
  Claim C2 as stated fails in the first of these runs, and with any assembler. Whatever
  the assembler does, the stream on \<^verbatim>\<open>out.sh\<close> is created before it runs, the status is
  1 exactly when it rejects, and \<^verbatim>\<open>out.sh\<close> holds afterwards what it wrote and nothing
  of the previous build. The assembler is a parameter of the script; with one that
  rejects when it cannot read an input before it has written a byte, the status is 1
  and the output file, which held a previous build, is empty afterwards.
\<close>

theorem output_file_truncated_on_assembler_failure:
  "(\<forall>mk. exitCode (main mk ''usage'' sampleWorld missingInputOptions) =
           (if rejected (mk ((fsys sampleWorld)(''/work/out.sh'' \<mapsto> []))
                 (scriptOptions missingInputOptions)
                 [\<lparr>filename = ''missing.txt'', path = ''/work/missing.txt'', mode = 420\<rparr>])
            then 1 else 0) \<and>
         outputStream (main mk ''usage'' sampleWorld missingInputOptions) =
           Some (FileStream ''/work/out.sh'') \<and>
         fsAfter (main mk ''usage'' sampleWorld missingInputOptions) ''/work/out.sh'' =
           Some (written (mk ((fsys sampleWorld)(''/work/out.sh'' \<mapsto> []))
                 (scriptOptions missingInputOptions)
                 [\<lparr>filename = ''missing.txt'', path = ''/work/missing.txt'', mode = 420\<rparr>]))) \<and>
   fsys sampleWorld ''/work/out.sh'' = Some ''previous build'' \<and>
   fsys sampleWorld ''/work/missing.txt'' = None \<and>
   exitCode (main sampleAssembler ''usage'' sampleWorld missingInputOptions) = 1 \<and>
   assemblerResult (main sampleAssembler ''usage'' sampleWorld missingInputOptions) =
     Some \<lparr>written = [], rejected = True\<rparr> \<and>
   outputStream (main sampleAssembler ''usage'' sampleWorld missingInputOptions) =
     Some (FileStream ''/work/out.sh'') \<and>
   fsAfter (main sampleAssembler ''usage'' sampleWorld missingInputOptions) ''/work/out.sh'' =
     Some []"
proof -
  have run: "main mk ''usage'' sampleWorld missingInputOptions =
     \<lparr>exitCode = (if rejected (assemblerAnswer mk sampleWorld missingInputOptions) then 1 else 0),
      consoleLog = [], consoleError = [],
      filesRead = preReads missingInputOptions @ postReads missingInputOptions,
      outputStream = Some (FileStream ''/work/out.sh''),
      assembled = Some (expectedScriptOptions sampleWorld missingInputOptions,
        buildFiles sampleWorld missingInputOptions),
      assemblerResult = Some (assemblerAnswer mk sampleWorld missingInputOptions),
      stdoutData = [],
      fsAfter = (fsys sampleWorld)(''/work/out.sh'' \<mapsto>
        written (assemblerAnswer mk sampleWorld missingInputOptions)),
      thrown = None\<rparr>" for mk
    using main_passes_file [of missingInputOptions sampleWorld "''out.sh''" mk "''usage''"]
      missing_input_passes
    by simp
  have so: "expectedScriptOptions sampleWorld missingInputOptions =
      scriptOptions missingInputOptions"
    by (simp add: expectedScriptOptions_def scriptOptions_def scriptTextFor_def
        missingInputOptions_def sampleOptions_def)
  have answer: "assemblerAnswer mk sampleWorld missingInputOptions =
      mk ((fsys sampleWorld)(''/work/out.sh'' \<mapsto> [])) (scriptOptions missingInputOptions)
        [\<lparr>filename = ''missing.txt'', path = ''/work/missing.txt'', mode = 420\<rparr>]" for mk
    using missing_input_passes
    by (simp add: assemblerAnswer_buildFiles fsAtAssembly_def so)
  have files: "fsys sampleWorld ''/work/out.sh'' = Some ''previous build''"
    "fsys sampleWorld ''/work/missing.txt'' = None"
    by (simp_all add: sampleWorld_def)
  have sample: "assemblerAnswer sampleAssembler sampleWorld missingInputOptions =
      \<lparr>written = [], rejected = True\<rparr>"
    by (rule missing_input_answer)
  have every: "\<forall>mk. exitCode (main mk ''usage'' sampleWorld missingInputOptions) =
           (if rejected (mk ((fsys sampleWorld)(''/work/out.sh'' \<mapsto> []))
                 (scriptOptions missingInputOptions)
                 [\<lparr>filename = ''missing.txt'', path = ''/work/missing.txt'', mode = 420\<rparr>])
            then 1 else 0) \<and>
         outputStream (main mk ''usage'' sampleWorld missingInputOptions) =
           Some (FileStream ''/work/out.sh'') \<and>
         fsAfter (main mk ''usage'' sampleWorld missingInputOptions) ''/work/out.sh'' =
           Some (written (mk ((fsys sampleWorld)(''/work/out.sh'' \<mapsto> []))
                 (scriptOptions missingInputOptions)
                 [\<lparr>filename = ''missing.txt'', path = ''/work/missing.txt'', mode = 420\<rparr>]))"
    unfolding run answer by simp
  have concrete:
    "exitCode (main sampleAssembler ''usage'' sampleWorld missingInputOptions) = 1"
    "assemblerResult (main sampleAssembler ''usage'' sampleWorld missingInputOptions) =
       Some \<lparr>written = [], rejected = True\<rparr>"
    "outputStream (main sampleAssembler ''usage'' sampleWorld missingInputOptions) =
       Some (FileStream ''/work/out.sh'')"
    "fsAfter (main sampleAssembler ''usage'' sampleWorld missingInputOptions) ''/work/out.sh'' =
       Some []"
    unfolding run sample by simp_all
  from every files concrete show ?thesis by blast
qed

subsection \<open>The post-extraction script\<close>

text \<open>
  The check of lines 133 to 139 fails exactly when \<^verbatim>\<open>--post-extract\<close> is absent, or is
  the empty text with no \<^verbatim>\<open>--post-extract-file\<close>. A script file replaces the inline
  text only after that check, so the file's content reaches the assembler only in runs
  that also gave \<^verbatim>\<open>--post-extract\<close>.
\<close>

lemma postExtractMissing_iff:
  "postExtractMissing options \<longleftrightarrow>
     opt_post_extract options = None \<or>
     (opt_post_extract options = Some [] \<and> opt_post_extract_file options = None)"
  by (auto simp: postExtractMissing_def split: option.splits)

lemma post_extract_absent_fails:
  "\<not> opt_help options \<Longrightarrow> opt_files options \<noteq> [] \<Longrightarrow> opt_post_extract options = None \<Longrightarrow>
   main mk usage w options = failWith w [] [''No post extraction script specified'']"
  by (simp add: main_def postExtractMissing_def)

lemma post_extract_inline_passes:
  "opt_post_extract options = Some text \<Longrightarrow> text \<noteq> [] \<Longrightarrow> \<not> postExtractMissing options"
  by (simp add: postExtractMissing_def)

lemma post_extract_file_wins:
  assumes "\<not> opt_help options" and "validationPasses w options"
    and "opt_post_extract_file options = Some f" and "readFile w f = Some content"
  shows "\<exists>so. assembled (main mk usage w options) = Some (so, buildFiles w options) \<and>
              postExtraction so = Some content"
proof -
  obtain options1 where pre: "readPreExtract w options = Inr options1"
    using assms(2) readPreExtract_readable by (auto simp: validationPasses_def)
  then have "opt_post_extract_file options1 = Some f"
    using readPreExtract_keeps [OF pre] assms(3) by simp
  then have post: "readPostExtract w options1 = Inr (options1\<lparr>opt_post_extract := Some content\<rparr>)"
    using assms(4) by (simp add: readPostExtract_def)
  obtain options2 where
    "readPostExtract w (case readPreExtract w options of Inr o1 \<Rightarrow> o1 | Inl _ \<Rightarrow> options) =
       Inr options2"
    "main mk usage w options =
       assemble mk w (preReads options @ postReads options) options2 (buildFiles w options)"
    using main_validated [OF assms(1,2), of mk usage] by blast
  with pre post have
    "options2 = options1\<lparr>opt_post_extract := Some content\<rparr>"
    "assembled (main mk usage w options) = Some (scriptOptions options2, buildFiles w options)"
    by (simp_all add: assembled_assemble)
  then show ?thesis
    by (simp add: scriptOptions_def)
qed

text \<open>
  Claim C1, for the runs it holds for. In a run without \<^verbatim>\<open>--help\<close>: omitting both
  \<^verbatim>\<open>--post-extract\<close> and \<^verbatim>\<open>--post-extract-file\<close> fails with status 1, an error line and
  no call of the assembler, and with a file given the line is
  \<^verbatim>\<open>No post extraction script specified\<close>; non-empty inline text alone passes the
  check, and the run never prints that line; and when inline text and a readable script
  file are both given and every check passes, the post-extraction script the assembler
  receives is the content of the file.
\<close>

theorem post_extract_script_source:
  assumes "\<not> opt_help options"
  shows "(opt_post_extract options = None \<and> opt_post_extract_file options = None \<longrightarrow>
            exitCode (main mk usage w options) = 1 \<and>
            consoleError (main mk usage w options) \<noteq> [] \<and>
            assembled (main mk usage w options) = None \<and>
            (opt_files options \<noteq> [] \<longrightarrow>
               main mk usage w options =
                 failWith w [] [''No post extraction script specified''])) \<and>
         (opt_post_extract options = Some inline \<and> inline \<noteq> [] \<and>
          opt_post_extract_file options = None \<longrightarrow>
            \<not> postExtractMissing options \<and>
            consoleError (main mk usage w options) \<noteq>
              [''No post extraction script specified'']) \<and>
         (opt_post_extract options = Some inline \<and> opt_post_extract_file options = Some f \<and>
          readFile w f = Some content \<and> validationPasses w options \<longrightarrow>
            (\<exists>so. assembled (main mk usage w options) = Some (so, buildFiles w options) \<and>
                  postExtraction so = Some content))"
proof -
  have both_omitted:
    "opt_post_extract options = None \<and> opt_post_extract_file options = None \<longrightarrow>
       exitCode (main mk usage w options) = 1 \<and>
       consoleError (main mk usage w options) \<noteq> [] \<and>
       assembled (main mk usage w options) = None \<and>
       (opt_files options \<noteq> [] \<longrightarrow>
          main mk usage w options = failWith w [] [''No post extraction script specified''])"
    using assms by (simp add: main_def postExtractMissing_def failWith_def)
  have inline_only:
    "opt_post_extract options = Some inline \<and> inline \<noteq> [] \<and>
     opt_post_extract_file options = None \<longrightarrow>
       \<not> postExtractMissing options \<and>
       consoleError (main mk usage w options) \<noteq> [''No post extraction script specified'']"
    using assms
    by (simp add: main_def postExtractMissing_def failWith_def assemble_def
        readPreExtract_def readPostExtract_def duplicateReport_def Let_def
        split: option.splits)
  have file_wins:
    "opt_post_extract options = Some inline \<and> opt_post_extract_file options = Some f \<and>
     readFile w f = Some content \<and> validationPasses w options \<longrightarrow>
       (\<exists>so. assembled (main mk usage w options) = Some (so, buildFiles w options) \<and>
             postExtraction so = Some content)"
    using post_extract_file_wins [OF assms, of w f content mk usage] by blast
  from both_omitted inline_only file_wins show ?thesis by blast
qed

text \<open>
  \<^verbatim>\<open>--post-extract "echo done" --post-extract-file install.sh a.sh b.txt\<close> in
  \<^verbatim>\<open>/work\<close>: the assembler receives the content of \<^verbatim>\<open>install.sh\<close>.
\<close>

theorem post_extract_script_source_witness:
  "\<not> opt_help (sampleOptions\<lparr>opt_post_extract_file := Some ''install.sh''\<rparr>) \<and>
   opt_post_extract (sampleOptions\<lparr>opt_post_extract_file := Some ''install.sh''\<rparr>) =
     Some ''echo done'' \<and>
   readFile sampleWorld ''install.sh'' = Some ''./a.sh'' \<and>
   validationPasses sampleWorld (sampleOptions\<lparr>opt_post_extract_file := Some ''install.sh''\<rparr>) \<and>
   map_option (postExtraction \<circ> fst)
     (assembled (main sampleAssembler ''usage'' sampleWorld
        (sampleOptions\<lparr>opt_post_extract_file := Some ''install.sh''\<rparr>))) =
     Some (Some ''./a.sh'')"
proof -
  let ?options = "sampleOptions\<lparr>opt_post_extract_file := Some ''install.sh''\<rparr>"
  have res: "path_resolve ''/work'' ''install.sh'' = ''/work/install.sh''"
            "path_resolve ''/work'' ''a.sh'' = ''/work/a.sh''"
            "path_resolve ''/work'' ''b.txt'' = ''/work/b.txt''"
    by (simp_all add: path_resolve_def isAbsolute_def normalizeString_def
        normalizeSegments_def normalizeStep_def)
  have rd: "readFile sampleWorld ''install.sh'' = Some ''./a.sh''"
    by (simp add: readFile_def sampleWorld_def res)
  have files: "buildFiles sampleWorld ?options =
      [\<lparr>filename = ''a.sh'', path = ''/work/a.sh'', mode = 493\<rparr>,
       \<lparr>filename = ''b.txt'', path = ''/work/b.txt'', mode = 420\<rparr>]"
    by (simp add: buildFiles_def sampleOptions_def sampleWorld_def
        makeEntry_def fileMode_def path_parse_def isAbsolute_def res)
  have passes: "\<not> opt_help ?options" "validationPasses sampleWorld ?options"
    "opt_post_extract ?options = Some ''echo done''"
    "opt_post_extract_file ?options = Some ''install.sh''"
    unfolding validationPasses_def files
    by (simp_all add: sampleOptions_def postExtractMissing_def
        validateArchiveType_def validArchiveTypes_def validateCompressLevel_def
        scriptFileReadable_def rd)
  show ?thesis
    using passes rd
      post_extract_script_source [OF passes(1), where mk = sampleAssembler
        and usage = "''usage''" and w = sampleWorld and inline = "''echo done''"
        and f = "''install.sh''" and content = "''./a.sh''"]
    by auto
qed

text \<open>
  Claim C1 as stated fails in two runs. At \<^verbatim>\<open>--help a.sh b.txt\<close> both options are
  omitted, and the run prints the usage, no error line, and exits with status 0. At
  \<^verbatim>\<open>--post-extract-file install.sh a.sh b.txt\<close>, where \<^verbatim>\<open>install.sh\<close> can be read,
  the script file is supplied alone, and the run fails the check with status 1.
\<close>

theorem post_extract_check_in_help_and_file_only_runs:
  "opt_post_extract (sampleOptions\<lparr>opt_help := True, opt_post_extract := None\<rparr>) = None \<and>
   opt_post_extract_file (sampleOptions\<lparr>opt_help := True, opt_post_extract := None\<rparr>) = None \<and>
   exitCode (main sampleAssembler ''usage'' sampleWorld
      (sampleOptions\<lparr>opt_help := True, opt_post_extract := None\<rparr>)) = 0 \<and>
   consoleError (main sampleAssembler ''usage'' sampleWorld
      (sampleOptions\<lparr>opt_help := True, opt_post_extract := None\<rparr>)) = [] \<and>
   opt_post_extract scriptFileOnlyOptions = None \<and>
   opt_post_extract_file scriptFileOnlyOptions = Some ''install.sh'' \<and>
   exitCode (main sampleAssembler ''usage'' sampleWorld scriptFileOnlyOptions) = 1 \<and>
   consoleError (main sampleAssembler ''usage'' sampleWorld scriptFileOnlyOptions) =
     [''No post extraction script specified'']"
  by (simp add: main_def sampleOptions_def scriptFileOnlyOptions_def postExtractMissing_def
      failWith_def)

text \<open>
  The second run in full. The test for an absent \<^verbatim>\<open>--post-extract\<close> is made first and
  decides: the run reads no file, prints \<^verbatim>\<open>No post extraction script specified\<close> and
  exits with status 1, although \<^verbatim>\<open>install.sh\<close> can be read. The same file with an
  empty \<^verbatim>\<open>--post-extract ""\<close> beside it is accepted, and its content is what the
  assembler receives: the check does count a script file, but only after the test for
  an absent inline text.
\<close>

theorem post_extract_file_alone_rejected:
  "readFile sampleWorld ''install.sh'' = Some ''./a.sh'' \<and>
   main sampleAssembler ''usage'' sampleWorld scriptFileOnlyOptions =
     failWith sampleWorld [] [''No post extraction script specified''] \<and>
   exitCode (main sampleAssembler ''usage'' sampleWorld scriptFileOnlyOptions) = 1 \<and>
   map_option (postExtraction \<circ> fst)
     (assembled (main sampleAssembler ''usage'' sampleWorld
        (scriptFileOnlyOptions\<lparr>opt_post_extract := Some []\<rparr>))) =
     Some (Some ''./a.sh'') \<and>
   exitCode (main sampleAssembler ''usage'' sampleWorld
        (scriptFileOnlyOptions\<lparr>opt_post_extract := Some []\<rparr>)) = 0"
proof -
  have res: "path_resolve ''/work'' ''install.sh'' = ''/work/install.sh''"
            "path_resolve ''/work'' ''a.sh'' = ''/work/a.sh''"
            "path_resolve ''/work'' ''b.txt'' = ''/work/b.txt''"
    by (simp_all add: path_resolve_def isAbsolute_def normalizeString_def
        normalizeSegments_def normalizeStep_def)
  have rd: "readFile sampleWorld ''install.sh'' = Some ''./a.sh''"
    by (simp add: readFile_def sampleWorld_def res)
  have alone: "main sampleAssembler ''usage'' sampleWorld scriptFileOnlyOptions =
     failWith sampleWorld [] [''No post extraction script specified'']"
    by (simp add: main_def scriptFileOnlyOptions_def sampleOptions_def postExtractMissing_def)
  have files: "buildFiles sampleWorld (scriptFileOnlyOptions\<lparr>opt_post_extract := Some []\<rparr>) =
      [\<lparr>filename = ''a.sh'', path = ''/work/a.sh'', mode = 493\<rparr>,
       \<lparr>filename = ''b.txt'', path = ''/work/b.txt'', mode = 420\<rparr>]"
    by (simp add: buildFiles_def scriptFileOnlyOptions_def sampleOptions_def sampleWorld_def
        makeEntry_def fileMode_def path_parse_def isAbsolute_def res)
  have passes: "\<not> opt_help (scriptFileOnlyOptions\<lparr>opt_post_extract := Some []\<rparr>)"
    "validationPasses sampleWorld (scriptFileOnlyOptions\<lparr>opt_post_extract := Some []\<rparr>)"
    "opt_post_extract_file (scriptFileOnlyOptions\<lparr>opt_post_extract := Some []\<rparr>) =
       Some ''install.sh''"
    unfolding validationPasses_def files
    by (simp_all add: scriptFileOnlyOptions_def sampleOptions_def postExtractMissing_def
        validateArchiveType_def validArchiveTypes_def validateCompressLevel_def
        scriptFileReadable_def rd)
  obtain options2 where
    out: "opt_output options2 =
      opt_output (scriptFileOnlyOptions\<lparr>opt_post_extract := Some []\<rparr>)" and
    run: "main sampleAssembler ''usage'' sampleWorld
        (scriptFileOnlyOptions\<lparr>opt_post_extract := Some []\<rparr>) =
      assemble sampleAssembler sampleWorld
        (preReads (scriptFileOnlyOptions\<lparr>opt_post_extract := Some []\<rparr>) @
         postReads (scriptFileOnlyOptions\<lparr>opt_post_extract := Some []\<rparr>)) options2
        (buildFiles sampleWorld (scriptFileOnlyOptions\<lparr>opt_post_extract := Some []\<rparr>))"
    using main_validated [OF passes(1,2)] by blast
  have ok: "exitCode (main sampleAssembler ''usage'' sampleWorld
        (scriptFileOnlyOptions\<lparr>opt_post_extract := Some []\<rparr>)) = 0"
    unfolding run files
    by (simp add: assemble_def sampleAssembler_def sampleWorld_def Let_def out
        scriptFileOnlyOptions_def sampleOptions_def)
  obtain so where
    "assembled (main sampleAssembler ''usage'' sampleWorld
        (scriptFileOnlyOptions\<lparr>opt_post_extract := Some []\<rparr>)) =
       Some (so, buildFiles sampleWorld (scriptFileOnlyOptions\<lparr>opt_post_extract := Some []\<rparr>))"
    "postExtraction so = Some ''./a.sh''"
    using post_extract_file_wins [OF passes(1,2,3) rd] by blast
  with rd alone ok show ?thesis
    by (simp add: failWith_def)
qed

subsection \<open>Exit status\<close>

lemma no_files_collected:
  "\<forall>f. FilesArg f \<notin> set args \<Longrightarrow>
   concat (map (\<lambda>a. case a of FilesArg f \<Rightarrow> [f] | _ \<Rightarrow> []) args) = []"
  by (induction args) (auto split: Arg.splits)

lemma program_no_files:
  assumes "HelpArg \<notin> set args" and "\<forall>f. FilesArg f \<notin> set args"
    and "\<not> (\<exists>s. UnknownArg s \<in> set args)" and "\<not> repeatsOption args"
  shows "program mk usage w args = failWith w [] [''No files to embed specified'']"
proof -
  obtain argv where parse: "parseArgv args = Inr argv"
    using parseArgv_succeeds [OF assms(3,4)] by blast
  have "\<not> opt_help (commandLineArgs argv)"
    using parseArgv_help [OF parse] assms(1) by (simp add: commandLineArgs_def)
  moreover have "opt_files (commandLineArgs argv) = []"
    using parseArgv_files [OF parse] no_files_collected [OF assms(2)]
    by (simp add: commandLineArgs_def)
  ultimately show ?thesis
    by (simp add: program_def parse main_no_files)
qed

lemma main_exit_code:
  assumes "\<not> opt_help options"
  shows "exitCode (main mk usage w options) =
     (if validationPasses w options \<and> outputWritable w options \<and>
         \<not> rejected (assemblerAnswer mk w options)
      then 0 else 1)"
proof (cases "validationPasses w options")
  case False
  then obtain rs msgs where "main mk usage w options = failWith w rs msgs"
    using main_not_validated [OF assms, of w mk usage] by blast
  with False show ?thesis
    by (simp add: failWith_def)
next
  case True
  show ?thesis
  proof (cases "opt_output options")
    case None
    then show ?thesis
      using True by (simp add: main_passes_stdout [OF assms True None] outputWritable_def)
  next
    case (Some out)
    show ?thesis
    proof (cases "writable w (path_resolve (cwd w) out)")
      case yes: True
      then show ?thesis
        using True Some
        by (simp add: main_passes_file [OF assms True Some yes] outputWritable_def)
    next
      case no: False
      then show ?thesis
        using True Some
        by (simp add: main_passes_unopenable [OF assms True Some no] outputWritable_def)
    qed
  qed
qed

text \<open>The sample run \<^verbatim>\<open>--post-extract "echo done" a.sh b.txt\<close> in \<^verbatim>\<open>/work\<close>.\<close>

lemma sample_passes:
  "\<not> opt_help sampleOptions \<and> validationPasses sampleWorld sampleOptions \<and>
   opt_output sampleOptions = None \<and>
   assemblerAnswer sampleAssembler sampleWorld sampleOptions =
     \<lparr>written = ''#!/bin/sh'', rejected = False\<rparr>"
proof -
  have res: "path_resolve ''/work'' ''a.sh'' = ''/work/a.sh''"
            "path_resolve ''/work'' ''b.txt'' = ''/work/b.txt''"
    by (simp_all add: path_resolve_def isAbsolute_def normalizeString_def
        normalizeSegments_def normalizeStep_def)
  have files: "buildFiles sampleWorld sampleOptions =
      [\<lparr>filename = ''a.sh'', path = ''/work/a.sh'', mode = 493\<rparr>,
       \<lparr>filename = ''b.txt'', path = ''/work/b.txt'', mode = 420\<rparr>]"
    by (simp add: buildFiles_def sampleOptions_def sampleWorld_def
        makeEntry_def fileMode_def path_parse_def isAbsolute_def res)
  have checks: "\<not> opt_help sampleOptions" "opt_files sampleOptions \<noteq> []"
    "\<not> postExtractMissing sampleOptions"
    "validateArchiveType sampleOptions"
    "validateCompressLevel (opt_compress_level sampleOptions)"
    "scriptFileReadable sampleWorld (opt_pre_extract_file sampleOptions)"
    "scriptFileReadable sampleWorld (opt_post_extract_file sampleOptions)"
    "opt_output sampleOptions = None"
    by (simp_all add: sampleOptions_def postExtractMissing_def
        validateArchiveType_def validArchiveTypes_def validateCompressLevel_def
        scriptFileReadable_def)
  have fs: "fsAtAssembly sampleWorld sampleOptions = fsys sampleWorld"
    by (simp add: fsAtAssembly_def checks)
  have present: "fsys sampleWorld ''/work/a.sh'' \<noteq> None"
    "fsys sampleWorld ''/work/b.txt'' \<noteq> None"
    by (simp_all add: sampleWorld_def)
  have "assemblerAnswer sampleAssembler sampleWorld sampleOptions =
     \<lparr>written = ''#!/bin/sh'', rejected = False\<rparr>"
    using present
    by (simp add: assemblerAnswer_buildFiles files fs sampleAssembler_def)
  then show ?thesis
    by (simp add: validationPasses_def checks files)
qed

text \<open>
  Claim C8. Without \<^verbatim>\<open>--help\<close>, an empty file list fails validation: the run prints
  \<^verbatim>\<open>No files to embed specified\<close> and exits with status 1, having read and written
  nothing; on the command line, when neither \<^verbatim>\<open>--help\<close> nor a file is given, that is
  the outcome whenever the parser accepts the arguments, and otherwise the parser's
  exception ends the run, with status 1 as well. Conversely a help run exits with
  status 0, and a run without \<^verbatim>\<open>--help\<close> exits with status 0 exactly when a file is
  given, the post-extraction text is there, the type is \<^verbatim>\<open>tar\<close> or \<^verbatim>\<open>zip\<close>, the level
  is absent or an integer from 0 to 9, the script files given can be read, no two
  entries share a name, the output can be opened, and the assembler, called on the
  script options and entries of the run, resolves; it exits with status 1 in every
  other case. A command line that the parser refuses exits with status 1.
\<close>

theorem exit_status:
  "(\<not> opt_help options \<and> opt_files options = [] \<longrightarrow>
      main mk usage w options = failWith w [] [''No files to embed specified''] \<and>
      exitCode (main mk usage w options) = 1 \<and>
      consoleError (main mk usage w options) = [''No files to embed specified''] \<and>
      filesRead (main mk usage w options) = [] \<and>
      fsAfter (main mk usage w options) = fsys w) \<and>
   (HelpArg \<notin> set args \<and> (\<forall>f. FilesArg f \<notin> set args) \<longrightarrow>
      exitCode (program mk usage w args) = 1 \<and>
      (if (\<exists>s. UnknownArg s \<in> set args) \<or> repeatsOption args
       then \<exists>e. thrown (program mk usage w args) = Some e
       else consoleError (program mk usage w args) = [''No files to embed specified''])) \<and>
   (opt_help options \<longrightarrow> exitCode (main mk usage w options) = 0) \<and>
   (\<not> opt_help options \<longrightarrow>
      exitCode (main mk usage w options) =
        (if opt_files options \<noteq> [] \<and>
            (\<exists>s. opt_post_extract options = Some s \<and>
                 (s \<noteq> [] \<or> opt_post_extract_file options \<noteq> None)) \<and>
            (opt_type options = ''tar'' \<or> opt_type options = ''zip'') \<and>
            (opt_compress_level options = None \<or>
             (\<exists>n::nat. n \<le> 9 \<and> opt_compress_level options = Some (Finite (of_nat n)))) \<and>
            (opt_pre_extract_file options = None \<or>
             (\<exists>f. opt_pre_extract_file options = Some f \<and> fsys w (path_resolve (cwd w) f) \<noteq> None)) \<and>
            (opt_post_extract_file options = None \<or>
             (\<exists>f. opt_post_extract_file options = Some f \<and> fsys w (path_resolve (cwd w) f) \<noteq> None)) \<and>
            distinct (map filename (buildFiles w options)) \<and>
            (opt_output options = None \<or>
             (\<exists>out. opt_output options = Some out \<and> writable w (path_resolve (cwd w) out))) \<and>
            \<not> rejected (assemblerAnswer mk w options)
         then 0 else 1)) \<and>
   ((\<exists>s. UnknownArg s \<in> set args) \<or> repeatsOption args \<longrightarrow>
      exitCode (program mk usage w args) = 1)"
proof (intro conjI impI)
  assume a: "\<not> opt_help options \<and> opt_files options = []"
  then have run: "main mk usage w options = failWith w [] [''No files to embed specified'']"
    by (simp add: main_no_files)
  show "main mk usage w options = failWith w [] [''No files to embed specified'']"
    by (rule run)
  show "exitCode (main mk usage w options) = 1"
    "consoleError (main mk usage w options) = [''No files to embed specified'']"
    "filesRead (main mk usage w options) = []"
    "fsAfter (main mk usage w options) = fsys w"
    unfolding run by (simp_all add: failWith_def)
next
  assume a: "HelpArg \<notin> set args \<and> (\<forall>f. FilesArg f \<notin> set args)"
  show "exitCode (program mk usage w args) = 1"
  proof (cases "(\<exists>s. UnknownArg s \<in> set args) \<or> repeatsOption args")
    case True
    then obtain e where "program mk usage w args = uncaught w e"
      using program_parse_failure by blast
    then show ?thesis by (simp add: uncaught_def)
  next
    case False
    then show ?thesis
      using program_no_files [of args mk usage w] a by (simp add: failWith_def)
  qed
  show "if (\<exists>s. UnknownArg s \<in> set args) \<or> repeatsOption args
       then \<exists>e. thrown (program mk usage w args) = Some e
       else consoleError (program mk usage w args) = [''No files to embed specified'']"
  proof (cases "(\<exists>s. UnknownArg s \<in> set args) \<or> repeatsOption args")
    case True
    then obtain e where "program mk usage w args = uncaught w e"
      using program_parse_failure by blast
    with True show ?thesis by (simp add: uncaught_def)
  next
    case False
    then show ?thesis
      using program_no_files [of args mk usage w] a by (simp add: failWith_def)
  qed
next
  assume "opt_help options"
  then show "exitCode (main mk usage w options) = 0"
    by (simp add: main_def)
next
  assume nohelp: "\<not> opt_help options"
  have out: "outputWritable w options \<longleftrightarrow>
      opt_output options = None \<or>
      (\<exists>out. opt_output options = Some out \<and> writable w (path_resolve (cwd w) out))"
    by (cases "opt_output options") (simp_all add: outputWritable_def)
  show "exitCode (main mk usage w options) =
        (if opt_files options \<noteq> [] \<and>
            (\<exists>s. opt_post_extract options = Some s \<and>
                 (s \<noteq> [] \<or> opt_post_extract_file options \<noteq> None)) \<and>
            (opt_type options = ''tar'' \<or> opt_type options = ''zip'') \<and>
            (opt_compress_level options = None \<or>
             (\<exists>n::nat. n \<le> 9 \<and> opt_compress_level options = Some (Finite (of_nat n)))) \<and>
            (opt_pre_extract_file options = None \<or>
             (\<exists>f. opt_pre_extract_file options = Some f \<and> fsys w (path_resolve (cwd w) f) \<noteq> None)) \<and>
            (opt_post_extract_file options = None \<or>
             (\<exists>f. opt_post_extract_file options = Some f \<and> fsys w (path_resolve (cwd w) f) \<noteq> None)) \<and>
            distinct (map filename (buildFiles w options)) \<and>
            (opt_output options = None \<or>
             (\<exists>out. opt_output options = Some out \<and> writable w (path_resolve (cwd w) out))) \<and>
            \<not> rejected (assemblerAnswer mk w options)
         then 0 else 1)"
    unfolding main_exit_code [OF nohelp] validationPasses_inputs out
    by (simp only: conj_assoc)
next
  assume "(\<exists>s. UnknownArg s \<in> set args) \<or> repeatsOption args"
  then obtain e where "program mk usage w args = uncaught w e"
    using program_parse_failure by blast
  then show "exitCode (program mk usage w args) = 1"
    by (simp add: uncaught_def)
qed

text \<open>
  In \<^verbatim>\<open>/work\<close>: \<^verbatim>\<open>--post-extract "echo done"\<close> with no file exits with status 1 and the
  line \<^verbatim>\<open>No files to embed specified\<close>, as options and as a command line;
  \<^verbatim>\<open>--post-extract "echo done" a.sh b.txt\<close> succeeds with status 0; the same with
  \<^verbatim>\<open>--output nodir/out.sh\<close>, where \<^verbatim>\<open>nodir\<close> does not exist, exits with status 1;
  \<^verbatim>\<open>--type rar\<close> exits with status 1; an undefined option \<^verbatim>\<open>--bogus\<close> exits with status
  1; and \<^verbatim>\<open>--help\<close> exits with status 0.
\<close>

theorem exit_status_witness:
  "\<not> opt_help (sampleOptions\<lparr>opt_files := []\<rparr>) \<and>
   opt_files (sampleOptions\<lparr>opt_files := []\<rparr>) = [] \<and>
   exitCode (main sampleAssembler ''usage'' sampleWorld (sampleOptions\<lparr>opt_files := []\<rparr>)) = 1 \<and>
   consoleError (main sampleAssembler ''usage'' sampleWorld (sampleOptions\<lparr>opt_files := []\<rparr>)) =
     [''No files to embed specified''] \<and>
   HelpArg \<notin> set [PostExtractArg ''echo done''] \<and>
   (\<forall>f. FilesArg f \<notin> set [PostExtractArg ''echo done'']) \<and>
   exitCode (program sampleAssembler ''usage'' sampleWorld [PostExtractArg ''echo done'']) = 1 \<and>
   consoleError (program sampleAssembler ''usage'' sampleWorld [PostExtractArg ''echo done'']) =
     [''No files to embed specified''] \<and>
   \<not> opt_help sampleOptions \<and>
   exitCode (main sampleAssembler ''usage'' sampleWorld sampleOptions) = 0 \<and>
   exitCode (main sampleAssembler ''usage'' sampleWorld unopenableOutputOptions) = 1 \<and>
   exitCode (main sampleAssembler ''usage'' sampleWorld (sampleOptions\<lparr>opt_type := ''rar''\<rparr>)) = 1 \<and>
   UnknownArg ''--bogus'' \<in> set [UnknownArg ''--bogus'', FilesArg ''a.sh''] \<and>
   exitCode (program sampleAssembler ''usage'' sampleWorld
     [UnknownArg ''--bogus'', FilesArg ''a.sh'']) = 1 \<and>
   opt_help (sampleOptions\<lparr>opt_help := True\<rparr>) \<and>
   exitCode (main sampleAssembler ''usage'' sampleWorld (sampleOptions\<lparr>opt_help := True\<rparr>)) = 0"
proof -
  have empty: "\<not> opt_help (sampleOptions\<lparr>opt_files := []\<rparr>)"
    "opt_files (sampleOptions\<lparr>opt_files := []\<rparr>) = []"
    by (simp_all add: sampleOptions_def)
  have one: "exitCode (main sampleAssembler ''usage'' sampleWorld (sampleOptions\<lparr>opt_files := []\<rparr>)) = 1 \<and>
     consoleError (main sampleAssembler ''usage'' sampleWorld (sampleOptions\<lparr>opt_files := []\<rparr>)) =
       [''No files to embed specified'']"
    using exit_status [where options = "sampleOptions\<lparr>opt_files := []\<rparr>"
      and mk = sampleAssembler and usage = "''usage''" and w = sampleWorld and args = "[]"] empty
    by (simp add: failWith_def)
  have line: "HelpArg \<notin> set [PostExtractArg ''echo done'']"
    "\<forall>f. FilesArg f \<notin> set [PostExtractArg ''echo done'']"
    "\<not> ((\<exists>s. UnknownArg s \<in> set [PostExtractArg ''echo done'']) \<or>
        repeatsOption [PostExtractArg ''echo done''])"
    by (simp_all add: repeatsOption_def)
  have two: "exitCode (program sampleAssembler ''usage'' sampleWorld [PostExtractArg ''echo done'']) = 1 \<and>
     consoleError (program sampleAssembler ''usage'' sampleWorld [PostExtractArg ''echo done'']) =
       [''No files to embed specified'']"
    using exit_status [where options = sampleOptions
      and mk = sampleAssembler and usage = "''usage''" and w = sampleWorld
      and args = "[PostExtractArg ''echo done'']"] line
    by simp
  have post: "\<exists>s. opt_post_extract sampleOptions = Some s \<and>
      (s \<noteq> [] \<or> opt_post_extract_file sampleOptions \<noteq> None)"
    using sample_passes unfolding validationPasses_inputs by blast
  have inputs: "opt_files sampleOptions \<noteq> []" "opt_type sampleOptions = ''tar''"
    "opt_compress_level sampleOptions = None" "opt_pre_extract_file sampleOptions = None"
    "opt_post_extract_file sampleOptions = None" "opt_output sampleOptions = None"
    "\<not> opt_help sampleOptions"
    by (simp_all add: sampleOptions_def)
  have names: "distinct (map filename (buildFiles sampleWorld sampleOptions))"
    using sample_passes by (simp add: validationPasses_def)
  have answer: "\<not> rejected (assemblerAnswer sampleAssembler sampleWorld sampleOptions)"
    using sample_passes by simp
  have three: "exitCode (main sampleAssembler ''usage'' sampleWorld sampleOptions) = 0"
    using exit_status [where options = sampleOptions
      and mk = sampleAssembler and usage = "''usage''" and w = sampleWorld and args = "[]"]
      post inputs names answer
    by simp
  have closed: "opt_output unopenableOutputOptions = Some ''nodir/out.sh''"
    "path_resolve (cwd sampleWorld) ''nodir/out.sh'' = ''/work/nodir/out.sh''"
    "\<not> writable sampleWorld ''/work/nodir/out.sh''" "\<not> opt_help unopenableOutputOptions"
    using unopenable_output_passes by simp_all
  have four: "exitCode (main sampleAssembler ''usage'' sampleWorld unopenableOutputOptions) = 1"
    using exit_status [where options = unopenableOutputOptions
      and mk = sampleAssembler and usage = "''usage''" and w = sampleWorld and args = "[]"]
      closed
    by simp
  have rar: "\<not> opt_help (sampleOptions\<lparr>opt_type := ''rar''\<rparr>)"
    "opt_type (sampleOptions\<lparr>opt_type := ''rar''\<rparr>) = ''rar''"
    by (simp_all add: sampleOptions_def)
  have five: "exitCode (main sampleAssembler ''usage'' sampleWorld
      (sampleOptions\<lparr>opt_type := ''rar''\<rparr>)) = 1"
    using exit_status [where options = "sampleOptions\<lparr>opt_type := ''rar''\<rparr>"
      and mk = sampleAssembler and usage = "''usage''" and w = sampleWorld and args = "[]"]
      rar
    by simp
  have six: "exitCode (program sampleAssembler ''usage'' sampleWorld
      [UnknownArg ''--bogus'', FilesArg ''a.sh'']) = 1"
    using exit_status [where options = sampleOptions
      and mk = sampleAssembler and usage = "''usage''" and w = sampleWorld
      and args = "[UnknownArg ''--bogus'', FilesArg ''a.sh'']"]
    by simp
  have given: "opt_help (sampleOptions\<lparr>opt_help := True\<rparr>)"
    by simp
  have seven: "exitCode (main sampleAssembler ''usage'' sampleWorld
      (sampleOptions\<lparr>opt_help := True\<rparr>)) = 0"
    using exit_status [where options = "sampleOptions\<lparr>opt_help := True\<rparr>"
      and mk = sampleAssembler and usage = "''usage''" and w = sampleWorld and args = "[]"]
    by simp
  from empty one line(1,2) two inputs(7) three four five six given seven show ?thesis
    by simp
qed

subsection \<open>Help\<close>

lemma main_help:
  "opt_help options \<Longrightarrow>
   main mk usage w options =
     \<lparr>exitCode = 0, consoleLog = [usage], consoleError = [], filesRead = [],
      outputStream = None, assembled = None, assemblerResult = None,
      stdoutData = [], fsAfter = fsys w, thrown = None\<rparr>"
  by (simp add: main_def)

text \<open>
  Claim C9, for the runs it holds for. The options are parsed before the help branch is
  reached. When the parser accepts the command line (every option is a defined one and
  no singular option is set twice) and \<^verbatim>\<open>--help\<close> is on it, the run prints the usage
  text and exits with status 0 before any validation, file read or output: whatever
  the other options are, the outcome is the usage line on standard output, no error
  line, no file read, no output stream, no call of the assembler and an unchanged file
  system. When the parser refuses the command line, with \<^verbatim>\<open>--help\<close> on it or not, its
  exception ends the run with status 1 and nothing is printed on standard output. The
  help branch itself looks at no other option.
\<close>

theorem help_takes_precedence:
  "(HelpArg \<in> set args \<and> \<not> (\<exists>s. UnknownArg s \<in> set args) \<and> \<not> repeatsOption args \<longrightarrow>
      program mk usage w args =
        \<lparr>exitCode = 0, consoleLog = [usage], consoleError = [], filesRead = [],
         outputStream = None, assembled = None, assemblerResult = None,
         stdoutData = [], fsAfter = fsys w, thrown = None\<rparr>) \<and>
   ((\<exists>s. UnknownArg s \<in> set args) \<or> repeatsOption args \<longrightarrow>
      (\<exists>e. program mk usage w args =
        \<lparr>exitCode = 1, consoleLog = [], consoleError = [], filesRead = [],
         outputStream = None, assembled = None, assemblerResult = None,
         stdoutData = [], fsAfter = fsys w, thrown = Some e\<rparr>)) \<and>
   (opt_help options \<longrightarrow>
      main mk usage w options =
        \<lparr>exitCode = 0, consoleLog = [usage], consoleError = [], filesRead = [],
         outputStream = None, assembled = None, assemblerResult = None,
         stdoutData = [], fsAfter = fsys w, thrown = None\<rparr>)"
proof (intro conjI impI)
  assume a: "HelpArg \<in> set args \<and> \<not> (\<exists>s. UnknownArg s \<in> set args) \<and> \<not> repeatsOption args"
  then obtain argv where parse: "parseArgv args = Inr argv"
    using parseArgv_succeeds [of args] by blast
  have "opt_help (commandLineArgs argv)"
    using parseArgv_help [OF parse] a by (simp add: commandLineArgs_def)
  then show "program mk usage w args =
        \<lparr>exitCode = 0, consoleLog = [usage], consoleError = [], filesRead = [],
         outputStream = None, assembled = None, assemblerResult = None,
         stdoutData = [], fsAfter = fsys w, thrown = None\<rparr>"
    by (simp add: program_def parse main_help)
next
  assume "(\<exists>s. UnknownArg s \<in> set args) \<or> repeatsOption args"
  then obtain e where "program mk usage w args = uncaught w e"
    using program_parse_failure by blast
  then show "\<exists>e. program mk usage w args =
        \<lparr>exitCode = 1, consoleLog = [], consoleError = [], filesRead = [],
         outputStream = None, assembled = None, assemblerResult = None,
         stdoutData = [], fsAfter = fsys w, thrown = Some e\<rparr>"
    by (auto simp: uncaught_def)
next
  assume "opt_help options"
  then show "main mk usage w options =
        \<lparr>exitCode = 0, consoleLog = [usage], consoleError = [], filesRead = [],
         outputStream = None, assembled = None, assemblerResult = None,
         stdoutData = [], fsAfter = fsys w, thrown = None\<rparr>"
    by (rule main_help)
qed

text \<open>
  At \<^verbatim>\<open>--help --type rar --compress-level 12 --post-extract-file nowhere.sh\<close> with no
  file: every later check would fail, and the run still exits with status 0. At
  \<^verbatim>\<open>--output a --help --output b\<close> the parser refuses the second \<^verbatim>\<open>--output\<close>: the
  status is 1 and nothing is printed on standard output.
\<close>

theorem help_takes_precedence_witness:
  "HelpArg \<in> set [HelpArg, TypeArg ''rar'', CompressLevelArg (Finite 12),
       PostExtractFileArg ''nowhere.sh''] \<and>
   \<not> (\<exists>s. UnknownArg s \<in> set [HelpArg, TypeArg ''rar'', CompressLevelArg (Finite 12),
       PostExtractFileArg ''nowhere.sh'']) \<and>
   \<not> repeatsOption [HelpArg, TypeArg ''rar'', CompressLevelArg (Finite 12),
       PostExtractFileArg ''nowhere.sh''] \<and>
   program sampleAssembler ''usage'' sampleWorld
     [HelpArg, TypeArg ''rar'', CompressLevelArg (Finite 12),
      PostExtractFileArg ''nowhere.sh''] =
     \<lparr>exitCode = 0, consoleLog = [''usage''], consoleError = [], filesRead = [],
      outputStream = None, assembled = None, assemblerResult = None,
      stdoutData = [], fsAfter = fsys sampleWorld, thrown = None\<rparr> \<and>
   repeatsOption [OutputArg ''a'', HelpArg, OutputArg ''b''] \<and>
   exitCode (program sampleAssembler ''usage'' sampleWorld
     [OutputArg ''a'', HelpArg, OutputArg ''b'']) = 1 \<and>
   consoleLog (program sampleAssembler ''usage'' sampleWorld
     [OutputArg ''a'', HelpArg, OutputArg ''b'']) = [] \<and>
   opt_help (sampleOptions\<lparr>opt_help := True, opt_files := []\<rparr>) \<and>
   exitCode (main sampleAssembler ''usage'' sampleWorld
     (sampleOptions\<lparr>opt_help := True, opt_files := []\<rparr>)) = 0"
proof -
  have line: "HelpArg \<in> set [HelpArg, TypeArg ''rar'', CompressLevelArg (Finite 12),
       PostExtractFileArg ''nowhere.sh'']"
    "\<not> (\<exists>s. UnknownArg s \<in> set [HelpArg, TypeArg ''rar'', CompressLevelArg (Finite 12),
       PostExtractFileArg ''nowhere.sh''])"
    "\<not> repeatsOption [HelpArg, TypeArg ''rar'', CompressLevelArg (Finite 12),
       PostExtractFileArg ''nowhere.sh'']"
    by (simp_all add: repeatsOption_def)
  have accepted: "program sampleAssembler ''usage'' sampleWorld
     [HelpArg, TypeArg ''rar'', CompressLevelArg (Finite 12),
      PostExtractFileArg ''nowhere.sh''] =
     \<lparr>exitCode = 0, consoleLog = [''usage''], consoleError = [], filesRead = [],
      outputStream = None, assembled = None, assemblerResult = None,
      stdoutData = [], fsAfter = fsys sampleWorld, thrown = None\<rparr>"
    using help_takes_precedence [where args = "[HelpArg, TypeArg ''rar'',
        CompressLevelArg (Finite 12), PostExtractFileArg ''nowhere.sh'']"
      and mk = sampleAssembler and usage = "''usage''" and w = sampleWorld
      and options = sampleOptions] line
    by blast
  have twice: "repeatsOption [OutputArg ''a'', HelpArg, OutputArg ''b'']"
    by (simp add: repeatsOption_def)
  have refused: "exitCode (program sampleAssembler ''usage'' sampleWorld
       [OutputArg ''a'', HelpArg, OutputArg ''b'']) = 1 \<and>
     consoleLog (program sampleAssembler ''usage'' sampleWorld
       [OutputArg ''a'', HelpArg, OutputArg ''b'']) = []"
    using help_takes_precedence [where args = "[OutputArg ''a'', HelpArg, OutputArg ''b'']"
      and mk = sampleAssembler and usage = "''usage''" and w = sampleWorld
      and options = sampleOptions] twice
    by auto
  have given: "opt_help (sampleOptions\<lparr>opt_help := True, opt_files := []\<rparr>)"
    by simp
  have branch: "exitCode (main sampleAssembler ''usage'' sampleWorld
       (sampleOptions\<lparr>opt_help := True, opt_files := []\<rparr>)) = 0"
    using help_takes_precedence [where args = "[]"
      and mk = sampleAssembler and usage = "''usage''" and w = sampleWorld
      and options = "sampleOptions\<lparr>opt_help := True, opt_files := []\<rparr>"] given
    by simp
  from line accepted twice refused given branch show ?thesis by blast
qed

text \<open>
  Claim C9 as stated fails at \<^verbatim>\<open>--help --bogus\<close>, and at \<^verbatim>\<open>--help --help\<close>: the parser
  throws before the help branch is reached, the run ends with status 1 and the usage
  text is not printed.
\<close>

theorem help_after_parse_failure:
  "HelpArg \<in> set [HelpArg, UnknownArg ''--bogus''] \<and>
   program sampleAssembler ''usage'' sampleWorld [HelpArg, UnknownArg ''--bogus''] =
     \<lparr>exitCode = 1, consoleLog = [], consoleError = [], filesRead = [],
      outputStream = None, assembled = None, assemblerResult = None,
      stdoutData = [], fsAfter = fsys sampleWorld,
      thrown = Some (UNKNOWN_OPTION ''--bogus'')\<rparr> \<and>
   program sampleAssembler ''usage'' sampleWorld [HelpArg, HelpArg] =
     \<lparr>exitCode = 1, consoleLog = [], consoleError = [], filesRead = [],
      outputStream = None, assembled = None, assemblerResult = None,
      stdoutData = [], fsAfter = fsys sampleWorld,
      thrown = Some (ALREADY_SET HelpOption)\<rparr>"
  by (simp add: program_def parseArgv_def parseStep_def noArguments_def uncaught_def)

end
